(* ===== verification/Prelude.thy ===== *)
theory Prelude
  imports Main "HOL-Library.Word" "HOL-Library.AList"
begin

text \<open>
  Shared vocabulary of the development: the model's names for Go's basic types, Go maps as
  association lists read through \<open>map_of\<close>, the result type of fallible operations, the
  named collections of facts that the component theories fill, and the generic lemmas on
  lists, options and maps that their proofs use.
\<close>

subsection \<open>Collections\<close>

named_theorems op_defs \<open>definitions of operations, unfolded by the functional lemmas\<close>
named_theorems store_simps \<open>what a store operation does to each field of its state\<close>
named_theorems status_simps \<open>facts on order statuses\<close>
named_theorems inv_intros \<open>preservation of invariants\<close>

subsection \<open>Types\<close>

text \<open>
  A Go \<open>int64\<close> (and \<open>int\<close> on the 64-bit targets of the build) whose overflow
  matters is a 64-bit word read by \<open>sint\<close>. A \<open>time.Time\<close> is the number of nanoseconds
  since Go's zero time (0001-01-01T00:00:00Z), so \<open>IsZero\<close> is equality with 0; a
  \<open>time.Duration\<close> is a number of nanoseconds. A Go string is its list of bytes.
\<close>

type_synonym int64 = "64 word"
type_synonym time = int
type_synonym duration = int
type_synonym 'v gomap = "(string \<times> 'v) list"

abbreviation Second :: duration where "Second \<equiv> 1000000000"
abbreviation Minute :: duration where "Minute \<equiv> 60000000000"
abbreviation Hour :: duration where "Hour \<equiv> 3600000000000"

abbreviation IsZero :: "time \<Rightarrow> bool" where "IsZero t \<equiv> t = 0"

text \<open>
  Go maps: \<open>mapget m k\<close> is the two-value read \<open>v, ok := m[k]\<close>, \<open>mapset\<close> the
  assignment \<open>m[k] = v\<close> and \<open>mapdel\<close> the builtin \<open>delete\<close>. The order of the list
  stands for one iteration order of the runtime.
\<close>

abbreviation mapget :: "('k \<times> 'v) list \<Rightarrow> 'k \<Rightarrow> 'v option" where "mapget \<equiv> map_of"
abbreviation mapset :: "'k \<Rightarrow> 'v \<Rightarrow> ('k \<times> 'v) list \<Rightarrow> ('k \<times> 'v) list" where
  "mapset \<equiv> AList.update"
abbreviation mapdel :: "'k \<Rightarrow> ('k \<times> 'v) list \<Rightarrow> ('k \<times> 'v) list" where
  "mapdel \<equiv> AList.delete"

text \<open>Maps are read through \<open>mapget\<close>, never through membership in the list.\<close>

declare map_of_eq_Some_iff [simp del] Some_eq_map_of_iff [simp del]

definition mapstr :: "string gomap \<Rightarrow> string \<Rightarrow> string" where
  "mapstr m k = (case mapget m k of Some v \<Rightarrow> v | None \<Rightarrow> [])"

lemma mapstr_set [simp]: "mapstr (mapset k v m) k' = (if k = k' then v else mapstr m k')"
  by (simp add: mapstr_def update_conv')

lemma mapget_set [simp]: "mapget (mapset k v m) k' = (if k = k' then Some v else mapget m k')"
  by (simp add: update_conv')

lemma mapget_del [simp]: "mapget (mapdel k m) k' = (if k = k' then None else mapget m k')"
  by (simp add: delete_conv')

lemma distinct_keys_mapset [simp]:
  "distinct (map fst m) \<Longrightarrow> distinct (map fst (mapset k v m))"
  by (rule distinct_update)

lemma keys_mapset [simp]: "fst ` set (mapset k v m) = insert k (fst ` set m)"
  using dom_update [of k v m] by (simp add: dom_map_of_conv_image_fst)

lemma mapget_in_keys: "mapget m k = Some v \<Longrightarrow> k \<in> fst ` set m"
  by (auto dest: map_of_SomeD intro: rev_image_eqI)

lemma mapget_None_keys: "mapget m k = None \<longleftrightarrow> k \<notin> fst ` set m"
  by (rule map_of_eq_None_iff)

text \<open>Every entry of a map with distinct keys is the one its key reads.\<close>

lemma mapget_entry: "distinct (map fst m) \<Longrightarrow> (k, v) \<in> set m \<longleftrightarrow> mapget m k = Some v"
  by (simp only: map_of_eq_Some_iff)

lemma entry_mapset:
  assumes "distinct (map fst m)"
  shows "(k', v') \<in> set (mapset k v m) \<longleftrightarrow>
    (if k' = k then v' = v else (k', v') \<in> set m)"
  using mapget_entry [OF assms] mapget_entry [OF distinct_keys_mapset [OF assms]]
  by (simp add: eq_commute)

subsection \<open>Results\<close>

text \<open>
  An operation on a state \<open>'s\<close> returns a result (\<open>Inl\<close> an error, \<open>Inr\<close> a value) and
  the state it leaves, so an error path that has already written is expressible.
\<close>

type_synonym ('s, 'e, 'a) op = "'s \<Rightarrow> ('e + 'a) \<times> 's"

definition ok :: "'e + 'a \<Rightarrow> bool" where
  "ok r = (case r of Inl _ \<Rightarrow> False | Inr _ \<Rightarrow> True)"

lemma ok_simps [simp]: "ok (Inr x)" "\<not> ok (Inl e)"
  by (simp_all add: ok_def)

lemma ok_iff: "ok r \<longleftrightarrow> (\<exists>x. r = Inr x)"
  by (cases r) auto

lemma not_ok_iff: "\<not> ok r \<longleftrightarrow> (\<exists>e. r = Inl e)"
  by (cases r) auto

subsection \<open>Lists\<close>

lemma filter_eq_self_iff: "filter P xs = xs \<longleftrightarrow> (\<forall>x\<in>set xs. P x)"
  by (rule filter_id_conv)

lemma sum_list_all_zero: "\<forall>x\<in>set xs. f x = (0::nat) \<Longrightarrow> sum_list (map f xs) = 0"
  by (induction xs) auto

lemma set_takeWhile_not: "c \<notin> set (takeWhile (\<lambda>x. x \<noteq> c) xs)"
  by (induction xs) auto

lemma split_at_first:
  assumes "c \<notin> set a" "c \<notin> set a'" "a @ c # b = a' @ c # b'"
  shows "a = a' \<and> b = b'"
  using assms
proof (induction a arbitrary: a')
  case Nil
  then show ?case by (cases a') auto
next
  case (Cons x a)
  then show ?case by (cases a') auto
qed

end
