(* ===== verification/Go_Lib.thy ===== *)
theory Go_Lib
  imports Prelude
begin

text \<open>
  The functions of Go's standard library that the program calls on strings, numbers, hex
  and times: \<open>strings\<close> (TrimSpace, Cut, CutPrefix, Split, Join, ToLower), \<open>strconv\<close>
  (Itoa, FormatInt, ParseInt), \<open>encoding/hex\<close> and the RFC 3339 format of \<open>time\<close>, with
  the laws the components rely on: trimming is idempotent, splitting inverts joining,
  parsing inverts formatting, decoding inverts encoding.
\<close>

subsection \<open>strings\<close>

definition HasPrefix :: "string \<Rightarrow> string \<Rightarrow> bool" where
  "HasPrefix s p \<longleftrightarrow> take (length p) s = p"

definition CutPrefix :: "string \<Rightarrow> string \<Rightarrow> string \<times> bool" where
  "CutPrefix s p = (if HasPrefix s p then (drop (length p) s, True) else (s, False))"

text \<open>The UTF-8 encodings of the runes that \<open>unicode.IsSpace\<close> accepts.\<close>

definition space_runes :: "string list" where
  "space_runes =
     [[CHR 0x20], [CHR 0x09], [CHR 0x0A], [CHR 0x0B], [CHR 0x0C], [CHR 0x0D],
      [CHR 0xC2, CHR 0x85], [CHR 0xC2, CHR 0xA0], [CHR 0xE1, CHR 0x9A, CHR 0x80],
      [CHR 0xE2, CHR 0x80, CHR 0x80], [CHR 0xE2, CHR 0x80, CHR 0x81],
      [CHR 0xE2, CHR 0x80, CHR 0x82], [CHR 0xE2, CHR 0x80, CHR 0x83],
      [CHR 0xE2, CHR 0x80, CHR 0x84], [CHR 0xE2, CHR 0x80, CHR 0x85],
      [CHR 0xE2, CHR 0x80, CHR 0x86], [CHR 0xE2, CHR 0x80, CHR 0x87],
      [CHR 0xE2, CHR 0x80, CHR 0x88], [CHR 0xE2, CHR 0x80, CHR 0x89],
      [CHR 0xE2, CHR 0x80, CHR 0x8A], [CHR 0xE2, CHR 0x80, CHR 0xA8],
      [CHR 0xE2, CHR 0x80, CHR 0xA9], [CHR 0xE2, CHR 0x80, CHR 0xAF],
      [CHR 0xE2, CHR 0x81, CHR 0x9F], [CHR 0xE3, CHR 0x80, CHR 0x80]]"

function trim_prefixes :: "string list \<Rightarrow> string \<Rightarrow> string" where
  "trim_prefixes ps s =
     (case find (\<lambda>p. p \<noteq> [] \<and> HasPrefix s p) ps of
        Some p \<Rightarrow> trim_prefixes ps (drop (length p) s)
      | None \<Rightarrow> s)"
  by pat_completeness auto
termination
proof (relation "measure (\<lambda>(ps, s). length s)")
  show "wf (measure (\<lambda>(ps :: string list, s :: string). length s))" by simp
next
  fix ps :: "string list" and s p :: string
  assume "find (\<lambda>p. p \<noteq> [] \<and> HasPrefix s p) ps = Some p"
  then have "p \<noteq> []" and "take (length p) s = p"
    by (auto simp: find_Some_iff HasPrefix_def)
  then have "s \<noteq> []" and "0 < length p" by auto
  then show "((ps, drop (length p) s), (ps, s)) \<in> measure (\<lambda>(ps, s). length s)" by simp
qed

declare trim_prefixes.simps [simp del]

definition TrimSpace :: "string \<Rightarrow> string" where
  "TrimSpace s =
     rev (trim_prefixes (map rev space_runes) (rev (trim_prefixes space_runes s)))"

text \<open>Cut, Split and Join at a separator of one byte, the only ones the program uses.\<close>

definition Cut :: "string \<Rightarrow> char \<Rightarrow> string \<times> string \<times> bool" where
  "Cut s c = (if c \<in> set s
     then (takeWhile (\<lambda>x. x \<noteq> c) s, tl (dropWhile (\<lambda>x. x \<noteq> c) s), True)
     else (s, [], False))"

fun Split :: "string \<Rightarrow> char \<Rightarrow> string list" where
  "Split [] c = [[]]"
| "Split (x # xs) c =
     (if x = c then [] # Split xs c
      else case Split xs c of p # ps \<Rightarrow> (x # p) # ps | [] \<Rightarrow> [[x]])"

fun Join :: "string list \<Rightarrow> char \<Rightarrow> string" where
  "Join [] c = []"
| "Join [p] c = p"
| "Join (p # ps) c = p @ c # Join ps c"

definition ascii_lower :: "char \<Rightarrow> char" where
  "ascii_lower c =
     (if 65 \<le> (of_char c :: nat) \<and> (of_char c :: nat) \<le> 90
      then char_of (of_char c + (32::nat)) else c)"

definition is_ascii :: "string \<Rightarrow> bool" where
  "is_ascii s = list_all (\<lambda>c. (of_char c :: nat) < 128) s"

text \<open>
  \<open>strings.ToLower\<close>: on ASCII text the byte-wise mapping; other text goes through the
  Unicode tables of the runtime, the parameter \<open>ulower\<close>.
\<close>

definition ToLower :: "(string \<Rightarrow> string) \<Rightarrow> string \<Rightarrow> string" where
  "ToLower ulower s = (if is_ascii s then map ascii_lower s else ulower s)"


lemma trim_prefixes_stop:
  "find (\<lambda>p. p \<noteq> [] \<and> HasPrefix s p) ps = None \<Longrightarrow> trim_prefixes ps s = s"
  by (subst trim_prefixes.simps) simp

lemma trim_prefixes_result:
  "find (\<lambda>p. p \<noteq> [] \<and> HasPrefix (trim_prefixes ps s) p) ps = None"
proof (induction ps s rule: trim_prefixes.induct)
  case (1 ps s)
  show ?case
  proof (cases "find (\<lambda>p. p \<noteq> [] \<and> HasPrefix s p) ps")
    case None
    then show ?thesis by (simp add: trim_prefixes_stop)
  next
    case (Some p)
    then show ?thesis using "1" [OF Some] by (simp add: trim_prefixes.simps [of ps s])
  qed
qed

lemma trim_prefixes_suffix: "\<exists>d. s = d @ trim_prefixes ps s"
proof (induction ps s rule: trim_prefixes.induct)
  case (1 ps s)
  show ?case
  proof (cases "find (\<lambda>p. p \<noteq> [] \<and> HasPrefix s p) ps")
    case None
    then show ?thesis by (simp add: trim_prefixes_stop)
  next
    case (Some p)
    then obtain d where d: "drop (length p) s = d @ trim_prefixes ps (drop (length p) s)"
      using "1" by blast
    have "s = (take (length p) s @ d) @ trim_prefixes ps (drop (length p) s)"
      using d by (metis append_assoc append_take_drop_id)
    moreover have "trim_prefixes ps s = trim_prefixes ps (drop (length p) s)"
      using Some by (simp add: trim_prefixes.simps [of ps s])
    ultimately show ?thesis by metis
  qed
qed

lemma HasPrefix_append: "HasPrefix s p \<Longrightarrow> HasPrefix (s @ t) p"
  by (auto simp: HasPrefix_def) (metis length_take min_def nat_le_linear take_all_iff take_append
      append.right_neutral diff_is_0_eq take0 take_eq_Nil)

lemma find_HasPrefix_append:
  "find (\<lambda>p. p \<noteq> [] \<and> HasPrefix (s @ t) p) ps = None \<Longrightarrow>
   find (\<lambda>p. p \<noteq> [] \<and> HasPrefix s p) ps = None"
  by (auto simp: find_None_iff dest: HasPrefix_append)

text \<open>Trimming is idempotent, so a value stored trimmed compares equal to itself trimmed again.\<close>

lemma TrimSpace_idem [simp]: "TrimSpace (TrimSpace s) = TrimSpace s"
proof -
  let ?l = "trim_prefixes space_runes s"
  let ?r = "trim_prefixes (map rev space_runes) (rev ?l)"
  obtain d where "rev ?l = d @ ?r" using trim_prefixes_suffix by blast
  then have l: "?l = rev ?r @ rev d" by (metis rev_append rev_rev_ident)
  have "find (\<lambda>p. p \<noteq> [] \<and> HasPrefix (rev ?r @ rev d) p) space_runes = None"
    using trim_prefixes_result [of space_runes s] by (simp only: l [symmetric])
  then have "find (\<lambda>p. p \<noteq> [] \<and> HasPrefix (rev ?r) p) space_runes = None"
    by (rule find_HasPrefix_append)
  then have "trim_prefixes space_runes (rev ?r) = rev ?r"
    by (rule trim_prefixes_stop)
  moreover have "trim_prefixes (map rev space_runes) ?r = ?r"
    by (rule trim_prefixes_stop, rule trim_prefixes_result)
  ultimately show ?thesis by (simp add: TrimSpace_def)
qed

lemma TrimSpace_Nil [simp]: "TrimSpace [] = []"
  by (simp add: TrimSpace_def trim_prefixes.simps HasPrefix_def space_runes_def)

lemma Split_nonempty [simp]: "Split s c \<noteq> []"
  by (induction s) (auto split: list.splits)

lemma Join_Cons: "ps \<noteq> [] \<Longrightarrow> Join (p # ps) c = p @ c # Join ps c"
  by (cases ps) auto

lemma Join_cons_char: "ps \<noteq> [] \<Longrightarrow> Join ((x # hd ps) # tl ps) c = x # Join ps c"
  by (cases ps; cases "tl ps") auto

lemma Join_Split [simp]: "Join (Split s c) c = s"
proof (induction s)
  case (Cons x xs)
  then show ?case
    using Join_cons_char [of "Split xs c" x c]
    by (auto simp: Join_Cons split: list.splits)
qed simp

lemma Split_append: "c \<notin> set p \<Longrightarrow> Split (p @ c # s) c = p # Split s c"
  by (induction p) auto

lemma Split_single: "c \<notin> set p \<Longrightarrow> Split p c = [p]"
  by (induction p) auto

lemma Split_Join:
  "ps \<noteq> [] \<Longrightarrow> \<forall>p\<in>set ps. c \<notin> set p \<Longrightarrow> Split (Join ps c) c = ps"
proof (induction ps rule: induct_list012)
  case (3 p q ps)
  then show ?case by (simp add: Split_append)
qed (simp_all add: Split_single)

lemma Cut_append: "c \<notin> set k \<Longrightarrow> Cut (k @ c # v) c = (k, v, True)"
  by (induction k) (auto simp: Cut_def)

subsection \<open>strconv\<close>

definition digit_char :: "nat \<Rightarrow> char" where
  "digit_char n = char_of (48 + n)"

fun nat_str :: "nat \<Rightarrow> string" where
  "nat_str n = (if n < 10 then [digit_char n] else nat_str (n div 10) @ [digit_char (n mod 10)])"

declare nat_str.simps [simp del]

definition FormatInt :: "int \<Rightarrow> string" where
  "FormatInt i = (if i < 0 then CHR ''-'' # nat_str (nat (- i)) else nat_str (nat i))"

abbreviation Itoa :: "int \<Rightarrow> string" where "Itoa \<equiv> FormatInt"

text \<open>The verb \<open>%0wd\<close> on a number that is not negative.\<close>

definition pad_int :: "nat \<Rightarrow> nat \<Rightarrow> string" where
  "pad_int w n = (let s = nat_str n in replicate (w - length s) (CHR ''0'') @ s)"

fun digits_val :: "nat \<Rightarrow> string \<Rightarrow> nat option" where
  "digits_val acc [] = Some acc"
| "digits_val acc (c # cs) =
     (if 48 \<le> (of_char c :: nat) \<and> (of_char c :: nat) \<le> 57
      then digits_val (acc * 10 + (of_char c - 48)) cs else None)"

definition parse_digits :: "string \<Rightarrow> nat option" where
  "parse_digits s = (if s = [] then None else digits_val 0 s)"

text \<open>\<open>strconv.ParseInt(s, 10, 64)\<close>; \<open>None\<close> is a syntax or range error.\<close>

definition ParseInt :: "string \<Rightarrow> int option" where
  "ParseInt s =
     (case s of
        [] \<Rightarrow> None
      | c # cs \<Rightarrow>
          if c = CHR ''-'' then
            (case parse_digits cs of
               Some n \<Rightarrow> if n \<le> 2 ^ 63 then Some (- int n) else None
             | None \<Rightarrow> None)
          else
            (case parse_digits (if c = CHR ''+'' then cs else s) of
               Some n \<Rightarrow> if n < 2 ^ 63 then Some (int n) else None
             | None \<Rightarrow> None))"

abbreviation Atoi :: "string \<Rightarrow> int option" where "Atoi \<equiv> ParseInt"

lemma nat_str_induct [case_names small step]:
  assumes "\<And>n :: nat. n < 10 \<Longrightarrow> P n" and "\<And>n. 10 \<le> n \<Longrightarrow> P (n div 10) \<Longrightarrow> P n"
  shows "P n"
proof (induction n rule: nat_str.induct)
  case (1 n)
  then show ?case using assms by (cases "n < 10") auto
qed

lemma nat_str_small: "n < 10 \<Longrightarrow> nat_str n = [digit_char n]"
  by (simp add: nat_str.simps)

lemma nat_str_step: "10 \<le> n \<Longrightarrow> nat_str n = nat_str (n div 10) @ [digit_char (n mod 10)]"
  by (simp add: nat_str.simps [of n])

lemma nat_str_nonempty [simp]: "nat_str n \<noteq> []"
  by (simp add: nat_str.simps [of n])

lemma of_char_digit: "n < 10 \<Longrightarrow> (of_char (digit_char n) :: nat) = 48 + n"
  by (simp add: digit_char_def)

lemma digits_val_append:
  "digits_val acc (xs @ ys) =
     (case digits_val acc xs of None \<Rightarrow> None | Some a \<Rightarrow> digits_val a ys)"
  by (induction xs arbitrary: acc) auto

lemma digits_val_nat_str: "digits_val 0 (nat_str n) = Some n"
proof (induction n rule: nat_str_induct)
  case (small n)
  then show ?case by (simp add: nat_str_small of_char_digit)
next
  case (step n)
  then show ?case by (simp add: nat_str_step digits_val_append of_char_digit)
qed

lemma nat_str_digits: "\<forall>c\<in>set (nat_str n). 48 \<le> (of_char c :: nat) \<and> (of_char c :: nat) \<le> 57"
proof (induction n rule: nat_str_induct)
  case (small n)
  then show ?case by (simp add: nat_str_small of_char_digit)
next
  case (step n)
  then show ?case by (auto simp: nat_str_step of_char_digit)
qed

lemma nat_str_not_in: "(of_char c :: nat) < 48 \<Longrightarrow> c \<notin> set (nat_str n)"
  using nat_str_digits [of n] by force

lemma parse_digits_nat_str [simp]: "parse_digits (nat_str n) = Some n"
  by (simp add: parse_digits_def digits_val_nat_str)

text \<open>Parsing inverts formatting on the range of \<open>int64\<close>.\<close>

lemma ParseInt_FormatInt:
  assumes "- (2 ^ 63) \<le> i" "i < 2 ^ 63"
  shows "ParseInt (FormatInt i) = Some i"
proof (cases "i < 0")
  case True
  then show ?thesis using assms by (simp add: ParseInt_def FormatInt_def nat_le_iff)
next
  case False
  obtain c cs where s: "nat_str (nat i) = c # cs"
    using nat_str_nonempty by (metis neq_Nil_conv)
  then have "c \<noteq> CHR ''-''" "c \<noteq> CHR ''+''"
    using nat_str_not_in [of "CHR ''-''" "nat i"] nat_str_not_in [of "CHR ''+''" "nat i"] by auto
  moreover have "parse_digits (c # cs) = Some (nat i)" by (metis s parse_digits_nat_str)
  ultimately show ?thesis using False assms s by (simp add: ParseInt_def FormatInt_def nat_less_iff)
qed

text \<open>
  The verb \<open>%q\<close>: a double-quoted string with Go's escapes. Bytes above 0x7F are kept,
  as the verb keeps printable non-ASCII text.
\<close>

definition quote_char :: "char \<Rightarrow> string" where
  "quote_char c =
     (let n = of_char c :: nat in
      if n = 34 then [CHR 0x5C, CHR 0x22]
      else if n = 92 then [CHR 0x5C, CHR 0x5C]
      else if n = 7 then [CHR 0x5C, CHR ''a''] else if n = 8 then [CHR 0x5C, CHR ''b'']
      else if n = 12 then [CHR 0x5C, CHR ''f''] else if n = 10 then [CHR 0x5C, CHR ''n'']
      else if n = 13 then [CHR 0x5C, CHR ''r''] else if n = 9 then [CHR 0x5C, CHR ''t'']
      else if n = 11 then [CHR 0x5C, CHR ''v'']
      else if n < 32 \<or> n = 127 then
        [CHR 0x5C, CHR ''x'', (if n div 16 < 10 then digit_char (n div 16) else char_of (87 + n div 16)),
         (if n mod 16 < 10 then digit_char (n mod 16) else char_of (87 + n mod 16))]
      else [c])"

definition Quote :: "string \<Rightarrow> string" where
  "Quote s = CHR 0x22 # concat (map quote_char s) @ [CHR 0x22]"

subsection \<open>encoding/hex\<close>

definition hex_char :: "nat \<Rightarrow> char" where
  "hex_char n = (if n < 10 then char_of (48 + n) else char_of (87 + n))"

definition hex_val :: "char \<Rightarrow> nat option" where
  "hex_val c =
     (let n = of_char c :: nat in
      if 48 \<le> n \<and> n \<le> 57 then Some (n - 48)
      else if 97 \<le> n \<and> n \<le> 102 then Some (n - 87)
      else if 65 \<le> n \<and> n \<le> 70 then Some (n - 55)
      else None)"

fun hex_EncodeToString :: "string \<Rightarrow> string" where
  "hex_EncodeToString [] = []"
| "hex_EncodeToString (b # bs) =
     hex_char (of_char b div 16) # hex_char (of_char b mod 16) # hex_EncodeToString bs"

fun hex_DecodeString :: "string \<Rightarrow> string option" where
  "hex_DecodeString [] = Some []"
| "hex_DecodeString [x] = None"
| "hex_DecodeString (x # y # r) =
     (case (hex_val x, hex_val y, hex_DecodeString r) of
        (Some a, Some b, Some bs) \<Rightarrow> Some (char_of (16 * a + b) # bs)
      | _ \<Rightarrow> None)"

lemma hex_val_char: "n < 16 \<Longrightarrow> hex_val (hex_char n) = Some n"
  by (auto simp: hex_val_def hex_char_def Let_def)

lemma of_char_div_16: "(of_char b :: nat) div 16 < 16"
proof (rule less_mult_imp_div_less)
  show "(of_char b :: nat) < 16 * 16" using nat_of_char_less_256 [of b] by linarith
qed

lemma hex_DecodeString_Encode [simp]: "hex_DecodeString (hex_EncodeToString bs) = Some bs"
proof (induction bs)
  case (Cons b bs)
  have "hex_val (hex_char (of_char b div 16)) = Some (of_char b div 16)"
    by (intro hex_val_char of_char_div_16)
  with Cons show ?case by (simp add: hex_val_char)
qed simp

lemma length_hex_Encode [simp]: "length (hex_EncodeToString bs) = 2 * length bs"
  by (induction bs) auto

lemma hex_DecodeString_length:
  "hex_DecodeString s = Some bs \<Longrightarrow> length s = 2 * length bs"
  by (induction s arbitrary: bs rule: hex_DecodeString.induct) (auto split: option.splits)

definition lower_hex :: "char \<Rightarrow> bool" where
  "lower_hex c \<longleftrightarrow> c \<in> set ''0123456789abcdef''"

lemma hex_char_lower_hex: "n < 16 \<Longrightarrow> lower_hex (hex_char n)"
proof -
  have "\<forall>n < 16. lower_hex (hex_char n)" by code_simp
  then show "n < 16 \<Longrightarrow> lower_hex (hex_char n)" by blast
qed

lemma hex_Encode_chars: "list_all lower_hex (hex_EncodeToString bs)"
  by (induction bs) (simp_all add: hex_char_lower_hex of_char_div_16)

text \<open>Text of printable ASCII bytes has nothing to trim.\<close>

definition visible :: "char \<Rightarrow> bool" where
  "visible c \<longleftrightarrow> 33 \<le> (of_char c :: nat) \<and> (of_char c :: nat) < 128"

lemma trim_visible:
  assumes "s \<noteq> [] \<Longrightarrow> visible (hd s)" "\<forall>p\<in>set ps. p \<noteq> [] \<longrightarrow> \<not> visible (hd p)"
  shows "trim_prefixes ps s = s"
proof (rule trim_prefixes_stop)
  have "\<not> HasPrefix s p" if "p \<in> set ps" "p \<noteq> []" for p
    using assms that by (cases p; cases s) (auto simp: HasPrefix_def)
  then show "find (\<lambda>p. p \<noteq> [] \<and> HasPrefix s p) ps = None" by (auto simp: find_None_iff)
qed

lemma TrimSpace_ends:
  assumes "s \<noteq> [] \<Longrightarrow> visible (hd s) \<and> visible (last s)"
  shows "TrimSpace s = s"
proof -
  have "\<forall>p\<in>set space_runes. p \<noteq> [] \<longrightarrow> \<not> visible (hd p)" by code_simp
  with assms have l: "trim_prefixes space_runes s = s" by (intro trim_visible) auto
  have "\<forall>p\<in>set (map rev space_runes). p \<noteq> [] \<longrightarrow> \<not> visible (hd p)" by code_simp
  with assms have "trim_prefixes (map rev space_runes) (rev s) = rev s"
    by (intro trim_visible) (auto simp: hd_rev)
  with l show ?thesis by (simp add: TrimSpace_def)
qed

lemma TrimSpace_visible:
  assumes "list_all visible s"
  shows "TrimSpace s = s"
  using assms by (intro TrimSpace_ends) (auto simp: list_all_iff)

lemma FormatInt_visible: "list_all visible (FormatInt i)"
  using nat_str_digits [of "nat i"] nat_str_digits [of "nat (- i)"]
  by (auto simp: FormatInt_def visible_def list_all_iff)

lemma hex_Encode_visible: "list_all visible (hex_EncodeToString bs)"
proof -
  have "\<forall>c. lower_hex c \<longrightarrow> visible c" by (auto simp: lower_hex_def visible_def)
  then show ?thesis using hex_Encode_chars [of bs] by (auto simp: list_all_iff)
qed

subsection \<open>time\<close>

text \<open>
  Seconds of the Unix epoch, and the \<open>time.RFC3339Nano\<close> layout of a time in UTC: the
  proleptic Gregorian date, the time of day and the fraction without trailing zeros.
\<close>

definition unix_epoch_seconds :: int where
  "unix_epoch_seconds = 62135596800"

definition time_Unix :: "int \<Rightarrow> time" where
  "time_Unix sec = (sec + unix_epoch_seconds) * Second"

definition Unix_seconds :: "time \<Rightarrow> int" where
  "Unix_seconds t = t div Second - unix_epoch_seconds"

definition UnixNano :: "time \<Rightarrow> int" where
  "UnixNano t = t - unix_epoch_seconds * Second"

lemma Unix_seconds_time_Unix [simp]: "Unix_seconds (time_Unix sec) = sec"
  by (simp add: Unix_seconds_def time_Unix_def)

definition year_and_day :: "int \<Rightarrow> int \<times> int" where
  "year_and_day d =
     (let n400 = d div 146097; d = d mod 146097;
          n100 = min 3 (d div 36524); d = d - 36524 * n100;
          n4 = d div 1461; d = d mod 1461;
          n1 = min 3 (d div 365)
      in (400 * n400 + 100 * n100 + 4 * n4 + n1 + 1, d - 365 * n1))"

definition is_leap :: "int \<Rightarrow> bool" where
  "is_leap y \<longleftrightarrow> y mod 4 = 0 \<and> (y mod 100 \<noteq> 0 \<or> y mod 400 = 0)"

fun month_and_day :: "int list \<Rightarrow> int \<Rightarrow> int \<Rightarrow> int \<times> int" where
  "month_and_day [] m d = (m, d + 1)"
| "month_and_day (l # ls) m d = (if d < l then (m, d + 1) else month_and_day ls (m + 1) (d - l))"

definition month_lengths :: "int \<Rightarrow> int list" where
  "month_lengths y =
     [31, if is_leap y then 29 else 28, 31, 30, 31, 30, 31, 31, 30, 31, 30, 31]"

definition frac_str :: "nat \<Rightarrow> string" where
  "frac_str ns =
     (if ns = 0 then []
      else CHR ''.'' # rev (dropWhile (\<lambda>c. c = CHR ''0'') (rev (pad_int 9 ns))))"

definition RFC3339Nano :: "time \<Rightarrow> string" where
  "RFC3339Nano t =
     (let secs = t div Second; (y, yd) = year_and_day (secs div 86400);
          (m, d) = month_and_day (month_lengths y) 1 yd; s = secs mod 86400
      in pad_int 4 (nat y) @ ''-'' @ pad_int 2 (nat m) @ ''-'' @ pad_int 2 (nat d) @ ''T'' @
         pad_int 2 (nat (s div 3600)) @ '':'' @ pad_int 2 (nat (s div 60 mod 60)) @ '':'' @
         pad_int 2 (nat (s mod 60)) @ frac_str (nat (t mod Second)) @ ''Z'')"

end
