(* ===== verification/Order_Model.thy ===== *)
theory Order_Model
  imports Go_Lib
begin

text \<open>
  The data model of \<open>internal/commerce/model.go\<close>: money, orders, payments, shipments,
  outbox events and audit logs as records, the order statuses, the errors of the package,
  and the functions that complete an event envelope and build status payloads.

  Field names carry a prefix per struct (\<open>o_\<close> for Order, \<open>e_\<close> for OutboxEvent, and so
  on), since Isabelle's record fields share one name space.
\<close>

subsection \<open>Structs\<close>

record Money =
  m_Amount :: int64
  m_Currency :: string

record Customer =
  c_ID :: string
  c_Email :: string
  c_FullName :: string

record Address =
  ad_Line1 :: string
  ad_Line2 :: string
  ad_City :: string
  ad_State :: string
  ad_PostalCode :: string
  ad_Country :: string

type_synonym CustomerInput = Customer
type_synonym AddressInput = Address

record OrderItemInput =
  ii_SKU :: string
  ii_Quantity :: int64
  ii_UnitPrice :: Money

record PaymentMethodInput =
  pm_Provider :: string
  pm_PaymentToken :: string

record CreateOrderCommand =
  co_ExternalOrderID :: string
  co_Currency :: string
  co_Customer :: CustomerInput
  co_ShippingAddress :: AddressInput
  co_Items :: "OrderItemInput list"
  co_PaymentMethod :: PaymentMethodInput

text \<open>\<open>OrderStatus\<close> is a string type in the source: any string is a value of it.\<close>

type_synonym OrderStatus = string

definition StatusPendingFulfillment :: OrderStatus where
  "StatusPendingFulfillment = ''pending_fulfillment''"
definition StatusInventoryReserved :: OrderStatus where
  "StatusInventoryReserved = ''inventory_reserved''"
definition StatusPaymentAuthorized :: OrderStatus where
  "StatusPaymentAuthorized = ''payment_authorized''"
definition StatusShipmentCreated :: OrderStatus where
  "StatusShipmentCreated = ''shipment_created''"
definition StatusCancellationPending :: OrderStatus where
  "StatusCancellationPending = ''cancellation_pending''"
definition StatusManualReview :: OrderStatus where
  "StatusManualReview = ''manual_review''"
definition StatusCancelled :: OrderStatus where
  "StatusCancelled = ''cancelled''"
definition StatusCompleted :: OrderStatus where
  "StatusCompleted = ''completed''"
definition StatusFailed :: OrderStatus where
  "StatusFailed = ''failed''"

lemmas status_defs =
  StatusPendingFulfillment_def StatusInventoryReserved_def StatusPaymentAuthorized_def
  StatusShipmentCreated_def StatusCancellationPending_def StatusManualReview_def
  StatusCancelled_def StatusCompleted_def StatusFailed_def

record OrderItem =
  i_SKU :: string
  i_Quantity :: int64
  i_UnitPrice :: Money
  i_ReservationStatus :: string

record OrderTotals =
  t_Subtotal :: Money
  t_Shipping :: Money
  t_Total :: Money

record Payment =
  p_Provider :: string
  p_Status :: string
  p_AuthorizationID :: string
  p_CredentialRef :: string

record ShipmentEvent =
  se_OccurredAt :: time
  se_Status :: string
  se_Description :: string

record Shipment =
  s_ShipmentID :: string
  s_Status :: string
  s_Carrier :: string
  s_TrackingNumber :: string
  s_Events :: "ShipmentEvent list"

record ShipmentRecord =
  sr_ShipmentID :: string
  sr_OrderID :: string
  sr_MerchantID :: string
  sr_Carrier :: string
  sr_TrackingNumber :: string
  sr_Status :: string
  sr_Events :: "ShipmentEvent list"

definition EventSchemaVersion :: int where
  "EventSchemaVersion = 1"

record Order =
  o_OrderID :: string
  o_MerchantID :: string
  o_ExternalOrderID :: string
  o_Status :: OrderStatus
  o_Currency :: string
  o_Totals :: OrderTotals
  o_Items :: "OrderItem list"
  o_Payment :: "Payment option"
  o_Shipment :: "Shipment option"
  o_ShippingAddressRef :: string
  o_CreatedAt :: time
  o_UpdatedAt :: time

text \<open>The dynamic values of a payload (\<open>map[string]any\<close>) that the program builds.\<close>

datatype any =
    AStr string
  | AInt int
  | AMap "(string \<times> any) list"
  | AList "any list"

record OutboxEvent =
  e_MessageID :: string
  e_EventType :: string
  e_SchemaVersion :: int
  e_OccurredAt :: time
  e_Producer :: string
  e_MerchantID :: string
  e_OrderID :: string
  e_CorrelationID :: string
  e_CausationID :: string
  e_Payload :: "any gomap"

record AuditActor =
  aa_Type :: string
  aa_ID :: string
  aa_Reason :: string

record AuditLog =
  a_MerchantID :: string
  a_OrderID :: string
  a_ActorType :: string
  a_ActorID :: string
  a_Action :: string
  a_CorrelationID :: string
  a_CreatedAt :: time
  a_Details :: "string gomap"

subsection \<open>Errors of the package\<close>

record FieldError =
  fe_Field :: string
  fe_Issue :: string

text \<open>
  The sentinel errors of \<open>service.go\<close> keep the text they are wrapped with, so that
  \<open>errors.Is\<close> is a match on the constructor and \<open>err.Error()\<close> is \<open>Error\<close>.
  \<open>ErrorString\<close> is any other error, known by its message.
\<close>

datatype error =
    ErrDuplicateOrder
  | ErrInvalidStateTransition string
  | ErrNotFound
  | ErrInsufficientStock string
  | ValidationError "FieldError list"
  | ErrorString string

fun Error :: "error \<Rightarrow> string" where
  "Error ErrDuplicateOrder = ''duplicate order''"
| "Error (ErrInvalidStateTransition w) = ''invalid state transition'' @ w"
| "Error ErrNotFound = ''not found''"
| "Error (ErrInsufficientStock w) = ''insufficient stock'' @ w"
| "Error (ValidationError fs) = ''validation failed''"
| "Error (ErrorString s) = s"

text \<open>\<open>fmt.Errorf\<close> with a prefix and a wrapped error, by its message.\<close>

definition wrap_error :: "string \<Rightarrow> error \<Rightarrow> error" where
  "wrap_error prefix err = ErrorString (prefix @ '': '' @ Error err)"

subsection \<open>Event envelopes\<close>

definition WithDefaultCausation :: "OutboxEvent \<Rightarrow> OutboxEvent" where
  "WithDefaultCausation e =
     (if e_CausationID e = [] then e\<lparr>e_CausationID := e_MessageID e\<rparr> else e)"

definition ProducerForEventType :: "string \<Rightarrow> string" where
  "ProducerForEventType eventType =
     (if eventType \<in> set [''order.created'', ''order.cancel_requested''] then ''orders-api''
      else if eventType \<in> set [''inventory.reserved'', ''inventory.rejected''] then ''inventory-worker''
      else if eventType \<in> set [''payment.authorized'', ''payment.failed''] then ''payment-worker''
      else if eventType \<in> set [''shipment.created'', ''shipment.failed''] then ''shipment-worker''
      else if eventType \<in> set [''order.completed'', ''order.cancelled'', ''order.manual_review_required'']
        then ''orders-worker''
      else ''fulfillhub'')"

definition DefaultEventPayload :: "OutboxEvent \<Rightarrow> any gomap" where
  "DefaultEventPayload event =
     (let t = e_EventType event in
      if t = ''order.created'' then [(''order_status'', AStr StatusPendingFulfillment)]
      else if t = ''inventory.reserved'' then [(''order_status'', AStr StatusInventoryReserved)]
      else if t = ''payment.authorized'' then [(''order_status'', AStr StatusPaymentAuthorized)]
      else if t = ''shipment.created'' then [(''order_status'', AStr StatusShipmentCreated)]
      else if t = ''order.cancel_requested'' then [(''order_status'', AStr StatusCancellationPending)]
      else if t = ''order.completed'' then
        (''order_status'', AStr StatusCompleted) #
        (if IsZero (e_OccurredAt event) then []
         else [(''completed_at'', AStr (RFC3339Nano (e_OccurredAt event)))])
      else if t = ''order.cancelled'' then
        (''order_status'', AStr StatusCancelled) #
        (if IsZero (e_OccurredAt event) then []
         else [(''cancelled_at'', AStr (RFC3339Nano (e_OccurredAt event)))])
      else if t = ''order.manual_review_required'' then [(''order_status'', AStr StatusManualReview)]
      else if t \<in> set [''inventory.rejected'', ''payment.failed'', ''shipment.failed''] then
        (let stage = (if t = ''inventory.rejected'' then ''inventory''
                      else if t = ''payment.failed'' then ''payment''
                      else if t = ''shipment.failed'' then ''shipment'' else ''unknown'')
         in [(''failure'', AMap [(''stage'', AStr stage), (''reason'', AStr ''unspecified'')])])
      else [])"

definition WithEnvelopeDefaults :: "OutboxEvent \<Rightarrow> OutboxEvent" where
  "WithEnvelopeDefaults e0 =
     (let e1 = WithDefaultCausation e0;
          e2 = (if e_SchemaVersion e1 = 0 then e1\<lparr>e_SchemaVersion := EventSchemaVersion\<rparr> else e1);
          e3 = (if e_Producer e2 = [] then e2\<lparr>e_Producer := ProducerForEventType (e_EventType e2)\<rparr> else e2)
      in if length (e_Payload e3) = 0 then e3\<lparr>e_Payload := DefaultEventPayload e3\<rparr> else e3)"

definition payload_default :: "string \<Rightarrow> any \<Rightarrow> any gomap \<Rightarrow> any gomap" where
  "payload_default k v payload = (if mapget payload k = None then mapset k v payload else payload)"

definition OrderStatusEventPayload ::
    "OrderStatus \<Rightarrow> time \<Rightarrow> AuditLog \<Rightarrow> any gomap \<Rightarrow> any gomap" where
  "OrderStatusEventPayload status at audit existing =
     (let payload = mapset ''order_status'' (AStr status) existing in
      if status = StatusCancellationPending then
        payload_default ''requested_by''
          (AMap [(''type'', AStr (TrimSpace (a_ActorType audit))),
                 (''id'', AStr (TrimSpace (a_ActorID audit)))])
          (payload_default ''reason'' (AStr (TrimSpace (mapstr (a_Details audit) ''reason''))) payload)
      else if status = StatusCompleted then
        payload_default ''completed_at'' (AStr (RFC3339Nano at)) payload
      else if status = StatusCancelled then
        payload_default ''cancelled_at'' (AStr (RFC3339Nano at)) payload
      else if status = StatusManualReview then
        (if mapget payload ''review_reason'' = None then
           (let reason = TrimSpace (mapstr (a_Details audit) ''review_reason'')
            in if reason \<noteq> [] then mapset ''review_reason'' (AStr reason) payload else payload)
         else payload)
      else payload)"

text \<open>An empty event value, for the zero values of the source.\<close>

definition zero_event :: OutboxEvent where
  "zero_event = \<lparr>e_MessageID = [], e_EventType = [], e_SchemaVersion = 0, e_OccurredAt = 0,
     e_Producer = [], e_MerchantID = [], e_OrderID = [], e_CorrelationID = [],
     e_CausationID = [], e_Payload = []\<rparr>"

subsection \<open>Facts on envelopes\<close>

lemma WithDefaultCausation_fields [simp]:
  "e_MessageID (WithDefaultCausation e) = e_MessageID e"
  "e_EventType (WithDefaultCausation e) = e_EventType e"
  "e_SchemaVersion (WithDefaultCausation e) = e_SchemaVersion e"
  "e_OccurredAt (WithDefaultCausation e) = e_OccurredAt e"
  "e_Producer (WithDefaultCausation e) = e_Producer e"
  "e_MerchantID (WithDefaultCausation e) = e_MerchantID e"
  "e_OrderID (WithDefaultCausation e) = e_OrderID e"
  "e_CorrelationID (WithDefaultCausation e) = e_CorrelationID e"
  "e_CausationID (WithDefaultCausation e) =
     (if e_CausationID e = [] then e_MessageID e else e_CausationID e)"
  "e_Payload (WithDefaultCausation e) = e_Payload e"
  by (simp_all add: WithDefaultCausation_def)

text \<open>Completion keeps the identity, routing and time of an event.\<close>

lemma WithEnvelopeDefaults_fields [simp]:
  "e_MessageID (WithEnvelopeDefaults e) = e_MessageID e"
  "e_EventType (WithEnvelopeDefaults e) = e_EventType e"
  "e_OccurredAt (WithEnvelopeDefaults e) = e_OccurredAt e"
  "e_MerchantID (WithEnvelopeDefaults e) = e_MerchantID e"
  "e_OrderID (WithEnvelopeDefaults e) = e_OrderID e"
  "e_CorrelationID (WithEnvelopeDefaults e) = e_CorrelationID e"
  "e_CausationID (WithEnvelopeDefaults e) =
     (if e_CausationID e = [] then e_MessageID e else e_CausationID e)"
  "e_SchemaVersion (WithEnvelopeDefaults e) =
     (if e_SchemaVersion e = 0 then EventSchemaVersion else e_SchemaVersion e)"
  "e_Producer (WithEnvelopeDefaults e) =
     (if e_Producer e = [] then ProducerForEventType (e_EventType e) else e_Producer e)"
  by (simp_all add: WithEnvelopeDefaults_def Let_def)

lemma WithEnvelopeDefaults_payload:
  "e_Payload e \<noteq> [] \<Longrightarrow> e_Payload (WithEnvelopeDefaults e) = e_Payload e"
  by (simp add: WithEnvelopeDefaults_def Let_def)

lemma DefaultEventPayload_cong:
  "e_EventType e = e_EventType e' \<Longrightarrow> e_OccurredAt e = e_OccurredAt e' \<Longrightarrow>
   DefaultEventPayload e = DefaultEventPayload e'"
  by (simp only: DefaultEventPayload_def)

lemma WithEnvelopeDefaults_payload_empty:
  "e_Payload e = [] \<Longrightarrow> e_Payload (WithEnvelopeDefaults e) = DefaultEventPayload e"
  by (simp add: WithEnvelopeDefaults_def Let_def) (auto intro!: DefaultEventPayload_cong)

lemma ProducerForEventType_nonempty [simp]: "ProducerForEventType t \<noteq> []"
  by (simp add: ProducerForEventType_def)

lemma OutboxEvent_eqI:
  fixes x y :: OutboxEvent
  assumes "e_MessageID x = e_MessageID y" "e_EventType x = e_EventType y"
    "e_SchemaVersion x = e_SchemaVersion y" "e_OccurredAt x = e_OccurredAt y"
    "e_Producer x = e_Producer y" "e_MerchantID x = e_MerchantID y" "e_OrderID x = e_OrderID y"
    "e_CorrelationID x = e_CorrelationID y" "e_CausationID x = e_CausationID y"
    "e_Payload x = e_Payload y"
  shows "x = y"
  using assms by (cases x; cases y) simp

text \<open>Completing a completed event changes nothing: readers and writers may both complete.\<close>

lemma WithEnvelopeDefaults_idem [simp]:
  "WithEnvelopeDefaults (WithEnvelopeDefaults e) = WithEnvelopeDefaults e"
proof (rule OutboxEvent_eqI)
  let ?d = "WithEnvelopeDefaults e"
  show "e_Payload (WithEnvelopeDefaults ?d) = e_Payload ?d"
  proof (cases "e_Payload ?d = []")
    case False
    then show ?thesis by (rule WithEnvelopeDefaults_payload)
  next
    case True
    then have "e_Payload e = []" using WithEnvelopeDefaults_payload by metis
    then have "e_Payload ?d = DefaultEventPayload e"
      by (rule WithEnvelopeDefaults_payload_empty)
    moreover have "DefaultEventPayload ?d = DefaultEventPayload e"
      by (rule DefaultEventPayload_cong) simp_all
    ultimately show ?thesis using True by (simp add: WithEnvelopeDefaults_payload_empty)
  qed
qed (simp_all add: EventSchemaVersion_def)

end
