(* ===== verification/State_Machine.thy ===== *)
theory State_Machine
  imports Order_Model
begin

text \<open>
  The order state machine of \<open>internal/commerce/state_machine.go\<close>: the valid statuses,
  the allowed transitions and their validation. Besides the functions it states the
  machine as a step relation on statuses and proves that it is acyclic but for
  self-transitions, that its terminal statuses are absorbing, and which histories it has.
\<close>

definition ValidOrderStatuses :: "OrderStatus list" where
  "ValidOrderStatuses =
     [StatusPendingFulfillment, StatusInventoryReserved, StatusPaymentAuthorized,
      StatusShipmentCreated, StatusCancellationPending, StatusManualReview,
      StatusCancelled, StatusCompleted, StatusFailed]"

definition IsValidOrderStatus :: "OrderStatus \<Rightarrow> bool" where
  "IsValidOrderStatus status = list_ex (\<lambda>valid. status = valid) ValidOrderStatuses"

definition CanTransitionOrderStatus :: "OrderStatus \<Rightarrow> OrderStatus \<Rightarrow> bool" where
  "CanTransitionOrderStatus from to =
     (if from = to then IsValidOrderStatus to
      else if from = StatusPendingFulfillment then
        to \<in> set [StatusInventoryReserved, StatusCancellationPending, StatusFailed]
      else if from = StatusInventoryReserved then
        to \<in> set [StatusPaymentAuthorized, StatusCancellationPending, StatusCancelled]
      else if from = StatusPaymentAuthorized then
        to \<in> set [StatusShipmentCreated, StatusCancellationPending]
      else if from = StatusShipmentCreated then
        to \<in> set [StatusCompleted, StatusCancellationPending]
      else if from = StatusCancellationPending then
        to \<in> set [StatusCancelled, StatusManualReview]
      else False)"

definition ValidateOrderTransition :: "OrderStatus \<Rightarrow> OrderStatus \<Rightarrow> error option" where
  "ValidateOrderTransition from to =
     (if \<not> IsValidOrderStatus from then
        Some (ErrInvalidStateTransition ('': unknown source order status '' @ Quote from))
      else if \<not> IsValidOrderStatus to then
        Some (ErrInvalidStateTransition ('': unknown target order status '' @ Quote to))
      else if \<not> CanTransitionOrderStatus from to then
        Some (ErrInvalidStateTransition
          ('': cannot move order from '' @ Quote from @ '' to '' @ Quote to))
      else None)"

subsection \<open>Facts on statuses\<close>

lemma distinct_statuses: "distinct ValidOrderStatuses"
  by (simp add: ValidOrderStatuses_def status_defs)

lemma distinct_statuses_rev: "distinct (rev ValidOrderStatuses)"
  by (simp add: distinct_statuses)

lemmas status_neq = distinct_statuses [unfolded ValidOrderStatuses_def, simplified]
lemmas status_neq_sym = distinct_statuses_rev [unfolded ValidOrderStatuses_def, simplified]

declare status_neq [simp] status_neq_sym [simp]

lemma IsValid_iff: "IsValidOrderStatus s \<longleftrightarrow> s \<in> set ValidOrderStatuses"
  by (auto simp: IsValidOrderStatus_def list_ex_iff)

lemma IsValid_statuses [simp]:
  "IsValidOrderStatus StatusPendingFulfillment" "IsValidOrderStatus StatusInventoryReserved"
  "IsValidOrderStatus StatusPaymentAuthorized" "IsValidOrderStatus StatusShipmentCreated"
  "IsValidOrderStatus StatusCancellationPending" "IsValidOrderStatus StatusManualReview"
  "IsValidOrderStatus StatusCancelled" "IsValidOrderStatus StatusCompleted"
  "IsValidOrderStatus StatusFailed"
  by (simp_all add: IsValid_iff ValidOrderStatuses_def)

lemma Validate_None_iff:
  "ValidateOrderTransition from to = None \<longleftrightarrow>
   IsValidOrderStatus from \<and> IsValidOrderStatus to \<and> CanTransitionOrderStatus from to"
  by (simp add: ValidateOrderTransition_def)

lemma CanTransition_valid:
  "CanTransitionOrderStatus from to \<Longrightarrow> IsValidOrderStatus from \<and> IsValidOrderStatus to"
  by (auto simp: CanTransitionOrderStatus_def split: if_splits)

lemma Validate_None [simp]:
  "ValidateOrderTransition from to = None \<longleftrightarrow> CanTransitionOrderStatus from to"
  using CanTransition_valid Validate_None_iff by blast

lemma Validate_ok [simp]:
  "CanTransitionOrderStatus from to \<Longrightarrow> ValidateOrderTransition from to = None"
  by simp

lemma Validate_error:
  "ValidateOrderTransition from to = Some e \<Longrightarrow> \<exists>w. e = ErrInvalidStateTransition w"
  by (auto simp: ValidateOrderTransition_def split: if_splits)

text \<open>Proper transitions, those that change the status, and what they can lead to.\<close>

definition status_step :: "OrderStatus \<Rightarrow> OrderStatus \<Rightarrow> bool" where
  "status_step from to \<longleftrightarrow> from \<noteq> to \<and> CanTransitionOrderStatus from to"

fun status_history :: "OrderStatus list \<Rightarrow> bool" where
  "status_history [] = True"
| "status_history [s] = True"
| "status_history (s # t # ts) = (status_step s t \<and> status_history (t # ts))"

definition TerminalStatuses :: "OrderStatus list" where
  "TerminalStatuses = [StatusManualReview, StatusCancelled, StatusCompleted, StatusFailed]"

definition status_rank :: "OrderStatus \<Rightarrow> nat" where
  "status_rank s =
     (if s = StatusPendingFulfillment then 0 else if s = StatusInventoryReserved then 1
      else if s = StatusPaymentAuthorized then 2 else if s = StatusShipmentCreated then 3
      else if s = StatusCancellationPending then 4 else 5)"

lemma status_step_iff:
  "status_step s t \<longleftrightarrow>
     s = StatusPendingFulfillment \<and>
       t \<in> {StatusInventoryReserved, StatusCancellationPending, StatusFailed} \<or>
     s = StatusInventoryReserved \<and>
       t \<in> {StatusPaymentAuthorized, StatusCancellationPending, StatusCancelled} \<or>
     s = StatusPaymentAuthorized \<and> t \<in> {StatusShipmentCreated, StatusCancellationPending} \<or>
     s = StatusShipmentCreated \<and> t \<in> {StatusCompleted, StatusCancellationPending} \<or>
     s = StatusCancellationPending \<and> t \<in> {StatusCancelled, StatusManualReview}"
  by (auto simp: status_step_def CanTransitionOrderStatus_def split: if_splits)

lemma status_step_ex:
  "(\<exists>t. status_step s t) \<longleftrightarrow>
     s = StatusPendingFulfillment \<or> s = StatusInventoryReserved \<or> s = StatusPaymentAuthorized \<or>
     s = StatusShipmentCreated \<or> s = StatusCancellationPending"
proof -
  have "status_step StatusCancellationPending StatusCancelled"
    and "s = StatusPendingFulfillment \<or> s = StatusInventoryReserved \<or> s = StatusPaymentAuthorized \<or>
      s = StatusShipmentCreated \<Longrightarrow> status_step s StatusCancellationPending"
    by (auto simp: status_step_iff)
  then show ?thesis by (metis status_step_iff)
qed

lemma CanTransition_iff:
  "CanTransitionOrderStatus s t \<longleftrightarrow> s = t \<and> IsValidOrderStatus t \<or> status_step s t"
  by (auto simp: status_step_def CanTransitionOrderStatus_def)

lemma status_step_rank: "status_step s t \<Longrightarrow> status_rank s < status_rank t"
  by (auto simp: status_step_iff status_rank_def)

lemma status_rank_le: "status_rank s \<le> 5"
  by (simp add: status_rank_def)

lemma status_path_rank: "(status_step ^^ n) s t \<Longrightarrow> status_rank s + n \<le> status_rank t"
proof (induction n arbitrary: t)
  case (Suc n)
  then obtain u where "(status_step ^^ n) s u" "status_step u t" by auto
  with Suc.IH status_step_rank [of u t] show ?case by fastforce
qed simp

lemma history_snoc:
  "status_history (xs @ [y, z]) \<longleftrightarrow> status_history (xs @ [y]) \<and> status_step y z"
  by (induction xs rule: status_history.induct) auto

lemma history_last_step:
  assumes "status_history hs" "last hs = t" "hs \<noteq> []" "hd hs \<noteq> t"
  obtains ys y where "hs = ys @ [y, t]" "status_history (ys @ [y])" "status_step y t"
proof -
  obtain zs where zs: "hs = zs @ [t]" using assms(2,3) by (metis append_butlast_last_id)
  with assms(4) have "zs \<noteq> []" by auto
  then obtain ys y where "zs = ys @ [y]" by (metis append_butlast_last_id)
  with zs that assms(1) history_snoc [of ys y t] show ?thesis by auto
qed

lemma history_to_pending:
  assumes "status_history (ys @ [StatusPendingFulfillment])"
  shows "ys = []"
proof (cases ys rule: rev_cases)
  case (snoc zs z)
  with assms have "status_step z StatusPendingFulfillment"
    using history_snoc [of zs z StatusPendingFulfillment] by auto
  then show ?thesis by (auto simp: status_step_iff)
qed

subsection \<open>Properties of the machine\<close>

text \<open>
  C22. The state machine terminates: a history in which every entry is a proper transition
  of \<open>CanTransitionOrderStatus\<close> makes at most five transitions, so no order can cycle.
\<close>

theorem status_machine_bounded:
  assumes "(status_step ^^ n) s t"
  shows "n \<le> 5"
  using status_path_rank [OF assms] status_rank_le [of t] by linarith

theorem status_machine_bounded_witness:
  "(status_step ^^ 2) StatusPendingFulfillment StatusCancelled \<and> (2 :: nat) \<le> 5"
proof -
  have "status_step StatusPendingFulfillment StatusCancellationPending"
    and "status_step StatusCancellationPending StatusCancelled"
    by (simp_all add: status_step_iff)
  then have "(status_step ^^ 2) StatusPendingFulfillment StatusCancelled"
    by (auto simp: numeral_2_eq_2)
  then show ?thesis using status_machine_bounded by blast
qed

text \<open>
  Terminal statuses (manual review, cancelled, completed, failed) are exactly the valid
  statuses that can only transition to themselves, and every other valid status has a
  proper transition: no order is stuck in a status that is not terminal.
\<close>

theorem terminal_statuses_absorbing:
  assumes "IsValidOrderStatus s"
  shows "s \<in> set TerminalStatuses \<longleftrightarrow> (\<forall>t. CanTransitionOrderStatus s t \<longleftrightarrow> t = s)"
proof -
  have "s \<in> set TerminalStatuses \<longleftrightarrow> \<not> (\<exists>t. status_step s t)"
    using assms by (simp add: status_step_ex TerminalStatuses_def IsValid_iff ValidOrderStatuses_def)
      (elim disjE; simp)
  then show ?thesis using assms by (simp add: CanTransition_iff) (metis status_step_def)
qed

text \<open>
  An order history that starts pending and ends completed is the happy path and nothing
  else: inventory reserved, payment authorized, shipment created, completed, in this order.
\<close>

theorem completed_only_by_happy_path:
  assumes "status_history hs" "hs \<noteq> []" "hd hs = StatusPendingFulfillment"
    and "last hs = StatusCompleted"
  shows "hs = [StatusPendingFulfillment, StatusInventoryReserved, StatusPaymentAuthorized,
               StatusShipmentCreated, StatusCompleted]"
proof -
  have prev: "\<exists>zs. ys = zs @ [p] \<and> status_history (zs @ [p])"
    if h: "status_history (ys @ [t])" and hd: "hd (ys @ [t]) = StatusPendingFulfillment"
      and t: "t \<noteq> StatusPendingFulfillment" and p: "\<And>y. status_step y t \<Longrightarrow> y = p" for ys t p
  proof -
    have "ys \<noteq> []" using hd t by auto
    then obtain zs y where ys: "ys = zs @ [y]" by (metis append_butlast_last_id)
    with h have "status_step y t" "status_history (zs @ [y])"
      using history_snoc [of zs y t] by auto
    with p ys show ?thesis by auto
  qed
  obtain a where a: "hs = a @ [StatusCompleted]" using assms(2,4) by (metis append_butlast_last_id)
  obtain b where b: "a = b @ [StatusShipmentCreated]" "status_history a"
    using prev [of a StatusCompleted StatusShipmentCreated] assms a by (auto simp: status_step_iff)
  obtain c where c: "b = c @ [StatusPaymentAuthorized]" "status_history b"
    using prev [of b StatusShipmentCreated StatusPaymentAuthorized] assms a b
    by (auto simp: status_step_iff hd_append split: if_splits)
  obtain d where d: "c = d @ [StatusInventoryReserved]" "status_history c"
    using prev [of c StatusPaymentAuthorized StatusInventoryReserved] assms a b c
    by (auto simp: status_step_iff hd_append split: if_splits)
  obtain e where e: "d = e @ [StatusPendingFulfillment]" "status_history d"
    using prev [of d StatusInventoryReserved StatusPendingFulfillment] assms a b c d
    by (auto simp: status_step_iff hd_append split: if_splits)
  then have "e = []" using history_to_pending by blast
  with a b c d e show ?thesis by simp
qed

end
