(* ===== verification/Store_Interface.thy ===== *)
theory Store_Interface
  imports State_Machine
begin

text \<open>
  The interfaces between the order service, the fulfilment workers and the outbox relay on
  one side and a store on the other: \<open>Store\<close> of \<open>internal/commerce/store.go\<close>,
  \<open>Projector\<close> and \<open>OrderStatusUpdater\<close> of \<open>internal/fulfillment/handlers.go\<close> and
  \<open>OutboxSource\<close> of \<open>internal/messaging/relay.go\<close>. A Go interface value is a record of
  its methods over the state \<open>'s\<close> of the implementation.

  The contract a store promises is stated on a ledger, the observable content of a store:
  its orders, the events of its outbox and its audit trail. The locales hold the laws; an
  implementation interprets them, and the clients' lemmas are proved inside them.
\<close>

subsection \<open>Interfaces\<close>

record 's Store =
  st_InsertOrder :: "string \<Rightarrow> string \<Rightarrow> Order \<Rightarrow> OutboxEvent \<Rightarrow> AuditLog \<Rightarrow>
    ('s, error, Order option \<times> bool) op"
  st_GetOrder :: "string \<Rightarrow> 's \<Rightarrow> error + Order"
  st_GetShipment :: "string \<Rightarrow> 's \<Rightarrow> error + ShipmentRecord"
  st_UpdateOrderStatus :: "string \<Rightarrow> OrderStatus \<Rightarrow> time \<Rightarrow> OutboxEvent \<Rightarrow> AuditLog \<Rightarrow>
    ('s, error, Order) op"
  st_OutboxEvents :: "'s \<Rightarrow> OutboxEvent list"
  st_AuditLogs :: "'s \<Rightarrow> AuditLog list"

record 's OrderStatusUpdater =
  ou_GetOrder :: "string \<Rightarrow> 's \<Rightarrow> error + Order"
  ou_UpdateOrderStatus :: "string \<Rightarrow> OrderStatus \<Rightarrow> time \<Rightarrow> OutboxEvent \<Rightarrow> AuditLog \<Rightarrow>
    ('s, error, Order) op"

text \<open>A store is in particular an \<open>OrderStatusUpdater\<close>.\<close>

definition updater_of :: "'s Store \<Rightarrow> 's OrderStatusUpdater" where
  "updater_of S = \<lparr>ou_GetOrder = st_GetOrder S, ou_UpdateOrderStatus = st_UpdateOrderStatus S\<rparr>"

record 's Projector =
  pj_RecordInventoryReserved :: "OutboxEvent \<Rightarrow> OutboxEvent \<Rightarrow> AuditLog \<Rightarrow> ('s, error, unit) op"
  pj_RecordInventoryRejected :: "OutboxEvent \<Rightarrow> OutboxEvent \<Rightarrow> AuditLog \<Rightarrow> ('s, error, unit) op"
  pj_RecordPaymentAuthorized ::
    "OutboxEvent \<Rightarrow> OutboxEvent \<Rightarrow> Payment \<Rightarrow> AuditLog \<Rightarrow> ('s, error, unit) op"
  pj_RecordPaymentFailed :: "OutboxEvent \<Rightarrow> OutboxEvent \<Rightarrow> AuditLog \<Rightarrow> ('s, error, unit) op"
  pj_RecordShipmentCreated ::
    "OutboxEvent \<Rightarrow> OutboxEvent \<Rightarrow> Shipment \<Rightarrow> AuditLog \<Rightarrow> ('s, error, unit) op"
  pj_RecordShipmentFailed :: "OutboxEvent \<Rightarrow> OutboxEvent \<Rightarrow> AuditLog \<Rightarrow> ('s, error, unit) op"
  pj_RecordOrderCancelled :: "OutboxEvent \<Rightarrow> OutboxEvent \<Rightarrow> AuditLog \<Rightarrow> ('s, error, unit) op"
  pj_RecordNotificationQueued :: "OutboxEvent \<Rightarrow> AuditLog \<Rightarrow> ('s, error, unit) op"
  pj_RecordCompensation :: "OutboxEvent \<Rightarrow> OrderStatus \<Rightarrow> AuditLog \<Rightarrow> ('s, error, unit) op"

record 's OutboxSource =
  os_PendingOutboxEvents :: "time \<Rightarrow> int \<Rightarrow> ('s, error, OutboxEvent list) op"
  os_MarkOutboxPublished :: "string \<Rightarrow> time \<Rightarrow> ('s, error, unit) op"

subsection \<open>Ledgers\<close>

record ledger =
  lg_orders :: "string \<Rightarrow> Order option"
  lg_events :: "OutboxEvent list"
  lg_audits :: "AuditLog list"

text \<open>What no operation after the creation of an order may change.\<close>

definition item_terms :: "OrderItem \<Rightarrow> string \<times> int64 \<times> Money" where
  "item_terms item = (i_SKU item, i_Quantity item, i_UnitPrice item)"

definition same_terms :: "Order \<Rightarrow> Order \<Rightarrow> bool" where
  "same_terms a b \<longleftrightarrow> o_OrderID a = o_OrderID b \<and> o_MerchantID a = o_MerchantID b \<and>
     o_ExternalOrderID a = o_ExternalOrderID b \<and> o_Currency a = o_Currency b \<and>
     o_Totals a = o_Totals b \<and> o_ShippingAddressRef a = o_ShippingAddressRef b \<and>
     o_CreatedAt a = o_CreatedAt b \<and> map item_terms (o_Items a) = map item_terms (o_Items b)"

lemma same_terms_refl [simp]: "same_terms a a"
  by (simp add: same_terms_def)

lemma same_terms_trans: "same_terms a b \<Longrightarrow> same_terms b c \<Longrightarrow> same_terms a c"
  by (simp add: same_terms_def)

text \<open>The part of an event that routes and links it; the payload is not in it.\<close>

definition event_key :: "OutboxEvent \<Rightarrow> string \<times> string \<times> string \<times> string \<times> string \<times> string" where
  "event_key e = (e_MessageID e, e_EventType e, e_OrderID e, e_MerchantID e, e_CorrelationID e,
     if e_CausationID e = [] then e_MessageID e else e_CausationID e)"

lemma event_key_defaults [simp]: "event_key (WithEnvelopeDefaults e) = event_key e"
  by (simp add: event_key_def)

lemma event_key_payload [simp]: "event_key (e\<lparr>e_Payload := p\<rparr>) = event_key e"
  by (simp add: event_key_def)

text \<open>
  One recorded step: order \<open>orderID\<close> is rewritten with its terms kept and its status
  moved as \<open>T\<close> allows, \<open>nexts\<close> are appended to the outbox (up to their payloads, with
  envelopes completed) and one audit log to the trail (up to its details, whose
  representation is the store's, and to the microsecond).
\<close>

definition audit_key :: "AuditLog \<Rightarrow> string \<times> string \<times> string \<times> string \<times> string \<times> string \<times> time" where
  "audit_key a = (a_MerchantID a, a_OrderID a, a_ActorType a, a_ActorID a, a_Action a, a_CorrelationID a,
     a_CreatedAt a div 1000)"

definition recorded :: "string \<Rightarrow> (OrderStatus \<Rightarrow> OrderStatus \<Rightarrow> bool) \<Rightarrow> OutboxEvent list \<Rightarrow> AuditLog
    \<Rightarrow> ledger \<Rightarrow> ledger \<Rightarrow> bool" where
  "recorded orderID T nexts audit L L' \<longleftrightarrow>
     (\<exists>order order' evs. lg_orders L orderID = Some order \<and> same_terms order order' \<and>
        T (o_Status order) (o_Status order') \<and>
        lg_orders L' = (lg_orders L)(orderID \<mapsto> order') \<and>
        lg_events L' = lg_events L @ evs \<and> map event_key evs = map event_key nexts \<and>
        list_all (\<lambda>e. WithEnvelopeDefaults e = e) evs \<and>
        (\<exists>audit'. lg_audits L' = lg_audits L @ [audit'] \<and> audit_key audit' = audit_key audit))"

definition outcome :: "(error + 'a) \<Rightarrow> string \<Rightarrow> (OrderStatus \<Rightarrow> OrderStatus \<Rightarrow> bool) \<Rightarrow>
    OutboxEvent list \<Rightarrow> AuditLog \<Rightarrow> ledger \<Rightarrow> ledger \<Rightarrow> bool" where
  "outcome r orderID T nexts audit L L' \<longleftrightarrow>
     (if ok r then recorded orderID T nexts audit L L' else L' = L)"

lemma outcome_simps [simp]:
  "outcome (Inl e) oid T nexts audit L L' \<longleftrightarrow> L' = L"
  "outcome (Inr x) oid T nexts audit L L' \<longleftrightarrow> recorded oid T nexts audit L L'"
  by (simp_all add: outcome_def)

definition moves_to :: "OrderStatus \<Rightarrow> OrderStatus \<Rightarrow> OrderStatus \<Rightarrow> bool" where
  "moves_to status from to \<longleftrightarrow> CanTransitionOrderStatus from status \<and> to = status"

definition keeps :: "OrderStatus \<Rightarrow> OrderStatus \<Rightarrow> bool" where
  "keeps from to \<longleftrightarrow> to = from"

lemma recorded_mono:
  "recorded oid T nexts audit L L' \<Longrightarrow> (\<And>a b. T a b \<Longrightarrow> T' a b) \<Longrightarrow> recorded oid T' nexts audit L L'"
  unfolding recorded_def by blast

definition insert_ledger :: "Order \<Rightarrow> OutboxEvent \<Rightarrow> AuditLog \<Rightarrow> ledger \<Rightarrow> ledger" where
  "insert_ledger order event audit L =
     \<lparr>lg_orders = (lg_orders L)(o_OrderID order \<mapsto> order),
      lg_events = lg_events L @ [WithEnvelopeDefaults event],
      lg_audits = lg_audits L @ [audit]\<rparr>"

text \<open>An insertion up to the precision of the store.\<close>

definition stored :: "Order \<Rightarrow> OutboxEvent \<Rightarrow> AuditLog \<Rightarrow> ledger \<Rightarrow> ledger \<Rightarrow> bool" where
  "stored order event audit L L' \<longleftrightarrow>
     (\<exists>order' event' audit'. lg_orders L' = (lg_orders L)(o_OrderID order \<mapsto> order') \<and>
        o_OrderID order' = o_OrderID order \<and> o_MerchantID order' = o_MerchantID order \<and>
        o_ExternalOrderID order' = o_ExternalOrderID order \<and> o_Status order' = o_Status order \<and>
        lg_events L' = lg_events L @ [event'] \<and> event_key event' = event_key event \<and>
        WithEnvelopeDefaults event' = event' \<and>
        lg_audits L' = lg_audits L @ [audit'] \<and> audit_key audit' = audit_key audit)"

lemma insert_ledger_stored: "stored order event audit L (insert_ledger order event audit L)"
  by (auto simp: stored_def insert_ledger_def)

subsection \<open>Contracts\<close>

text \<open>
  \<open>view\<close> reads the ledger of a state; \<open>key_ref\<close> and \<open>ext_ref\<close> are the indexes from a
  merchant's idempotency key and external order id to an order id. A store may refuse what
  it cannot hold: \<open>storable\<close> are the insertions it accepts and represents exactly,
  \<open>appendable\<close> the events and audit logs it accepts.
\<close>

locale order_store =
  fixes S :: "'s Store" and inv :: "'s \<Rightarrow> bool" and view :: "'s \<Rightarrow> ledger"
    and key_ref :: "'s \<Rightarrow> string \<Rightarrow> string \<Rightarrow> string option"
    and ext_ref :: "'s \<Rightarrow> string \<Rightarrow> string \<Rightarrow> string option"
    and storable :: "'s \<Rightarrow> string \<Rightarrow> string \<Rightarrow> Order \<Rightarrow> OutboxEvent \<Rightarrow> AuditLog \<Rightarrow> bool"
    and appendable :: "'s \<Rightarrow> OutboxEvent \<Rightarrow> AuditLog \<Rightarrow> bool"
  assumes get_order: "inv s \<Longrightarrow> st_GetOrder S oid s =
      (case lg_orders (view s) oid of None \<Rightarrow> Inl ErrNotFound | Some order \<Rightarrow> Inr order)"
    and stored_status: "inv s \<Longrightarrow> lg_orders (view s) oid = Some order \<Longrightarrow>
      IsValidOrderStatus (o_Status order) \<and> o_OrderID order = oid"
    and insert_replay: "inv s \<Longrightarrow> key_ref s m k = Some oid \<Longrightarrow>
      \<exists>old. lg_orders (view s) oid = Some old \<and>
        st_InsertOrder S m k order event audit s = (Inr (Some old, True), s)"
    and insert_fresh: "inv s \<Longrightarrow> key_ref s m k = None \<Longrightarrow> lg_orders (view s) (o_OrderID order) = None \<Longrightarrow>
      o_MerchantID order = m \<Longrightarrow> IsValidOrderStatus (o_Status order) \<Longrightarrow>
      st_InsertOrder S m k order event audit s = (r3, s') \<Longrightarrow>
      inv s' \<and> (case r3 of Inl _ \<Rightarrow> view s' = view s
        | Inr result \<Rightarrow> result = (Some order, False) \<and> stored order event audit (view s) (view s') \<and>
            key_ref s' m k = Some (o_OrderID order))"
    and insert_duplicate: "inv s \<Longrightarrow> key_ref s m k = None \<Longrightarrow>
      ext_ref s m (o_ExternalOrderID order) = Some oid \<Longrightarrow> storable s m k order event audit \<Longrightarrow>
      st_InsertOrder S m k order event audit s = (Inl ErrDuplicateOrder, s)"
    and insert_new: "inv s \<Longrightarrow> key_ref s m k = None \<Longrightarrow>
      ext_ref s m (o_ExternalOrderID order) = None \<Longrightarrow> lg_orders (view s) (o_OrderID order) = None \<Longrightarrow>
      o_MerchantID order = m \<Longrightarrow> IsValidOrderStatus (o_Status order) \<Longrightarrow> storable s m k order event audit \<Longrightarrow>
      \<exists>s'. st_InsertOrder S m k order event audit s = (Inr (Some order, False), s') \<and> inv s' \<and>
        view s' = insert_ledger order event audit (view s) \<and>
        key_ref s' m k = Some (o_OrderID order) \<and>
        ext_ref s' m (o_ExternalOrderID order) = Some (o_OrderID order)"
    and update_status: "inv s \<Longrightarrow> st_UpdateOrderStatus S oid status now event audit s = (r, s') \<Longrightarrow>
      inv s' \<and> outcome r oid (moves_to status) [event] audit (view s) (view s')"
    and update_succeeds: "inv s \<Longrightarrow> lg_orders (view s) oid = Some order \<Longrightarrow>
      CanTransitionOrderStatus (o_Status order) status \<Longrightarrow> appendable s event audit \<Longrightarrow> e_OrderID event = oid \<Longrightarrow>
      ok (fst (st_UpdateOrderStatus S oid status now event audit s))"

locale projector = order_store S inv view key_ref ext_ref storable appendable
  for S :: "'s Store" and inv :: "'s \<Rightarrow> bool" and view :: "'s \<Rightarrow> ledger"
    and key_ref :: "'s \<Rightarrow> string \<Rightarrow> string \<Rightarrow> string option"
    and ext_ref :: "'s \<Rightarrow> string \<Rightarrow> string \<Rightarrow> string option"
    and storable :: "'s \<Rightarrow> string \<Rightarrow> string \<Rightarrow> Order \<Rightarrow> OutboxEvent \<Rightarrow> AuditLog \<Rightarrow> bool"
    and appendable :: "'s \<Rightarrow> OutboxEvent \<Rightarrow> AuditLog \<Rightarrow> bool" +
  fixes P :: "'s Projector"
  assumes inventory_reserved:
      "inv s \<Longrightarrow> pj_RecordInventoryReserved P source nxt audit s = (r, s') \<Longrightarrow>
       inv s' \<and> outcome r (e_OrderID source) (moves_to StatusInventoryReserved) [nxt] audit (view s) (view s')"
    and inventory_rejected:
      "inv s \<Longrightarrow> pj_RecordInventoryRejected P source nxt audit s = (r, s') \<Longrightarrow>
       inv s' \<and> outcome r (e_OrderID source) keeps [nxt] audit (view s) (view s')"
    and payment_authorized:
      "inv s \<Longrightarrow> pj_RecordPaymentAuthorized P source nxt payment audit s = (r, s') \<Longrightarrow>
       inv s' \<and> outcome r (e_OrderID source) (moves_to StatusPaymentAuthorized) [nxt] audit (view s) (view s')"
    and payment_failed:
      "inv s \<Longrightarrow> pj_RecordPaymentFailed P source nxt audit s = (r, s') \<Longrightarrow>
       inv s' \<and> outcome r (e_OrderID source) keeps [nxt] audit (view s) (view s')"
    and shipment_created:
      "inv s \<Longrightarrow> pj_RecordShipmentCreated P source nxt shipment audit s = (r, s') \<Longrightarrow>
       inv s' \<and> outcome r (e_OrderID source) (moves_to StatusShipmentCreated) [nxt] audit (view s) (view s')"
    and shipment_failed:
      "inv s \<Longrightarrow> pj_RecordShipmentFailed P source nxt audit s = (r, s') \<Longrightarrow>
       inv s' \<and> outcome r (e_OrderID source) keeps [nxt] audit (view s) (view s')"
    and order_cancelled:
      "inv s \<Longrightarrow> pj_RecordOrderCancelled P source nxt audit s = (r, s') \<Longrightarrow>
       inv s' \<and> outcome r (e_OrderID source) (moves_to StatusCancelled) [nxt] audit (view s) (view s')"
    and notification_queued:
      "inv s \<Longrightarrow> pj_RecordNotificationQueued P source audit s = (r, s') \<Longrightarrow>
       inv s' \<and> outcome r (e_OrderID source) keeps [] audit (view s) (view s')"
    and compensation:
      "inv s \<Longrightarrow> pj_RecordCompensation P source status audit s = (r, s') \<Longrightarrow>
       inv s' \<and> outcome r (e_OrderID source) (moves_to status) [] audit (view s) (view s')"

text \<open>
  What a server that separates merchants needs: while \<open>owned\<close> holds, the idempotency index of
  an admissible merchant leads to its own orders, a shipment record names the merchant of its
  order, and an update returns the order it stored.
\<close>

locale tenant_store = order_store S inv view key_ref ext_ref storable appendable
  for S :: "'s Store" and inv :: "'s \<Rightarrow> bool" and view :: "'s \<Rightarrow> ledger"
    and key_ref :: "'s \<Rightarrow> string \<Rightarrow> string \<Rightarrow> string option"
    and ext_ref :: "'s \<Rightarrow> string \<Rightarrow> string \<Rightarrow> string option"
    and storable :: "'s \<Rightarrow> string \<Rightarrow> string \<Rightarrow> Order \<Rightarrow> OutboxEvent \<Rightarrow> AuditLog \<Rightarrow> bool"
    and appendable :: "'s \<Rightarrow> OutboxEvent \<Rightarrow> AuditLog \<Rightarrow> bool" +
  fixes owned :: "'s \<Rightarrow> bool" and admissible :: "string \<Rightarrow> bool"
  assumes key_owner: "inv s \<Longrightarrow> owned s \<Longrightarrow> admissible m \<Longrightarrow> key_ref s m k = Some oid \<Longrightarrow>
      lg_orders (view s) oid = Some order \<Longrightarrow> o_MerchantID order = m"
    and owned_insert: "inv s \<Longrightarrow> owned s \<Longrightarrow> admissible m \<Longrightarrow> o_MerchantID order = m \<Longrightarrow>
      lg_orders (view s) (o_OrderID order) = None \<Longrightarrow>
      st_InsertOrder S m k order event audit s = (r3, s') \<Longrightarrow> owned s'"
    and owned_update: "inv s \<Longrightarrow> owned s \<Longrightarrow>
      st_UpdateOrderStatus S oid status now event audit s = (r, s') \<Longrightarrow> owned s'"
    and shipment_owner: "inv s \<Longrightarrow> owned s \<Longrightarrow> st_GetShipment S sid s = Inr shipment \<Longrightarrow>
      \<exists>order. lg_orders (view s) (sr_OrderID shipment) = Some order \<and>
        o_MerchantID order = sr_MerchantID shipment"
    and update_returns: "inv s \<Longrightarrow>
      st_UpdateOrderStatus S oid status now event audit s = (Inr order, s') \<Longrightarrow>
      lg_orders (view s') oid = Some order"

text \<open>
  An outbox: \<open>events_of\<close> are the events ever appended, \<open>published\<close> the message ids
  marked as published. A mark that reports an error may have been made all the same.
\<close>

locale outbox_source =
  fixes Src :: "'s OutboxSource" and sound :: "'s \<Rightarrow> bool" and events_of :: "'s \<Rightarrow> OutboxEvent list"
    and published :: "'s \<Rightarrow> string set"
  assumes pending: "sound s \<Longrightarrow> os_PendingOutboxEvents Src now limit s = (r, s') \<Longrightarrow>
      sound s' \<and> events_of s' = events_of s \<and> published s' = published s"
    and pending_events: "sound s \<Longrightarrow> os_PendingOutboxEvents Src now limit s = (Inr es, s') \<Longrightarrow>
      e \<in> set es \<Longrightarrow> e \<in> WithEnvelopeDefaults ` set (events_of s) \<and> e_MessageID e \<notin> published s"
    and mark: "sound s \<Longrightarrow> os_MarkOutboxPublished Src mid at s = (r2, s') \<Longrightarrow>
      sound s' \<and> events_of s' = events_of s \<and> published s' \<in> {published s, insert mid (published s)} \<and>
      (ok r2 \<longrightarrow> published s' = insert mid (published s))"

text \<open>All the operations of a store together, seen on its ledger.\<close>

locale ledger_store = projector S inv view key_ref ext_ref storable appendable P
  for S :: "'s Store" and inv :: "'s \<Rightarrow> bool" and view :: "'s \<Rightarrow> ledger"
    and key_ref :: "'s \<Rightarrow> string \<Rightarrow> string \<Rightarrow> string option"
    and ext_ref :: "'s \<Rightarrow> string \<Rightarrow> string \<Rightarrow> string option"
    and storable :: "'s \<Rightarrow> string \<Rightarrow> string \<Rightarrow> Order \<Rightarrow> OutboxEvent \<Rightarrow> AuditLog \<Rightarrow> bool"
    and appendable :: "'s \<Rightarrow> OutboxEvent \<Rightarrow> AuditLog \<Rightarrow> bool" and P :: "'s Projector" +
  fixes Src :: "'s OutboxSource"
  assumes pending_view: "inv s \<Longrightarrow> os_PendingOutboxEvents Src now limit s = (r4, s') \<Longrightarrow> inv s' \<and> view s' = view s"
    and mark_view: "inv s \<Longrightarrow> os_MarkOutboxPublished Src mid at s = (r2, s') \<Longrightarrow> inv s' \<and> view s' = view s"

end
