(* ===== verification/Providers.thy ===== *)
theory Providers
  imports Store_Interface
begin

text \<open>
  The provider interfaces of \<open>internal/providers\<close> (payment.go, shipment.go) with their
  in-process fakes, and the adapters of \<open>internal/fulfillment/provider_adapters.go\<close> that
  turn an order read from a store into a provider request. A real provider is any value of
  the interface; the adapters read the store and never write it.
\<close>

record PaymentRequest =
  pr_OrderID :: string
  pr_MerchantID :: string
  pr_Amount :: int64
  pr_Currency :: string
  pr_PaymentCredentialRef :: string

record PaymentAuthorization =
  pa_AuthorizationID :: string
  pa_Status :: string

record PaymentProvider =
  pp_Authorize :: "PaymentRequest \<Rightarrow> error + PaymentAuthorization"
  pp_Void :: "string \<Rightarrow> error option"

definition FakePaymentProvider_Authorize :: "PaymentRequest \<Rightarrow> error + PaymentAuthorization" where
  "FakePaymentProvider_Authorize request =
     (if pr_PaymentCredentialRef request = []
      then Inl (ErrorString ''payment credential reference is required'')
      else Inr \<lparr>pa_AuthorizationID = ''pay_fake_'' @ pr_OrderID request, pa_Status = ''authorized''\<rparr>)"

definition FakePaymentProvider_Void :: "string \<Rightarrow> error option" where
  "FakePaymentProvider_Void authorizationID =
     (if authorizationID = [] then Some (ErrorString ''authorization id is required'') else None)"

definition FakePaymentProvider :: PaymentProvider where
  "FakePaymentProvider = \<lparr>pp_Authorize = FakePaymentProvider_Authorize, pp_Void = FakePaymentProvider_Void\<rparr>"

record ShipmentRequest =
  sq_OrderID :: string
  sq_MerchantID :: string
  sq_AddressID :: string

record ShipmentBooking =
  sb_ShipmentID :: string
  sb_Carrier :: string
  sb_TrackingNumber :: string

type_synonym ShipmentProvider = "ShipmentRequest \<Rightarrow> error + ShipmentBooking"

definition FakeShipmentProvider_CreateShipment :: ShipmentProvider where
  "FakeShipmentProvider_CreateShipment request =
     (if sq_AddressID request = [] then Inl (ErrorString ''address id is required'')
      else Inr \<lparr>sb_ShipmentID = ''shp_fake_'' @ sq_OrderID request, sb_Carrier = ''fake-carrier'',
                sb_TrackingNumber = ''TRACK-'' @ sq_OrderID request\<rparr>)"

subsection \<open>Adapters\<close>

text \<open>An \<open>OrderReader\<close> is the read method of a store; \<open>None\<close> is the nil interface.\<close>

type_synonym 's OrderReader = "string \<Rightarrow> 's \<Rightarrow> error + Order"

definition ProviderPaymentAuthorizer_AuthorizePayment ::
    "'s OrderReader option \<Rightarrow> PaymentProvider option \<Rightarrow> OutboxEvent \<Rightarrow> 's \<Rightarrow> error + Payment" where
  "ProviderPaymentAuthorizer_AuthorizePayment reader provider event s =
     (case reader of
        None \<Rightarrow> Inl (ErrorString ''order reader is required'')
      | Some GetOrder \<Rightarrow>
        (case provider of
           None \<Rightarrow> Inl (ErrorString ''payment provider is required'')
         | Some p \<Rightarrow>
           (case GetOrder (e_OrderID event) s of
              Inl err \<Rightarrow> Inl err
            | Inr order \<Rightarrow>
              (case o_Payment order of
                 None \<Rightarrow> Inl (ErrorString ''payment credential reference is required'')
               | Some payment \<Rightarrow>
                 if p_CredentialRef payment = []
                 then Inl (ErrorString ''payment credential reference is required'')
                 else (case pp_Authorize p
                         \<lparr>pr_OrderID = o_OrderID order, pr_MerchantID = o_MerchantID order,
                          pr_Amount = m_Amount (t_Total (o_Totals order)), pr_Currency = o_Currency order,
                          pr_PaymentCredentialRef = p_CredentialRef payment\<rparr> of
                         Inl err \<Rightarrow> Inl err
                       | Inr authorization \<Rightarrow> Inr
                           \<lparr>p_Provider = p_Provider payment, p_Status = pa_Status authorization,
                            p_AuthorizationID = pa_AuthorizationID authorization,
                            p_CredentialRef = p_CredentialRef payment\<rparr>)))))"

definition ProviderShipmentCreator_CreateShipment ::
    "'s OrderReader option \<Rightarrow> ShipmentProvider option \<Rightarrow> time option \<Rightarrow> time \<Rightarrow> OutboxEvent \<Rightarrow> 's
     \<Rightarrow> error + Shipment" where
  "ProviderShipmentCreator_CreateShipment reader provider clock wall event s =
     (case reader of
        None \<Rightarrow> Inl (ErrorString ''order reader is required'')
      | Some GetOrder \<Rightarrow>
        (case provider of
           None \<Rightarrow> Inl (ErrorString ''shipment provider is required'')
         | Some CreateShipment \<Rightarrow>
           (case GetOrder (e_OrderID event) s of
              Inl err \<Rightarrow> Inl err
            | Inr order \<Rightarrow>
              if o_ShippingAddressRef order = []
              then Inl (ErrorString ''shipping address reference is required'')
              else (case CreateShipment \<lparr>sq_OrderID = o_OrderID order,
                      sq_MerchantID = o_MerchantID order, sq_AddressID = o_ShippingAddressRef order\<rparr> of
                      Inl err \<Rightarrow> Inl err
                    | Inr booking \<Rightarrow>
                      (let now = (case clock of Some t \<Rightarrow> t | None \<Rightarrow> wall)
                       in Inr \<lparr>s_ShipmentID = sb_ShipmentID booking, s_Status = ''created'',
                               s_Carrier = sb_Carrier booking,
                               s_TrackingNumber = sb_TrackingNumber booking,
                               s_Events = [\<lparr>se_OccurredAt = now, se_Status = ''created'',
                                 se_Description = ''Shipment booking created by provider adapter.''\<rparr>]\<rparr>)))))"

end
