(* ===== verification/Topology.thy ===== *)
theory Topology
  imports Go_Lib
begin

text \<open>
  The broker topology of \<open>internal/messaging/topology.go\<close>: exchanges, work queues with
  their routing keys, and the retry and dead-letter queue of each.
\<close>

definition DomainExchange :: string where "DomainExchange = ''fulfillhub.domain''"
definition RetryExchange :: string where "RetryExchange = ''fulfillhub.retry''"
definition DLXExchange :: string where "DLXExchange = ''fulfillhub.dlx''"

definition InventoryReserveQueue :: string where "InventoryReserveQueue = ''inventory.reserve''"
definition PaymentsAuthorizeQueue :: string where "PaymentsAuthorizeQueue = ''payments.authorize''"
definition ShipmentsCreateQueue :: string where "ShipmentsCreateQueue = ''shipments.create''"
definition OrdersFinalizeQueue :: string where "OrdersFinalizeQueue = ''orders.finalize''"
definition OrdersCancelQueue :: string where "OrdersCancelQueue = ''orders.cancel''"
definition OrdersCompensateQueue :: string where "OrdersCompensateQueue = ''orders.compensate''"
definition NotificationsEmailQueue :: string where "NotificationsEmailQueue = ''notifications.email''"

lemmas queue_defs = InventoryReserveQueue_def PaymentsAuthorizeQueue_def ShipmentsCreateQueue_def
  OrdersFinalizeQueue_def OrdersCancelQueue_def OrdersCompensateQueue_def NotificationsEmailQueue_def

definition defaultMaxRetryAttempts :: int where "defaultMaxRetryAttempts = 3"

record QueueTopology =
  qt_Queue :: string
  qt_RoutingKeys :: "string list"
  qt_RetryQueue :: string
  qt_RetryTTL :: duration
  qt_DLQ :: string

definition RoutingKey :: "string \<Rightarrow> string" where
  "RoutingKey eventType = TrimSpace eventType"

definition QueueNames :: "string list" where
  "QueueNames = [InventoryReserveQueue, PaymentsAuthorizeQueue, ShipmentsCreateQueue,
     OrdersFinalizeQueue, OrdersCancelQueue, OrdersCompensateQueue, NotificationsEmailQueue]"

definition QueueTopologies :: "QueueTopology list" where
  "QueueTopologies =
     [\<lparr>qt_Queue = InventoryReserveQueue, qt_RoutingKeys = [''order.created''],
       qt_RetryQueue = ''inventory.reserve.retry.5s'', qt_RetryTTL = 5 * Second,
       qt_DLQ = ''inventory.reserve.dlq''\<rparr>,
      \<lparr>qt_Queue = PaymentsAuthorizeQueue, qt_RoutingKeys = [''inventory.reserved''],
       qt_RetryQueue = ''payments.authorize.retry.15s'', qt_RetryTTL = 15 * Second,
       qt_DLQ = ''payments.authorize.dlq''\<rparr>,
      \<lparr>qt_Queue = ShipmentsCreateQueue, qt_RoutingKeys = [''payment.authorized''],
       qt_RetryQueue = ''shipments.create.retry.30s'', qt_RetryTTL = 30 * Second,
       qt_DLQ = ''shipments.create.dlq''\<rparr>,
      \<lparr>qt_Queue = OrdersFinalizeQueue, qt_RoutingKeys = [''shipment.created''],
       qt_RetryQueue = ''orders.finalize.retry.15s'', qt_RetryTTL = 15 * Second,
       qt_DLQ = ''orders.finalize.dlq''\<rparr>,
      \<lparr>qt_Queue = OrdersCancelQueue, qt_RoutingKeys = [''order.cancel_requested''],
       qt_RetryQueue = ''orders.cancel.retry.15s'', qt_RetryTTL = 15 * Second,
       qt_DLQ = ''orders.cancel.dlq''\<rparr>,
      \<lparr>qt_Queue = OrdersCompensateQueue,
       qt_RoutingKeys = [''inventory.rejected'', ''payment.failed'', ''shipment.failed''],
       qt_RetryQueue = ''orders.compensate.retry.15s'', qt_RetryTTL = 15 * Second,
       qt_DLQ = ''orders.compensate.dlq''\<rparr>,
      \<lparr>qt_Queue = NotificationsEmailQueue,
       qt_RoutingKeys = [''order.completed'', ''order.cancelled'', ''order.manual_review_required'',
         ''inventory.rejected'', ''payment.failed'', ''shipment.failed''],
       qt_RetryQueue = ''notifications.email.retry.60s'', qt_RetryTTL = 60 * Second,
       qt_DLQ = ''notifications.email.dlq''\<rparr>]"

end
