(* ===== verification/Memory_Store.thy ===== *)
theory Memory_Store
  imports Store_Interface
begin

text \<open>
  The in-memory store of \<open>internal/commerce/store.go\<close>. Every method takes the store's
  mutex for its whole body, so each is one atomic step on the state: a function from the
  arguments and the state to a result and the next state. Orders are values here; the
  pointers of the source are only written through the map that holds them, and the clones
  it returns are copies.
\<close>

subsection \<open>State\<close>

record MemoryStore =
  orders :: "Order gomap"
  ordersByExternal :: "string gomap"
  ordersByIdempotency :: "string gomap"
  outbox :: "OutboxEvent list"
  auditLogs :: "AuditLog list"
  publishedOutbox :: "time gomap"
  claimedOutbox :: "time gomap"

type_synonym 'a store_op = "(MemoryStore, error, 'a) op"

definition NewMemoryStore :: MemoryStore where
  "NewMemoryStore = \<lparr>orders = [], ordersByExternal = [], ordersByIdempotency = [],
     outbox = [], auditLogs = [], publishedOutbox = [], claimedOutbox = []\<rparr>"

subsection \<open>Helpers\<close>

definition scopedKey :: "string \<Rightarrow> string \<Rightarrow> string" where
  "scopedKey merchantID value = merchantID @ '':'' @ value"

definition failurePayload :: "string \<Rightarrow> string \<Rightarrow> any gomap" where
  "failurePayload stage reason =
     (let reason = (if reason = [] then ''unspecified'' else reason)
      in [(''failure'', AMap [(''stage'', AStr stage), (''reason'', AStr reason)])])"

definition cloneOrder :: "Order option \<Rightarrow> Order option" where
  "cloneOrder order =
     (case order of
        None \<Rightarrow> None
      | Some ord \<Rightarrow> Some (ord\<lparr>o_Items := [] @ o_Items ord,
          o_Payment := (case o_Payment ord of None \<Rightarrow> None | Some payment \<Rightarrow> Some payment),
          o_Shipment := (case o_Shipment ord of None \<Rightarrow> None
             | Some shipment \<Rightarrow> Some (shipment\<lparr>s_Events := [] @ s_Events shipment\<rparr>))\<rparr>))"

definition shipmentRecordFromOrder :: "Order \<Rightarrow> ShipmentRecord option" where
  "shipmentRecordFromOrder order =
     (case o_Shipment order of
        None \<Rightarrow> None
      | Some shipment \<Rightarrow> Some
          \<lparr>sr_ShipmentID = s_ShipmentID shipment, sr_OrderID = o_OrderID order,
           sr_MerchantID = o_MerchantID order, sr_Carrier = s_Carrier shipment,
           sr_TrackingNumber = s_TrackingNumber shipment, sr_Status = s_Status shipment,
           sr_Events = s_Events shipment\<rparr>)"

definition cloneShipmentRecord :: "ShipmentRecord option \<Rightarrow> ShipmentRecord option" where
  "cloneShipmentRecord record =
     (case record of None \<Rightarrow> None | Some r \<Rightarrow> Some (r\<lparr>sr_Events := [] @ sr_Events r\<rparr>))"

definition cloneAuditLog :: "AuditLog \<Rightarrow> AuditLog" where
  "cloneAuditLog log = log\<lparr>a_Details := map (\<lambda>(key, value). (key, value)) (a_Details log)\<rparr>"

definition appendOutboxEvent :: "OutboxEvent \<Rightarrow> MemoryStore \<Rightarrow> MemoryStore" where
  "appendOutboxEvent event s = s\<lparr>outbox := outbox s @ [WithEnvelopeDefaults event]\<rparr>"

text \<open>Writing through the order pointer held by the map, and appending an audit log.\<close>

definition put_order :: "string \<Rightarrow> Order \<Rightarrow> MemoryStore \<Rightarrow> MemoryStore" where
  "put_order orderID order s = s\<lparr>orders := mapset orderID order (orders s)\<rparr>"

definition append_audit :: "AuditLog \<Rightarrow> MemoryStore \<Rightarrow> MemoryStore" where
  "append_audit audit s = s\<lparr>auditLogs := auditLogs s @ [audit]\<rparr>"

definition set_items :: "string \<Rightarrow> OrderItem list \<Rightarrow> OrderItem list" where
  "set_items status items = map (\<lambda>item. item\<lparr>i_ReservationStatus := status\<rparr>) items"

definition release_items :: "OrderItem list \<Rightarrow> OrderItem list" where
  "release_items items = map (\<lambda>item. if i_ReservationStatus item = ''reserved''
     then item\<lparr>i_ReservationStatus := ''released''\<rparr> else item) items"

definition void_payment :: "Payment option \<Rightarrow> Payment option" where
  "void_payment payment =
     (case payment of
        Some p \<Rightarrow> if p_Status p = ''authorized'' then Some (p\<lparr>p_Status := ''voided''\<rparr>) else Some p
      | None \<Rightarrow> None)"

subsection \<open>Orders\<close>

definition MemoryStore_InsertOrder ::
    "string \<Rightarrow> string \<Rightarrow> Order \<Rightarrow> OutboxEvent \<Rightarrow> AuditLog \<Rightarrow> (Order option \<times> bool) store_op" where
  "MemoryStore_InsertOrder merchantID idempotencyKey order event audit s =
     (let idempotencyRef = scopedKey merchantID idempotencyKey in
      case mapget (ordersByIdempotency s) idempotencyRef of
        Some existingID \<Rightarrow> (Inr (cloneOrder (mapget (orders s) existingID), True), s)
      | None \<Rightarrow>
        (let externalRef = scopedKey merchantID (o_ExternalOrderID order) in
         case mapget (ordersByExternal s) externalRef of
           Some _ \<Rightarrow> (Inl ErrDuplicateOrder, s)
         | None \<Rightarrow>
           (let s = put_order (o_OrderID order) (the (cloneOrder (Some order))) s;
                s = s\<lparr>ordersByExternal := mapset externalRef (o_OrderID order) (ordersByExternal s)\<rparr>;
                s = s\<lparr>ordersByIdempotency := mapset idempotencyRef (o_OrderID order) (ordersByIdempotency s)\<rparr>;
                s = appendOutboxEvent event s;
                s = append_audit audit s
            in (Inr (cloneOrder (Some order), False), s))))"

definition MemoryStore_GetOrder :: "string \<Rightarrow> MemoryStore \<Rightarrow> error + Order" where
  "MemoryStore_GetOrder orderID s =
     (case mapget (orders s) orderID of
        None \<Rightarrow> Inl ErrNotFound
      | Some order \<Rightarrow> Inr (the (cloneOrder (Some order))))"

fun find_shipment :: "string \<Rightarrow> Order gomap \<Rightarrow> ShipmentRecord option" where
  "find_shipment shipmentID [] = None"
| "find_shipment shipmentID ((_, order) # rest) =
     (case o_Shipment order of
        None \<Rightarrow> find_shipment shipmentID rest
      | Some shipment \<Rightarrow>
          if s_ShipmentID shipment \<noteq> shipmentID then find_shipment shipmentID rest
          else cloneShipmentRecord (shipmentRecordFromOrder order))"

definition MemoryStore_GetShipment :: "string \<Rightarrow> MemoryStore \<Rightarrow> error + ShipmentRecord" where
  "MemoryStore_GetShipment shipmentID s =
     (case find_shipment shipmentID (orders s) of
        None \<Rightarrow> Inl ErrNotFound
      | Some record \<Rightarrow> Inr record)"

definition MemoryStore_UpdateOrderStatus ::
    "string \<Rightarrow> OrderStatus \<Rightarrow> time \<Rightarrow> OutboxEvent \<Rightarrow> AuditLog \<Rightarrow> Order store_op" where
  "MemoryStore_UpdateOrderStatus orderID status now event audit s =
     (case mapget (orders s) orderID of
        None \<Rightarrow> (Inl ErrNotFound, s)
      | Some order \<Rightarrow>
        (case ValidateOrderTransition (o_Status order) status of
           Some err \<Rightarrow> (Inl err, s)
         | None \<Rightarrow>
           (let order = order\<lparr>o_Status := status, o_UpdatedAt := now\<rparr>;
                s = put_order orderID order s;
                event = event\<lparr>e_Payload := OrderStatusEventPayload status now audit (e_Payload event)\<rparr>;
                s = appendOutboxEvent event s;
                s = append_audit audit s
            in (Inr (the (cloneOrder (Some order))), s))))"

subsection \<open>Projections\<close>

definition MemoryStore_RecordInventoryReserved ::
    "OutboxEvent \<Rightarrow> OutboxEvent \<Rightarrow> AuditLog \<Rightarrow> unit store_op" where
  "MemoryStore_RecordInventoryReserved source next audit s =
     (case mapget (orders s) (e_OrderID source) of
        None \<Rightarrow> (Inl ErrNotFound, s)
      | Some order \<Rightarrow>
        (case ValidateOrderTransition (o_Status order) StatusInventoryReserved of
           Some err \<Rightarrow> (Inl err, s)
         | None \<Rightarrow>
           (let items = set_items ''reserved'' (o_Items order);
                reservations = map (\<lambda>item. AMap [(''sku'', AStr (i_SKU item)),
                   (''quantity'', AInt (sint (i_Quantity item))), (''warehouse_id'', AStr ''memory'')]) items;
                order = order\<lparr>o_Items := items, o_Status := StatusInventoryReserved,
                              o_UpdatedAt := e_OccurredAt next\<rparr>;
                next = next\<lparr>e_Payload := [(''order_status'', AStr StatusInventoryReserved),
                                           (''reservations'', AList reservations)]\<rparr>
            in (Inr (), append_audit audit (appendOutboxEvent next
                          (put_order (e_OrderID source) order s))))))"

definition MemoryStore_RecordInventoryRejected ::
    "OutboxEvent \<Rightarrow> OutboxEvent \<Rightarrow> AuditLog \<Rightarrow> unit store_op" where
  "MemoryStore_RecordInventoryRejected source next audit s =
     (case mapget (orders s) (e_OrderID source) of
        None \<Rightarrow> (Inl ErrNotFound, s)
      | Some order \<Rightarrow>
        (let order = order\<lparr>o_Items := set_items ''rejected'' (o_Items order),
                           o_UpdatedAt := e_OccurredAt next\<rparr>;
             next = next\<lparr>e_Payload := failurePayload ''inventory'' (mapstr (a_Details audit) ''error'')\<rparr>
         in (Inr (), append_audit audit (appendOutboxEvent next
                       (put_order (e_OrderID source) order s)))))"

definition MemoryStore_RecordPaymentAuthorized ::
    "OutboxEvent \<Rightarrow> OutboxEvent \<Rightarrow> Payment \<Rightarrow> AuditLog \<Rightarrow> unit store_op" where
  "MemoryStore_RecordPaymentAuthorized source next payment audit s =
     (case mapget (orders s) (e_OrderID source) of
        None \<Rightarrow> (Inl ErrNotFound, s)
      | Some order \<Rightarrow>
        (let payment = (case o_Payment order of
               Some existing \<Rightarrow> if p_Provider payment = []
                 then payment\<lparr>p_Provider := p_Provider existing\<rparr> else payment
             | None \<Rightarrow> payment) in
         case ValidateOrderTransition (o_Status order) StatusPaymentAuthorized of
           Some err \<Rightarrow> (Inl err, s)
         | None \<Rightarrow>
           (let order = order\<lparr>o_Payment := Some payment, o_Status := StatusPaymentAuthorized,
                              o_UpdatedAt := e_OccurredAt next\<rparr>;
                next = next\<lparr>e_Payload := [(''order_status'', AStr StatusPaymentAuthorized),
                  (''payment'', AMap [(''provider'', AStr (p_Provider payment)),
                     (''authorization_id'', AStr (p_AuthorizationID payment)),
                     (''amount'', AInt (sint (m_Amount (t_Total (o_Totals order))))),
                     (''currency'', AStr (o_Currency order))])]\<rparr>
            in (Inr (), append_audit audit (appendOutboxEvent next
                          (put_order (e_OrderID source) order s))))))"

definition MemoryStore_RecordPaymentFailed ::
    "OutboxEvent \<Rightarrow> OutboxEvent \<Rightarrow> AuditLog \<Rightarrow> unit store_op" where
  "MemoryStore_RecordPaymentFailed source next audit s =
     (case mapget (orders s) (e_OrderID source) of
        None \<Rightarrow> (Inl ErrNotFound, s)
      | Some order \<Rightarrow>
        (let provider = (case o_Payment order of
               Some p \<Rightarrow> if p_Provider p \<noteq> [] then p_Provider p else ''fake-payment''
             | None \<Rightarrow> ''fake-payment'');
             order = order\<lparr>o_Payment := Some \<lparr>p_Provider = provider, p_Status = ''failed'',
                                p_AuthorizationID = [], p_CredentialRef = []\<rparr>,
                           o_UpdatedAt := e_OccurredAt next\<rparr>;
             next = next\<lparr>e_Payload := failurePayload ''payment'' (mapstr (a_Details audit) ''error'')\<rparr>
         in (Inr (), append_audit audit (appendOutboxEvent next
                       (put_order (e_OrderID source) order s)))))"

definition MemoryStore_RecordShipmentCreated ::
    "OutboxEvent \<Rightarrow> OutboxEvent \<Rightarrow> Shipment \<Rightarrow> AuditLog \<Rightarrow> unit store_op" where
  "MemoryStore_RecordShipmentCreated source next shipment audit s =
     (case mapget (orders s) (e_OrderID source) of
        None \<Rightarrow> (Inl ErrNotFound, s)
      | Some order \<Rightarrow>
        (case ValidateOrderTransition (o_Status order) StatusShipmentCreated of
           Some err \<Rightarrow> (Inl err, s)
         | None \<Rightarrow>
           (let order = order\<lparr>o_Shipment := Some shipment, o_Status := StatusShipmentCreated,
                              o_UpdatedAt := e_OccurredAt next\<rparr>;
                next = next\<lparr>e_Payload := [(''order_status'', AStr StatusShipmentCreated),
                  (''shipment'', AMap [(''shipment_id'', AStr (s_ShipmentID shipment)),
                     (''carrier'', AStr (s_Carrier shipment)),
                     (''tracking_number'', AStr (s_TrackingNumber shipment))])]\<rparr>
            in (Inr (), append_audit audit (appendOutboxEvent next
                          (put_order (e_OrderID source) order s))))))"

definition MemoryStore_RecordShipmentFailed ::
    "OutboxEvent \<Rightarrow> OutboxEvent \<Rightarrow> AuditLog \<Rightarrow> unit store_op" where
  "MemoryStore_RecordShipmentFailed source next audit s =
     (case mapget (orders s) (e_OrderID source) of
        None \<Rightarrow> (Inl ErrNotFound, s)
      | Some order \<Rightarrow>
        (let order = order\<lparr>o_Shipment := Some \<lparr>s_ShipmentID = [], s_Status = ''failed'',
                                s_Carrier = [], s_TrackingNumber = [], s_Events = []\<rparr>,
                           o_UpdatedAt := e_OccurredAt next\<rparr>;
             next = next\<lparr>e_Payload := failurePayload ''shipment'' (mapstr (a_Details audit) ''error'')\<rparr>
         in (Inr (), append_audit audit (appendOutboxEvent next
                       (put_order (e_OrderID source) order s)))))"

definition MemoryStore_RecordOrderCancelled ::
    "OutboxEvent \<Rightarrow> OutboxEvent \<Rightarrow> AuditLog \<Rightarrow> unit store_op" where
  "MemoryStore_RecordOrderCancelled source next audit s =
     (case mapget (orders s) (e_OrderID source) of
        None \<Rightarrow> (Inl ErrNotFound, s)
      | Some order \<Rightarrow>
        (case ValidateOrderTransition (o_Status order) StatusCancelled of
           Some err \<Rightarrow> (Inl err, s)
         | None \<Rightarrow>
           (let order = order\<lparr>o_Status := StatusCancelled, o_UpdatedAt := e_OccurredAt next,
                              o_Items := release_items (o_Items order),
                              o_Payment := void_payment (o_Payment order)\<rparr>;
                next = next\<lparr>e_Payload := OrderStatusEventPayload StatusCancelled
                               (e_OccurredAt next) audit (e_Payload next)\<rparr>
            in (Inr (), append_audit audit (appendOutboxEvent next
                          (put_order (e_OrderID source) order s))))))"

definition MemoryStore_RecordNotificationQueued ::
    "OutboxEvent \<Rightarrow> AuditLog \<Rightarrow> unit store_op" where
  "MemoryStore_RecordNotificationQueued source audit s =
     (case mapget (orders s) (e_OrderID source) of
        None \<Rightarrow> (Inl ErrNotFound, s)
      | Some _ \<Rightarrow> (Inr (), append_audit audit s))"

text \<open>The order as a compensation leaves it.\<close>

definition compensated :: "OutboxEvent \<Rightarrow> OrderStatus \<Rightarrow> time \<Rightarrow> Order \<Rightarrow> Order" where
  "compensated source status at order =
     (let order = order\<lparr>o_Status := status, o_UpdatedAt := at\<rparr>;
          order = (if e_EventType source \<in> set [''payment.failed'', ''shipment.failed'']
                   then order\<lparr>o_Items := release_items (o_Items order)\<rparr> else order)
      in if e_EventType source = ''shipment.failed''
         then order\<lparr>o_Payment := void_payment (o_Payment order)\<rparr> else order)"

definition MemoryStore_RecordCompensation ::
    "OutboxEvent \<Rightarrow> OrderStatus \<Rightarrow> AuditLog \<Rightarrow> unit store_op" where
  "MemoryStore_RecordCompensation source status audit s =
     (case mapget (orders s) (e_OrderID source) of
        None \<Rightarrow> (Inl ErrNotFound, s)
      | Some order \<Rightarrow>
        (case ValidateOrderTransition (o_Status order) status of
           Some err \<Rightarrow> (Inl err, s)
         | None \<Rightarrow> (Inr (), append_audit audit (put_order (e_OrderID source)
                      (compensated source status (a_CreatedAt audit) order) s))))"

subsection \<open>Outbox and metrics\<close>

definition MemoryStore_OutboxEvents :: "MemoryStore \<Rightarrow> OutboxEvent list" where
  "MemoryStore_OutboxEvents s = map WithEnvelopeDefaults (outbox s)"

definition MemoryStore_AuditLogs :: "MemoryStore \<Rightarrow> AuditLog list" where
  "MemoryStore_AuditLogs s = map cloneAuditLog (auditLogs s)"

definition outbox_lease :: duration where
  "outbox_lease = 30 * Second"

fun claim_events ::
    "time gomap \<Rightarrow> time \<Rightarrow> int \<Rightarrow> OutboxEvent list \<Rightarrow> time gomap \<Rightarrow> OutboxEvent list
     \<Rightarrow> OutboxEvent list \<times> time gomap" where
  "claim_events published now limit [] claimed events = (events, claimed)"
| "claim_events published now limit (event # rest) claimed events =
     (if mapget published (e_MessageID event) \<noteq> None
      then claim_events published now limit rest claimed events
      else if (case mapget claimed (e_MessageID event) of
                 Some claimedUntil \<Rightarrow> now < claimedUntil | None \<Rightarrow> False)
      then claim_events published now limit rest claimed events
      else
        (let claimed = mapset (e_MessageID event) (now + outbox_lease) claimed;
             events = events @ [WithEnvelopeDefaults event]
         in if int (length events) = limit then (events, claimed)
            else claim_events published now limit rest claimed events))"

definition MemoryStore_PendingOutboxEvents :: "time \<Rightarrow> int \<Rightarrow> OutboxEvent list store_op" where
  "MemoryStore_PendingOutboxEvents now limit s =
     (let limit = (if limit \<le> 0 then int (length (outbox s)) else limit);
          (events, claimed) =
            claim_events (publishedOutbox s) now limit (outbox s) (claimedOutbox s) []
      in (Inr events, s\<lparr>claimedOutbox := claimed\<rparr>))"

definition MemoryStore_PendingOutboxCount :: "MemoryStore \<Rightarrow> nat" where
  "MemoryStore_PendingOutboxCount s =
     foldl (\<lambda>count event. if mapget (publishedOutbox s) (e_MessageID event) = None
        then count + 1 else count) 0 (outbox s)"

fun oldest_pending :: "time gomap \<Rightarrow> OutboxEvent list \<Rightarrow> OutboxEvent option \<Rightarrow> OutboxEvent option" where
  "oldest_pending published [] oldest = oldest"
| "oldest_pending published (event # rest) oldest =
     (if mapget published (e_MessageID event) \<noteq> None then oldest_pending published rest oldest
      else oldest_pending published rest
        (case oldest of
           None \<Rightarrow> Some event
         | Some old \<Rightarrow> if e_OccurredAt event < e_OccurredAt old then Some event else Some old))"

text \<open>The age as a duration; the source converts it to floating-point seconds.\<close>

definition MemoryStore_OldestPendingOutboxAge :: "time \<Rightarrow> MemoryStore \<Rightarrow> duration" where
  "MemoryStore_OldestPendingOutboxAge now s =
     (case oldest_pending (publishedOutbox s) (outbox s) None of
        None \<Rightarrow> 0
      | Some oldest \<Rightarrow> now - e_OccurredAt oldest)"

definition count_of :: "(OrderStatus \<times> nat) list \<Rightarrow> OrderStatus \<Rightarrow> nat" where
  "count_of counts status = (case mapget counts status of Some n \<Rightarrow> n | None \<Rightarrow> 0)"

definition incr_status :: "(OrderStatus \<times> nat) list \<Rightarrow> Order \<Rightarrow> (OrderStatus \<times> nat) list" where
  "incr_status counts order = mapset (o_Status order) (count_of counts (o_Status order) + 1) counts"

definition MemoryStore_OrderStatusCounts :: "MemoryStore \<Rightarrow> (OrderStatus \<times> nat) list" where
  "MemoryStore_OrderStatusCounts s =
     (let counts = foldl (\<lambda>counts status. mapset status 0 counts) [] ValidOrderStatuses
      in foldl incr_status counts (map snd (orders s)))"

definition MemoryStore_MarkOutboxPublished :: "string \<Rightarrow> time \<Rightarrow> unit store_op" where
  "MemoryStore_MarkOutboxPublished messageID publishedAt s =
     (Inr (), s\<lparr>publishedOutbox := mapset messageID publishedAt (publishedOutbox s),
               claimedOutbox := mapdel messageID (claimedOutbox s)\<rparr>)"

text \<open>The store as the values of the three interfaces.\<close>

definition MemoryStore_Store :: "MemoryStore Store" where
  "MemoryStore_Store = \<lparr>st_InsertOrder = MemoryStore_InsertOrder,
     st_GetOrder = MemoryStore_GetOrder, st_GetShipment = MemoryStore_GetShipment,
     st_UpdateOrderStatus = MemoryStore_UpdateOrderStatus,
     st_OutboxEvents = MemoryStore_OutboxEvents, st_AuditLogs = MemoryStore_AuditLogs\<rparr>"

definition MemoryStore_Projector :: "MemoryStore Projector" where
  "MemoryStore_Projector = \<lparr>
     pj_RecordInventoryReserved = MemoryStore_RecordInventoryReserved,
     pj_RecordInventoryRejected = MemoryStore_RecordInventoryRejected,
     pj_RecordPaymentAuthorized = MemoryStore_RecordPaymentAuthorized,
     pj_RecordPaymentFailed = MemoryStore_RecordPaymentFailed,
     pj_RecordShipmentCreated = MemoryStore_RecordShipmentCreated,
     pj_RecordShipmentFailed = MemoryStore_RecordShipmentFailed,
     pj_RecordOrderCancelled = MemoryStore_RecordOrderCancelled,
     pj_RecordNotificationQueued = MemoryStore_RecordNotificationQueued,
     pj_RecordCompensation = MemoryStore_RecordCompensation\<rparr>"

definition MemoryStore_Outbox :: "MemoryStore OutboxSource" where
  "MemoryStore_Outbox = \<lparr>os_PendingOutboxEvents = MemoryStore_PendingOutboxEvents,
     os_MarkOutboxPublished = MemoryStore_MarkOutboxPublished\<rparr>"

subsection \<open>Invariant and view\<close>

text \<open>
  Well-formed stores: the order map has one entry per key, each order is stored under its
  own id with a valid status, both indexes point at stored orders, and every event of the
  outbox has a complete envelope.
\<close>

definition ms_inv :: "MemoryStore \<Rightarrow> bool" where
  "ms_inv s \<longleftrightarrow> distinct (map fst (orders s)) \<and>
     (\<forall>oid order. mapget (orders s) oid = Some order \<longrightarrow>
        o_OrderID order = oid \<and> IsValidOrderStatus (o_Status order)) \<and>
     (\<forall>k oid. mapget (ordersByIdempotency s) k = Some oid \<longrightarrow> mapget (orders s) oid \<noteq> None) \<and>
     (\<forall>k oid. mapget (ordersByExternal s) k = Some oid \<longrightarrow> mapget (orders s) oid \<noteq> None) \<and>
     list_all (\<lambda>e. WithEnvelopeDefaults e = e) (outbox s)"

definition ms_view :: "MemoryStore \<Rightarrow> ledger" where
  "ms_view s = \<lparr>lg_orders = mapget (orders s), lg_events = outbox s, lg_audits = auditLogs s\<rparr>"

definition ms_key_ref :: "MemoryStore \<Rightarrow> string \<Rightarrow> string \<Rightarrow> string option" where
  "ms_key_ref s m k = mapget (ordersByIdempotency s) (scopedKey m k)"

definition ms_ext_ref :: "MemoryStore \<Rightarrow> string \<Rightarrow> string \<Rightarrow> string option" where
  "ms_ext_ref s m x = mapget (ordersByExternal s) (scopedKey m x)"

lemma cloneOrder_id [simp]: "cloneOrder order = order"
  by (auto simp: cloneOrder_def split: option.splits)

lemma cloneShipmentRecord_id [simp]: "cloneShipmentRecord r = r"
  by (simp add: cloneShipmentRecord_def split: option.splits)

lemma cloneAuditLog_id [simp]: "cloneAuditLog log = log"
  by (simp add: cloneAuditLog_def)

lemma ms_view_simps [simp]:
  "lg_orders (ms_view s) = mapget (orders s)" "lg_events (ms_view s) = outbox s"
  "lg_audits (ms_view s) = auditLogs s"
  by (simp_all add: ms_view_def)

lemma ms_view_puts [store_simps]:
  "ms_view (append_audit a s) = (ms_view s)\<lparr>lg_audits := auditLogs s @ [a]\<rparr>"
  "ms_view (appendOutboxEvent e s) = (ms_view s)\<lparr>lg_events := outbox s @ [WithEnvelopeDefaults e]\<rparr>"
  "ms_view (put_order oid order s) = (ms_view s)\<lparr>lg_orders := (mapget (orders s))(oid \<mapsto> order)\<rparr>"
  "outbox (append_audit a s) = outbox s" "outbox (put_order oid order s) = outbox s"
  "outbox (appendOutboxEvent e s) = outbox s @ [WithEnvelopeDefaults e]"
  "auditLogs (appendOutboxEvent e s) = auditLogs s" "auditLogs (put_order oid order s) = auditLogs s"
  "auditLogs (append_audit a s) = auditLogs s @ [a]"
  "orders (append_audit a s) = orders s" "orders (appendOutboxEvent e s) = orders s"
  "orders (put_order oid order s) = mapset oid order (orders s)"
  by (simp_all add: ms_view_def append_audit_def appendOutboxEvent_def put_order_def update_conv')

lemma set_items_terms [simp]: "map item_terms (set_items status items) = map item_terms items"
  by (simp add: set_items_def item_terms_def)

lemma release_items_terms [simp]: "map item_terms (release_items items) = map item_terms items"
  by (simp add: release_items_def item_terms_def)

text \<open>The invariant through the primitive writes.\<close>

lemma NewMemoryStore_inv: "ms_inv NewMemoryStore"
  by (simp add: ms_inv_def NewMemoryStore_def)

lemma inv_append_audit [inv_intros]: "ms_inv s \<Longrightarrow> ms_inv (append_audit a s)"
  by (simp add: ms_inv_def append_audit_def)

lemma inv_appendOutboxEvent [inv_intros]: "ms_inv s \<Longrightarrow> ms_inv (appendOutboxEvent e s)"
  by (simp add: ms_inv_def appendOutboxEvent_def)

lemma inv_put_order [inv_intros]:
  "ms_inv s \<Longrightarrow> o_OrderID order = oid \<Longrightarrow> IsValidOrderStatus (o_Status order) \<Longrightarrow>
   ms_inv (put_order oid order s)"
  by (auto simp: ms_inv_def put_order_def distinct_update)

lemma inv_distinct: "ms_inv s \<Longrightarrow> distinct (map fst (orders s))"
  by (simp add: ms_inv_def)

lemma inv_order:
  "ms_inv s \<Longrightarrow> mapget (orders s) oid = Some order \<Longrightarrow>
   o_OrderID order = oid \<and> IsValidOrderStatus (o_Status order)"
  by (simp add: ms_inv_def)

subsection \<open>Every operation records one step or nothing\<close>

lemma record_event:
  assumes inv: "ms_inv s" and old: "mapget (orders s) oid = Some order"
    and terms: "same_terms order order'" and T: "T (o_Status order) (o_Status order')"
    and valid: "IsValidOrderStatus (o_Status order')" and key: "event_key nxt = event_key nxt'"
  shows "ms_inv (append_audit a (appendOutboxEvent nxt (put_order oid order' s))) \<and>
    outcome (Inr x) oid T [nxt'] a (ms_view s)
      (ms_view (append_audit a (appendOutboxEvent nxt (put_order oid order' s))))"
proof
  have "o_OrderID order' = oid"
    using terms inv_order [OF inv old] by (simp add: same_terms_def)
  then show "ms_inv (append_audit a (appendOutboxEvent nxt (put_order oid order' s)))"
    using inv valid by (intro inv_intros)
  show "outcome (Inr x) oid T [nxt'] a (ms_view s)
      (ms_view (append_audit a (appendOutboxEvent nxt (put_order oid order' s))))"
    unfolding outcome_simps recorded_def using old terms T key
    by (auto simp: store_simps intro!: exI [of _ "[WithEnvelopeDefaults nxt]"])
qed

lemma record_silent:
  assumes inv: "ms_inv s" and old: "mapget (orders s) oid = Some order"
    and terms: "same_terms order order'" and T: "T (o_Status order) (o_Status order')"
    and valid: "IsValidOrderStatus (o_Status order')"
  shows "ms_inv (append_audit a (put_order oid order' s)) \<and>
    outcome (Inr x) oid T [] a (ms_view s) (ms_view (append_audit a (put_order oid order' s)))"
proof
  have "o_OrderID order' = oid"
    using terms inv_order [OF inv old] by (simp add: same_terms_def)
  then show "ms_inv (append_audit a (put_order oid order' s))"
    using inv valid by (intro inv_intros)
  show "outcome (Inr x) oid T [] a (ms_view s) (ms_view (append_audit a (put_order oid order' s)))"
    unfolding outcome_simps recorded_def using old terms T by (auto simp: store_simps)
qed

text \<open>The two shapes of the operations: guarded by a transition, or unguarded.\<close>

lemma guarded_outcome:
  assumes "ms_inv s"
    and "(case mapget (orders s) oid of None \<Rightarrow> (Inl ErrNotFound, s)
          | Some order \<Rightarrow> (case ValidateOrderTransition (o_Status order) status of
               Some err \<Rightarrow> (Inl err, s)
             | None \<Rightarrow> (Inr (x order),
                 append_audit a (appendOutboxEvent (n order) (put_order oid (f order) s))))) = (r, s')"
    and "\<And>order. same_terms order (f order)" "\<And>order. o_Status (f order) = status"
    and "\<And>order. event_key (n order) = event_key nxt"
  shows "ms_inv s' \<and> outcome r oid (moves_to status) [nxt] a (ms_view s) (ms_view s')"
proof (cases "mapget (orders s) oid")
  case None
  with assms(1,2) show ?thesis by auto
next
  case (Some order)
  show ?thesis
  proof (cases "ValidateOrderTransition (o_Status order) status")
    case None
    then have t: "CanTransitionOrderStatus (o_Status order) status" by simp
    have "ms_inv s \<and> moves_to status (o_Status order) (o_Status (f order)) \<and>
        IsValidOrderStatus (o_Status (f order))"
      using t assms(1,4) CanTransition_valid [OF t] by (simp add: moves_to_def)
    with record_event [of s oid order "f order" "moves_to status" "n order" nxt a "x order"]
    show ?thesis using assms(2,3,5) Some None by auto
  next
    case (Some err)
    with \<open>mapget (orders s) oid = Some order\<close> assms(1,2) show ?thesis
      by auto
  qed
qed

lemma unguarded_outcome:
  assumes "ms_inv s"
    and "(case mapget (orders s) oid of None \<Rightarrow> (Inl ErrNotFound, s)
          | Some order \<Rightarrow> (Inr (x order),
                 append_audit a (appendOutboxEvent (n order) (put_order oid (f order) s)))) = (r, s')"
    and "\<And>order. same_terms order (f order)" "\<And>order. o_Status (f order) = o_Status order"
    and "\<And>order. event_key (n order) = event_key nxt"
  shows "ms_inv s' \<and> outcome r oid keeps [nxt] a (ms_view s) (ms_view s')"
proof (cases "mapget (orders s) oid")
  case None
  with assms(1,2) show ?thesis by auto
next
  case (Some order)
  with assms(1,4) inv_order [OF assms(1) Some]
    record_event [of s oid order "f order" keeps "n order" nxt a "x order"]
  show ?thesis using assms(2,3,5) by (auto simp: keeps_def)
qed

lemma UpdateOrderStatus_outcome:
  assumes "ms_inv s" "MemoryStore_UpdateOrderStatus oid status now event audit s = (r, s')"
  shows "ms_inv s' \<and> outcome r oid (moves_to status) [event] audit (ms_view s) (ms_view s')"
  using assms unfolding MemoryStore_UpdateOrderStatus_def Let_def
  by (rule guarded_outcome) (simp_all add: same_terms_def)

lemma RecordInventoryReserved_outcome:
  assumes "ms_inv s" "MemoryStore_RecordInventoryReserved source nxt audit s = (r, s')"
  shows "ms_inv s' \<and> outcome r (e_OrderID source) (moves_to StatusInventoryReserved) [nxt] audit
    (ms_view s) (ms_view s')"
  using assms unfolding MemoryStore_RecordInventoryReserved_def Let_def
  by (rule guarded_outcome) (simp_all add: same_terms_def)

lemma RecordInventoryRejected_outcome:
  assumes "ms_inv s" "MemoryStore_RecordInventoryRejected source nxt audit s = (r, s')"
  shows "ms_inv s' \<and> outcome r (e_OrderID source) keeps [nxt] audit (ms_view s) (ms_view s')"
  using assms unfolding MemoryStore_RecordInventoryRejected_def Let_def
  by (rule unguarded_outcome) (simp_all add: same_terms_def)

lemma RecordPaymentAuthorized_outcome:
  assumes "ms_inv s" "MemoryStore_RecordPaymentAuthorized source nxt payment audit s = (r, s')"
  shows "ms_inv s' \<and> outcome r (e_OrderID source) (moves_to StatusPaymentAuthorized) [nxt] audit
    (ms_view s) (ms_view s')"
  using assms unfolding MemoryStore_RecordPaymentAuthorized_def Let_def
  by (rule guarded_outcome) (simp_all add: same_terms_def)

lemma RecordPaymentFailed_outcome:
  assumes "ms_inv s" "MemoryStore_RecordPaymentFailed source nxt audit s = (r, s')"
  shows "ms_inv s' \<and> outcome r (e_OrderID source) keeps [nxt] audit (ms_view s) (ms_view s')"
  using assms unfolding MemoryStore_RecordPaymentFailed_def Let_def
  by (rule unguarded_outcome) (simp_all add: same_terms_def)

lemma RecordShipmentCreated_outcome:
  assumes "ms_inv s" "MemoryStore_RecordShipmentCreated source nxt shipment audit s = (r, s')"
  shows "ms_inv s' \<and> outcome r (e_OrderID source) (moves_to StatusShipmentCreated) [nxt] audit
    (ms_view s) (ms_view s')"
  using assms unfolding MemoryStore_RecordShipmentCreated_def Let_def
  by (rule guarded_outcome) (simp_all add: same_terms_def)

lemma RecordShipmentFailed_outcome:
  assumes "ms_inv s" "MemoryStore_RecordShipmentFailed source nxt audit s = (r, s')"
  shows "ms_inv s' \<and> outcome r (e_OrderID source) keeps [nxt] audit (ms_view s) (ms_view s')"
  using assms unfolding MemoryStore_RecordShipmentFailed_def Let_def
  by (rule unguarded_outcome) (simp_all add: same_terms_def)

lemma RecordOrderCancelled_outcome:
  assumes "ms_inv s" "MemoryStore_RecordOrderCancelled source nxt audit s = (r, s')"
  shows "ms_inv s' \<and> outcome r (e_OrderID source) (moves_to StatusCancelled) [nxt] audit
    (ms_view s) (ms_view s')"
  using assms unfolding MemoryStore_RecordOrderCancelled_def Let_def
  by (rule guarded_outcome) (simp_all add: same_terms_def)

lemma RecordNotificationQueued_outcome:
  assumes "ms_inv s" "MemoryStore_RecordNotificationQueued source audit s = (r, s')"
  shows "ms_inv s' \<and> outcome r (e_OrderID source) keeps [] audit (ms_view s) (ms_view s')"
proof (cases "mapget (orders s) (e_OrderID source)")
  case None
  with assms show ?thesis by (auto simp: MemoryStore_RecordNotificationQueued_def)
next
  case (Some order)
  then have "r = Inr ()" "s' = append_audit audit s"
    using assms(2) by (simp_all add: MemoryStore_RecordNotificationQueued_def)
  then show ?thesis
    using assms(1) Some
    by (auto simp: recorded_def keeps_def store_simps map_upd_triv
        intro!: inv_intros exI [of _ order])
qed

lemma compensated_terms [simp]:
  "same_terms order (compensated source status at order)"
  "o_Status (compensated source status at order) = status"
  by (simp_all add: compensated_def same_terms_def Let_def)

lemma RecordCompensation_outcome:
  assumes "ms_inv s" "MemoryStore_RecordCompensation source status audit s = (r, s')"
  shows "ms_inv s' \<and> outcome r (e_OrderID source) (moves_to status) [] audit (ms_view s) (ms_view s')"
proof (cases "mapget (orders s) (e_OrderID source)")
  case None
  with assms show ?thesis by (auto simp: MemoryStore_RecordCompensation_def)
next
  case (Some order)
  note found = Some
  show ?thesis
  proof (cases "ValidateOrderTransition (o_Status order) status")
    case None
    then have t: "CanTransitionOrderStatus (o_Status order) status" by simp
    have "r = Inr ()" "s' = append_audit audit (put_order (e_OrderID source)
        (compensated source status (a_CreatedAt audit) order) s)"
      using assms(2) found None by (simp_all add: MemoryStore_RecordCompensation_def)
    with record_silent [OF assms(1) found compensated_terms(1), of "moves_to status"]
      t CanTransition_valid [OF t] show ?thesis by (simp add: moves_to_def)
  next
    case (Some err)
    with found assms show ?thesis by (auto simp: MemoryStore_RecordCompensation_def)
  qed
qed

lemma InsertOrder_replay:
  assumes "ms_inv s" "ms_key_ref s m k = Some oid"
  shows "\<exists>old. mapget (orders s) oid = Some old \<and>
    MemoryStore_InsertOrder m k order event audit s = (Inr (Some old, True), s)"
  using assms by (auto simp: ms_inv_def ms_key_ref_def MemoryStore_InsertOrder_def)

lemma InsertOrder_duplicate:
  assumes "ms_key_ref s m k = None" "ms_ext_ref s m (o_ExternalOrderID order) = Some oid"
  shows "MemoryStore_InsertOrder m k order event audit s = (Inl ErrDuplicateOrder, s)"
  using assms by (simp add: ms_key_ref_def ms_ext_ref_def MemoryStore_InsertOrder_def Let_def)

lemma InsertOrder_kept:
  "\<not> (ms_key_ref s m k = None \<and> ms_ext_ref s m (o_ExternalOrderID order) = None) \<Longrightarrow>
   snd (MemoryStore_InsertOrder m k order event audit s) = s"
  by (auto simp: MemoryStore_InsertOrder_def ms_key_ref_def ms_ext_ref_def Let_def split: option.splits)

text \<open>The state an insertion leaves.\<close>

definition inserted :: "string \<Rightarrow> string \<Rightarrow> Order \<Rightarrow> OutboxEvent \<Rightarrow> AuditLog \<Rightarrow> MemoryStore \<Rightarrow> MemoryStore" where
  "inserted m k order event audit s =
     s\<lparr>orders := mapset (o_OrderID order) order (orders s),
       ordersByExternal := mapset (scopedKey m (o_ExternalOrderID order)) (o_OrderID order) (ordersByExternal s),
       ordersByIdempotency := mapset (scopedKey m k) (o_OrderID order) (ordersByIdempotency s),
       outbox := outbox s @ [WithEnvelopeDefaults event], auditLogs := auditLogs s @ [audit]\<rparr>"

lemma InsertOrder_new:
  assumes "ms_key_ref s m k = None" "ms_ext_ref s m (o_ExternalOrderID order) = None"
  shows "MemoryStore_InsertOrder m k order event audit s =
    (Inr (Some order, False), inserted m k order event audit s)"
  using assms by (simp add: ms_key_ref_def ms_ext_ref_def MemoryStore_InsertOrder_def inserted_def
      put_order_def append_audit_def appendOutboxEvent_def Let_def)

lemma inserted_inv:
  assumes "ms_inv s" "IsValidOrderStatus (o_Status order)"
  shows "ms_inv (inserted m k order event audit s)"
  using assms by (auto simp: ms_inv_def inserted_def)

lemma inserted_view:
  "ms_view (inserted m k order event audit s) = insert_ledger order event audit (ms_view s)"
  "ms_key_ref (inserted m k order event audit s) m k = Some (o_OrderID order)"
  "ms_ext_ref (inserted m k order event audit s) m (o_ExternalOrderID order) = Some (o_OrderID order)"
  by (auto simp: inserted_def insert_ledger_def ms_view_def ms_key_ref_def ms_ext_ref_def)

subsection \<open>The contracts hold\<close>

text \<open>The in-memory store holds everything it is given.\<close>

definition ms_storable :: "MemoryStore \<Rightarrow> string \<Rightarrow> string \<Rightarrow> Order \<Rightarrow> OutboxEvent \<Rightarrow> AuditLog \<Rightarrow> bool" where
  "ms_storable s m k order event audit \<longleftrightarrow> True"

definition ms_appendable :: "MemoryStore \<Rightarrow> OutboxEvent \<Rightarrow> AuditLog \<Rightarrow> bool" where
  "ms_appendable s event audit \<longleftrightarrow> True"

lemma ms_accepts [simp]: "ms_storable s m k order event audit" "ms_appendable s event audit"
  by (simp_all add: ms_storable_def ms_appendable_def)

lemma InsertOrder_fresh:
  assumes "ms_inv s" "ms_key_ref s m k = None" "IsValidOrderStatus (o_Status order)"
    and "MemoryStore_InsertOrder m k order event audit s = (r, s')"
  shows "ms_inv s' \<and> (case r of Inl _ \<Rightarrow> ms_view s' = ms_view s
    | Inr result \<Rightarrow> result = (Some order, False) \<and> stored order event audit (ms_view s) (ms_view s') \<and>
        ms_key_ref s' m k = Some (o_OrderID order))"
proof (cases "ms_ext_ref s m (o_ExternalOrderID order)")
  case None
  from InsertOrder_new [OF assms(2) None] assms(4)
  have "r = Inr (Some order, False)" "s' = inserted m k order event audit s" by auto
  with assms(1,3) show ?thesis by (simp add: inserted_inv inserted_view insert_ledger_stored)
next
  case (Some oid)
  from InsertOrder_duplicate [OF assms(2) Some] assms(4) have "r = Inl ErrDuplicateOrder" "s' = s" by auto
  with assms(1) show ?thesis by simp
qed

interpretation ms: order_store MemoryStore_Store ms_inv ms_view ms_key_ref ms_ext_ref ms_storable ms_appendable
proof
  fix s oid order and m k :: string and event audit status now r s' r3
  show "ms_inv s \<Longrightarrow> st_GetOrder MemoryStore_Store oid s =
      (case lg_orders (ms_view s) oid of None \<Rightarrow> Inl ErrNotFound | Some order \<Rightarrow> Inr order)"
    by (simp add: MemoryStore_Store_def MemoryStore_GetOrder_def split: option.splits)
  show "ms_inv s \<Longrightarrow> lg_orders (ms_view s) oid = Some order \<Longrightarrow>
      IsValidOrderStatus (o_Status order) \<and> o_OrderID order = oid"
    by (simp add: ms_inv_def)
  show "ms_inv s \<Longrightarrow> ms_key_ref s m k = Some oid \<Longrightarrow>
      \<exists>old. lg_orders (ms_view s) oid = Some old \<and>
        st_InsertOrder MemoryStore_Store m k order event audit s = (Inr (Some old, True), s)"
    using InsertOrder_replay by (simp add: MemoryStore_Store_def)
  show "ms_inv s \<Longrightarrow> ms_key_ref s m k = None \<Longrightarrow> lg_orders (ms_view s) (o_OrderID order) = None \<Longrightarrow>
      o_MerchantID order = m \<Longrightarrow> IsValidOrderStatus (o_Status order) \<Longrightarrow>
      st_InsertOrder MemoryStore_Store m k order event audit s = (r3, s') \<Longrightarrow>
      ms_inv s' \<and> (case r3 of Inl _ \<Rightarrow> ms_view s' = ms_view s
        | Inr result \<Rightarrow> result = (Some order, False) \<and> stored order event audit (ms_view s) (ms_view s') \<and>
            ms_key_ref s' m k = Some (o_OrderID order))"
    using InsertOrder_fresh by (simp add: MemoryStore_Store_def)
  show "ms_inv s \<Longrightarrow> ms_key_ref s m k = None \<Longrightarrow> ms_ext_ref s m (o_ExternalOrderID order) = Some oid \<Longrightarrow>
      ms_storable s m k order event audit \<Longrightarrow>
      st_InsertOrder MemoryStore_Store m k order event audit s = (Inl ErrDuplicateOrder, s)"
    by (simp add: MemoryStore_Store_def InsertOrder_duplicate)
  show "ms_inv s \<Longrightarrow> ms_key_ref s m k = None \<Longrightarrow> ms_ext_ref s m (o_ExternalOrderID order) = None \<Longrightarrow>
      lg_orders (ms_view s) (o_OrderID order) = None \<Longrightarrow> o_MerchantID order = m \<Longrightarrow>
      IsValidOrderStatus (o_Status order) \<Longrightarrow> ms_storable s m k order event audit \<Longrightarrow>
      \<exists>s'. st_InsertOrder MemoryStore_Store m k order event audit s = (Inr (Some order, False), s') \<and>
        ms_inv s' \<and> ms_view s' = insert_ledger order event audit (ms_view s) \<and>
        ms_key_ref s' m k = Some (o_OrderID order) \<and>
        ms_ext_ref s' m (o_ExternalOrderID order) = Some (o_OrderID order)"
    by (simp add: MemoryStore_Store_def InsertOrder_new inserted_inv inserted_view)
  show "ms_inv s \<Longrightarrow> st_UpdateOrderStatus MemoryStore_Store oid status now event audit s = (r, s') \<Longrightarrow>
      ms_inv s' \<and> outcome r oid (moves_to status) [event] audit (ms_view s) (ms_view s')"
    using UpdateOrderStatus_outcome by (simp add: MemoryStore_Store_def)
  show "ms_inv s \<Longrightarrow> lg_orders (ms_view s) oid = Some order \<Longrightarrow>
      CanTransitionOrderStatus (o_Status order) status \<Longrightarrow> ms_appendable s event audit \<Longrightarrow> e_OrderID event = oid \<Longrightarrow>
      ok (fst (st_UpdateOrderStatus MemoryStore_Store oid status now event audit s))"
    by (simp add: MemoryStore_Store_def MemoryStore_UpdateOrderStatus_def Let_def)
qed

interpretation ms: projector MemoryStore_Store ms_inv ms_view ms_key_ref ms_ext_ref ms_storable ms_appendable
  MemoryStore_Projector
  by (unfold_locales; simp only: MemoryStore_Projector_def Projector.simps;
      (erule (1) RecordInventoryReserved_outcome | erule (1) RecordInventoryRejected_outcome
       | erule (1) RecordPaymentAuthorized_outcome | erule (1) RecordPaymentFailed_outcome
       | erule (1) RecordShipmentCreated_outcome | erule (1) RecordShipmentFailed_outcome
       | erule (1) RecordOrderCancelled_outcome | erule (1) RecordNotificationQueued_outcome
       | erule (1) RecordCompensation_outcome))

text \<open>
  Merchants are kept apart by the scoped keys, as long as their ids have no colon: every
  entry of the idempotency index was made for the merchant of the order it names.
\<close>

definition colon_free :: "string \<Rightarrow> bool" where
  "colon_free m \<longleftrightarrow> CHR '':'' \<notin> set m"

definition ms_scoped :: "MemoryStore \<Rightarrow> bool" where
  "ms_scoped s \<longleftrightarrow> (\<forall>k oid. mapget (ordersByIdempotency s) k = Some oid \<longrightarrow>
     (\<exists>order v. mapget (orders s) oid = Some order \<and> colon_free (o_MerchantID order) \<and>
        k = scopedKey (o_MerchantID order) v))"

lemma scopedKey_inj:
  assumes "CHR '':'' \<notin> set m" "CHR '':'' \<notin> set m'" "scopedKey m v = scopedKey m' v'"
  shows "m = m' \<and> v = v'"
  using assms split_at_first [of "CHR '':''" m m' v v'] by (simp add: scopedKey_def)

lemma find_shipment_Some:
  "find_shipment sid os = Some r \<Longrightarrow> \<exists>oid order shipment. (oid, order) \<in> set os \<and>
     o_Shipment order = Some shipment \<and> s_ShipmentID shipment = sid \<and> shipmentRecordFromOrder order = Some r"
  by (induction sid os rule: find_shipment.induct) (auto split: option.splits if_splits)

lemma ms_scoped_owner:
  assumes "ms_scoped s" "colon_free m" "ms_key_ref s m k = Some oid" "mapget (orders s) oid = Some order"
  shows "o_MerchantID order = m"
proof -
  from assms obtain v where "colon_free (o_MerchantID order)" "scopedKey m k = scopedKey (o_MerchantID order) v"
    unfolding ms_scoped_def ms_key_ref_def by fastforce
  with assms(2) scopedKey_inj [of m "o_MerchantID order" k v] show ?thesis by (simp add: colon_free_def)
qed

lemma ms_scopedD:
  "ms_scoped s \<Longrightarrow> mapget (ordersByIdempotency s) k = Some oid \<Longrightarrow>
   \<exists>order v. mapget (orders s) oid = Some order \<and> colon_free (o_MerchantID order) \<and>
     k = scopedKey (o_MerchantID order) v"
  by (simp add: ms_scoped_def)

lemma ms_scoped_inserted:
  assumes "ms_scoped s" "colon_free (o_MerchantID order)" "mapget (orders s) (o_OrderID order) = None"
  shows "ms_scoped (inserted (o_MerchantID order) k order event audit s)"
  unfolding ms_scoped_def
proof (intro allI impI)
  fix k' oid
  assume h: "mapget (ordersByIdempotency (inserted (o_MerchantID order) k order event audit s)) k' = Some oid"
  show "\<exists>ord v. mapget (orders (inserted (o_MerchantID order) k order event audit s)) oid = Some ord \<and>
      colon_free (o_MerchantID ord) \<and> k' = scopedKey (o_MerchantID ord) v"
  proof (cases "k' = scopedKey (o_MerchantID order) k")
    case True
    with h assms(2) show ?thesis by (auto simp: inserted_def)
  next
    case False
    with h have "mapget (ordersByIdempotency s) k' = Some oid" by (simp add: inserted_def)
    from ms_scopedD [OF assms(1) this] obtain ord v where "mapget (orders s) oid = Some ord"
      "colon_free (o_MerchantID ord)" "k' = scopedKey (o_MerchantID ord) v" by blast
    with assms(3) show ?thesis by (intro exI [of _ ord] exI [of _ v]) (auto simp: inserted_def)
  qed
qed

lemma ms_scoped_update:
  assumes "ms_scoped s" "MemoryStore_UpdateOrderStatus oid status now event audit s = (r, s')"
  shows "ms_scoped s'"
proof -
  have idx: "ordersByIdempotency s' = ordersByIdempotency s"
    and kept: "\<And>i ord. mapget (orders s) i = Some ord \<Longrightarrow>
      \<exists>ord'. mapget (orders s') i = Some ord' \<and> o_MerchantID ord' = o_MerchantID ord"
    using assms(2) by (auto simp: MemoryStore_UpdateOrderStatus_def Let_def put_order_def
        append_audit_def appendOutboxEvent_def split: option.splits)
  show ?thesis unfolding ms_scoped_def idx
    using ms_scopedD [OF assms(1)] kept by metis
qed

interpretation ms: tenant_store MemoryStore_Store ms_inv ms_view ms_key_ref ms_ext_ref ms_storable ms_appendable
  ms_scoped colon_free
proof
  fix s oid and order :: Order and m k :: string and event audit status now s' sid and shipment :: ShipmentRecord
    and r :: "error + Order" and r3 :: "error + Order option \<times> bool"
  show "o_MerchantID order = m" if "ms_scoped s" "colon_free m" "ms_key_ref s m k = Some oid"
    "lg_orders (ms_view s) oid = Some order"
    using that ms_scoped_owner by simp
  show "ms_scoped s'" if h: "ms_inv s" "ms_scoped s" "colon_free m" "o_MerchantID order = m"
    "lg_orders (ms_view s) (o_OrderID order) = None"
    "st_InsertOrder MemoryStore_Store m k order event audit s = (r3, s')"
  proof (cases "ms_key_ref s m k = None \<and> ms_ext_ref s m (o_ExternalOrderID order) = None")
    case True
    with h InsertOrder_new [of s m k order event audit] ms_scoped_inserted [of s order k event audit]
    show ?thesis by (simp add: MemoryStore_Store_def)
  next
    case False
    with InsertOrder_kept [of s m k order event audit] h(2,6) show ?thesis by (auto simp: MemoryStore_Store_def)
  qed
  show "ms_scoped s'" if "ms_scoped s" "st_UpdateOrderStatus MemoryStore_Store oid status now event audit s = (r, s')"
    using that ms_scoped_update by (simp add: MemoryStore_Store_def)
  show "\<exists>order. lg_orders (ms_view s) (sr_OrderID shipment) = Some order \<and> o_MerchantID order = sr_MerchantID shipment"
    if h: "ms_inv s" "st_GetShipment MemoryStore_Store sid s = Inr shipment"
  proof -
    from h(2) obtain i ord where i: "(i, ord) \<in> set (orders s)" "shipmentRecordFromOrder ord = Some shipment"
      using find_shipment_Some [of sid "orders s" shipment]
      by (auto simp: MemoryStore_Store_def MemoryStore_GetShipment_def split: option.splits)
    with h(1) have "mapget (orders s) i = Some ord" using mapget_entry [OF inv_distinct] by blast
    with i(2) inv_order [OF h(1)] show ?thesis
      by (auto simp: shipmentRecordFromOrder_def split: option.splits)
  qed
  show "lg_orders (ms_view s') oid = Some order"
    if "st_UpdateOrderStatus MemoryStore_Store oid status now event audit s = (Inr order, s')"
    using that by (auto simp: MemoryStore_Store_def MemoryStore_UpdateOrderStatus_def Let_def put_order_def
        append_audit_def appendOutboxEvent_def split: option.splits)
qed

subsection \<open>The outbox\<close>

text \<open>
  Reference selection: the events that are neither published nor leased, in outbox order,
  at most one per message id.
\<close>

definition eligible :: "time gomap \<Rightarrow> time gomap \<Rightarrow> time \<Rightarrow> OutboxEvent \<Rightarrow> bool" where
  "eligible published claimed now e \<longleftrightarrow> mapget published (e_MessageID e) = None \<and>
     (case mapget claimed (e_MessageID e) of Some until \<Rightarrow> until \<le> now | None \<Rightarrow> True)"

fun picks :: "(OutboxEvent \<Rightarrow> bool) \<Rightarrow> string list \<Rightarrow> OutboxEvent list \<Rightarrow> OutboxEvent list" where
  "picks good seen [] = []"
| "picks good seen (e # es) =
     (if good e \<and> e_MessageID e \<notin> set seen then e # picks good (e_MessageID e # seen) es
      else picks good seen es)"

lemma picks_props:
  "e \<in> set (picks good seen es) \<Longrightarrow> e \<in> set es \<and> good e \<and> e_MessageID e \<notin> set seen"
  by (induction es arbitrary: seen) (fastforce split: if_splits)+

lemma picks_distinct: "distinct (map e_MessageID (picks good seen es))"
  by (induction es arbitrary: seen) (auto dest: picks_props)

lemma picks_complete:
  "e \<in> set es \<Longrightarrow> good e \<Longrightarrow> e_MessageID e \<notin> set seen \<Longrightarrow>
   e_MessageID e \<in> e_MessageID ` set (picks good seen es)"
proof (induction es arbitrary: seen)
  case (Cons x es)
  then show ?case by (cases "e_MessageID e = e_MessageID x") auto
qed simp

lemma picks_subset: "set (picks good seen es) \<subseteq> set es"
  using picks_props by blast

lemma length_picks: "length (picks good seen es) \<le> length es"
  by (induction es arbitrary: seen) (auto intro: le_SucI)

lemma outbox_lease_pos [simp]: "0 < outbox_lease"
  by (simp add: outbox_lease_def)

lemma claim_events_picks:
  fixes claimed0 published :: "time gomap"
  assumes "int (length acc) < limit"
    and "\<And>m. mapget claimed m = (if m \<in> set seen then Some (now + outbox_lease) else mapget claimed0 m)"
  defines "good \<equiv> eligible published claimed0 now"
  shows "claim_events published now limit es claimed acc = (acc', claimed') \<Longrightarrow>
    \<exists>xs. xs = take (nat (limit - int (length acc))) (picks good seen es) \<and>
      acc' = acc @ map WithEnvelopeDefaults xs \<and>
      (\<forall>m. mapget claimed' m = (if m \<in> set seen \<or> m \<in> e_MessageID ` set xs
         then Some (now + outbox_lease) else mapget claimed0 m))"
  using assms(1,2)
proof (induction es arbitrary: claimed acc seen)
  case Nil
  then show ?case by auto
next
  case (Cons e es)
  let ?id = "e_MessageID e"
  show ?case
  proof (cases "good e \<and> ?id \<notin> set seen")
    case True
    let ?c = "mapset ?id (now + outbox_lease) claimed" and ?a = "acc @ [WithEnvelopeDefaults e]"
    have pick: "picks good seen (e # es) = e # picks good (?id # seen) es" using True by simp
    have go: "claim_events published now limit (e # es) claimed acc =
        (if int (length ?a) = limit then (?a, ?c) else claim_events published now limit es ?c ?a)"
      using True Cons.prems(3)
      by (auto simp: good_def eligible_def Let_def split: option.splits)
    have n: "nat (limit - int (length acc)) = Suc (nat (limit - int (length ?a)))"
      using Cons.prems(2) by simp
    have c: "\<And>m. mapget ?c m = (if m \<in> set (?id # seen) then Some (now + outbox_lease) else mapget claimed0 m)"
      using Cons.prems(3) by simp
    show ?thesis
    proof (cases "int (length ?a) = limit")
      case True
      with Cons.prems(1) go pick n show ?thesis using c by auto
    next
      case False
      with Cons.prems(1,2) go have "claim_events published now limit es ?c ?a = (acc', claimed')"
        "int (length ?a) < limit" by simp_all
      from Cons.IH [OF this c] pick n show ?thesis by auto
    qed
  next
    case False
    then have pick: "picks good seen (e # es) = picks good seen es" by auto
    have "claim_events published now limit (e # es) claimed acc = claim_events published now limit es claimed acc"
      using False Cons.prems(3)
      by (auto simp: good_def eligible_def split: option.splits)
    with Cons.prems Cons.IH [of claimed acc seen] pick show ?thesis by simp
  qed
qed

definition batch :: "time \<Rightarrow> int \<Rightarrow> MemoryStore \<Rightarrow> OutboxEvent list" where
  "batch now limit s =
     (let all = picks (eligible (publishedOutbox s) (claimedOutbox s) now) [] (outbox s)
      in if limit \<le> 0 then all else take (nat limit) all)"

lemma PendingOutboxEvents_batch:
  "\<exists>claimed. MemoryStore_PendingOutboxEvents now limit s =
     (Inr (map WithEnvelopeDefaults (batch now limit s)), s\<lparr>claimedOutbox := claimed\<rparr>) \<and>
   (\<forall>m. mapget claimed m = (if m \<in> e_MessageID ` set (batch now limit s)
      then Some (now + outbox_lease) else mapget (claimedOutbox s) m))"
proof -
  let ?limit = "if limit \<le> 0 then int (length (outbox s)) else limit"
  obtain evs claimed where c: "claim_events (publishedOutbox s) now ?limit (outbox s) (claimedOutbox s) [] =
      (evs, claimed)" by (cases "claim_events (publishedOutbox s) now ?limit (outbox s) (claimedOutbox s) []")
  have "evs = map WithEnvelopeDefaults (batch now limit s) \<and>
      (\<forall>m. mapget claimed m = (if m \<in> e_MessageID ` set (batch now limit s)
        then Some (now + outbox_lease) else mapget (claimedOutbox s) m))"
  proof (cases "0 < ?limit")
    case True
    let ?all = "picks (eligible (publishedOutbox s) (claimedOutbox s) now) [] (outbox s)"
    have b: "batch now limit s = take (nat (?limit - int (length ([] :: OutboxEvent list)))) ?all"
      using length_picks [of _ "[]" "outbox s"] by (simp add: batch_def Let_def)
    have "int (length ([] :: OutboxEvent list)) < ?limit" using True by simp
    from claim_events_picks [OF this _ c, of "[]" "claimedOutbox s", folded b] show ?thesis
      by simp
  next
    case False
    then have "outbox s = []" by (auto split: if_splits)
    with c show ?thesis by (simp add: batch_def)
  qed
  with c show ?thesis by (auto simp: MemoryStore_PendingOutboxEvents_def)
qed

lemma batch_subset:
  "set (batch now limit s) \<subseteq> set (picks (eligible (publishedOutbox s) (claimedOutbox s) now) [] (outbox s))"
  by (auto simp: batch_def Let_def dest: in_set_takeD)

lemma batch_props:
  "e \<in> set (batch now limit s) \<Longrightarrow>
   e \<in> set (outbox s) \<and> eligible (publishedOutbox s) (claimedOutbox s) now e"
  using picks_props batch_subset by (metis subsetD)

lemma batch_distinct: "distinct (map e_MessageID (batch now limit s))"
  using picks_distinct [of _ "[]" "outbox s"]
  by (simp only: batch_def Let_def distinct_take [of _ "nat limit"] take_map [symmetric] split: if_split)
    blast

lemma batch_length: "0 < limit \<Longrightarrow> int (length (batch now limit s)) \<le> limit"
  by (simp add: batch_def Let_def)

lemma batch_complete:
  "0 < limit \<and> int (length (batch now limit s)) = limit \<or>
   e_MessageID ` {e \<in> set (outbox s). eligible (publishedOutbox s) (claimedOutbox s) now e} =
   e_MessageID ` set (batch now limit s)"
proof (cases "0 < limit \<and> int (length (batch now limit s)) = limit")
  case False
  let ?good = "eligible (publishedOutbox s) (claimedOutbox s) now"
  have b: "batch now limit s = picks ?good [] (outbox s)"
    using False by (auto simp: batch_def Let_def split: if_splits)
  have "e_MessageID e \<in> e_MessageID ` set (picks ?good [] (outbox s))"
    if "e \<in> set (outbox s)" "?good e" for e
    using picks_complete [of e "outbox s" ?good "[]"] that by simp
  then show ?thesis using picks_props [of _ ?good "[]" "outbox s"] b by (auto 0 3)
qed simp

interpretation ms: outbox_source MemoryStore_Outbox "\<lambda>_. True" outbox
  "\<lambda>s. {mid. mapget (publishedOutbox s) mid \<noteq> None}"
proof
  fix now limit s r s' e es mid at r2
  obtain claimed where p: "MemoryStore_PendingOutboxEvents now limit s =
     (Inr (map WithEnvelopeDefaults (batch now limit s)), s\<lparr>claimedOutbox := claimed\<rparr>)"
    using PendingOutboxEvents_batch by blast
  show "os_PendingOutboxEvents MemoryStore_Outbox now limit s = (r, s') \<Longrightarrow>
      True \<and> outbox s' = outbox s \<and> {mid. mapget (publishedOutbox s') mid \<noteq> None} =
      {mid. mapget (publishedOutbox s) mid \<noteq> None}"
    using p by (auto simp: MemoryStore_Outbox_def)
  show "os_PendingOutboxEvents MemoryStore_Outbox now limit s = (Inr es, s') \<Longrightarrow> e \<in> set es \<Longrightarrow>
      e \<in> WithEnvelopeDefaults ` set (outbox s) \<and>
      e_MessageID e \<notin> {mid. mapget (publishedOutbox s) mid \<noteq> None}"
    using p by (auto simp: MemoryStore_Outbox_def eligible_def dest!: batch_props)
  show "os_MarkOutboxPublished MemoryStore_Outbox mid at s = (r2, s') \<Longrightarrow>
      True \<and> outbox s' = outbox s \<and> {mid. mapget (publishedOutbox s') mid \<noteq> None} \<in>
        {{mid. mapget (publishedOutbox s) mid \<noteq> None}, insert mid {mid. mapget (publishedOutbox s) mid \<noteq> None}} \<and>
      (ok r2 \<longrightarrow> {mid. mapget (publishedOutbox s') mid \<noteq> None} =
        insert mid {mid. mapget (publishedOutbox s) mid \<noteq> None})"
    by (auto simp: MemoryStore_Outbox_def MemoryStore_MarkOutboxPublished_def split: if_splits)
qed

interpretation ms: ledger_store MemoryStore_Store ms_inv ms_view ms_key_ref ms_ext_ref ms_storable ms_appendable
  MemoryStore_Projector MemoryStore_Outbox
  by unfold_locales
    (auto simp: MemoryStore_Outbox_def MemoryStore_PendingOutboxEvents_def MemoryStore_MarkOutboxPublished_def
      ms_inv_def ms_view_def Let_def split: prod.splits)

end
