(* ===== verification/Store_Lifecycle.thy ===== *)
theory Store_Lifecycle
  imports Memory_Store
begin

text \<open>
  The life of the orders of a store. The abstract machine \<open>ledger_step\<close> creates orders
  in the initial status and moves them along the state machine; every method of the
  in-memory store, run in any sequence, is a step of it. From the abstract machine follow
  the facts on histories: terms of an order are immutable, statuses only advance, and the
  outbox and the audit trail only grow.
\<close>

subsection \<open>The abstract machine\<close>

definition lawful :: "OrderStatus \<Rightarrow> OrderStatus \<Rightarrow> bool" where
  "lawful from to \<longleftrightarrow> from = to \<or> status_step from to"

lemma lawful_moves_to: "moves_to status a b \<Longrightarrow> lawful a b"
  by (auto simp: moves_to_def lawful_def CanTransition_iff)

lemma lawful_keeps: "keeps a b \<Longrightarrow> lawful a b"
  by (simp add: keeps_def lawful_def)

lemma lawful_path: "lawful a b \<Longrightarrow> status_step\<^sup>*\<^sup>* a b"
  by (auto simp: lawful_def)

inductive ledger_step :: "ledger \<Rightarrow> ledger \<Rightarrow> bool" where
  stutter: "ledger_step L L"
| create: "lg_orders L (o_OrderID order) = None \<Longrightarrow> o_Status order = StatusPendingFulfillment \<Longrightarrow>
    stored order event audit L L' \<Longrightarrow> ledger_step L L'"
| advance: "recorded oid lawful nexts audit L L' \<Longrightarrow> length nexts \<le> 1 \<Longrightarrow> ledger_step L L'"

inductive_cases ledger_stepE: "ledger_step L L'"

definition order_evolves :: "ledger \<Rightarrow> ledger \<Rightarrow> string \<Rightarrow> Order \<Rightarrow> bool" where
  "order_evolves L L' oid order \<longleftrightarrow> (\<exists>order'. lg_orders L' oid = Some order' \<and>
     same_terms order order' \<and> status_step\<^sup>*\<^sup>* (o_Status order) (o_Status order'))"

lemma ledger_step_order:
  assumes "ledger_step L L'" "lg_orders L oid = Some order"
  shows "order_evolves L L' oid order"
  using assms
proof cases
  case (advance oid' nexts audit)
  then show ?thesis
    using assms(2) by (cases "oid = oid'") (auto simp: recorded_def order_evolves_def dest: lawful_path)
qed (use assms(2) in \<open>auto simp: order_evolves_def stored_def\<close>)

lemma ledger_steps_order:
  assumes "ledger_step\<^sup>*\<^sup>* L L'" "lg_orders L oid = Some order"
  shows "order_evolves L L' oid order"
  using assms
proof (induction rule: rtranclp_induct)
  case base
  then show ?case by (simp add: order_evolves_def)
next
  case (step M M')
  then obtain o1 where o1: "lg_orders M oid = Some o1" "same_terms order o1"
    "status_step\<^sup>*\<^sup>* (o_Status order) (o_Status o1)" by (auto simp: order_evolves_def)
  with ledger_step_order [OF step.hyps(2)] show ?case
    by (meson order_evolves_def rtranclp_trans same_terms_trans)
qed

lemma ledger_step_new:
  assumes "ledger_step L L'" "lg_orders L oid = None" "lg_orders L' oid = Some order"
  shows "o_Status order = StatusPendingFulfillment"
  using assms by cases (auto simp: stored_def recorded_def split: if_splits)

text \<open>Logs only grow, and every event is accompanied by an audit log.\<close>

definition logs_grow :: "ledger \<Rightarrow> ledger \<Rightarrow> bool" where
  "logs_grow L L' \<longleftrightarrow> (\<exists>evs auds. lg_events L' = lg_events L @ evs \<and>
     lg_audits L' = lg_audits L @ auds \<and> length evs \<le> length auds)"

lemma logs_grow_refl: "logs_grow L L"
  by (simp add: logs_grow_def)

lemma logs_grow_trans: "logs_grow L M \<Longrightarrow> logs_grow M N \<Longrightarrow> logs_grow L N"
  unfolding logs_grow_def by clarsimp

lemma ledger_step_logs: "ledger_step L L' \<Longrightarrow> logs_grow L L'"
proof (induction rule: ledger_step.induct)
  case (advance oid nexts audit L L')
  then obtain evs audit' where "lg_events L' = lg_events L @ evs" "length evs = length nexts"
    "lg_audits L' = lg_audits L @ [audit']"
    unfolding recorded_def by (metis length_map)
  with advance show ?case by (simp add: logs_grow_def)
qed (auto simp: logs_grow_refl logs_grow_def stored_def)

lemma ledger_steps_logs: "ledger_step\<^sup>*\<^sup>* L L' \<Longrightarrow> logs_grow L L'"
  by (induction rule: rtranclp_induct) (auto intro: logs_grow_refl logs_grow_trans ledger_step_logs)

subsection \<open>Calls on the store\<close>

datatype store_call =
    CInsertOrder string string Order OutboxEvent AuditLog
  | CUpdateOrderStatus string OrderStatus time OutboxEvent AuditLog
  | CInventoryReserved OutboxEvent OutboxEvent AuditLog
  | CInventoryRejected OutboxEvent OutboxEvent AuditLog
  | CPaymentAuthorized OutboxEvent OutboxEvent Payment AuditLog
  | CPaymentFailed OutboxEvent OutboxEvent AuditLog
  | CShipmentCreated OutboxEvent OutboxEvent Shipment AuditLog
  | CShipmentFailed OutboxEvent OutboxEvent AuditLog
  | COrderCancelled OutboxEvent OutboxEvent AuditLog
  | CNotificationQueued OutboxEvent AuditLog
  | CCompensation OutboxEvent OrderStatus AuditLog
  | CPendingOutboxEvents time int
  | CMarkOutboxPublished string time

definition drop_result :: "(error + 'a) \<times> 's \<Rightarrow> (error + unit) \<times> 's" where
  "drop_result p = apfst (map_sum id (\<lambda>_. ())) p"

fun exec_call :: "'s Store \<Rightarrow> 's Projector \<Rightarrow> 's OutboxSource \<Rightarrow> store_call \<Rightarrow> ('s, error, unit) op" where
  "exec_call S P Src (CInsertOrder m k order event audit) s =
     drop_result (st_InsertOrder S m k order event audit s)"
| "exec_call S P Src (CUpdateOrderStatus oid status now event audit) s =
     drop_result (st_UpdateOrderStatus S oid status now event audit s)"
| "exec_call S P Src (CInventoryReserved source nxt audit) s = pj_RecordInventoryReserved P source nxt audit s"
| "exec_call S P Src (CInventoryRejected source nxt audit) s = pj_RecordInventoryRejected P source nxt audit s"
| "exec_call S P Src (CPaymentAuthorized source nxt payment audit) s =
     pj_RecordPaymentAuthorized P source nxt payment audit s"
| "exec_call S P Src (CPaymentFailed source nxt audit) s = pj_RecordPaymentFailed P source nxt audit s"
| "exec_call S P Src (CShipmentCreated source nxt shipment audit) s =
     pj_RecordShipmentCreated P source nxt shipment audit s"
| "exec_call S P Src (CShipmentFailed source nxt audit) s = pj_RecordShipmentFailed P source nxt audit s"
| "exec_call S P Src (COrderCancelled source nxt audit) s = pj_RecordOrderCancelled P source nxt audit s"
| "exec_call S P Src (CNotificationQueued source audit) s = pj_RecordNotificationQueued P source audit s"
| "exec_call S P Src (CCompensation source status audit) s = pj_RecordCompensation P source status audit s"
| "exec_call S P Src (CPendingOutboxEvents now limit) s = drop_result (os_PendingOutboxEvents Src now limit s)"
| "exec_call S P Src (CMarkOutboxPublished mid at) s = os_MarkOutboxPublished Src mid at s"

text \<open>
  The one demand on callers: an order is inserted for its own merchant, in the initial status,
  under an unused id, as the order service does.
\<close>

fun call_ok :: "('s \<Rightarrow> ledger) \<Rightarrow> store_call \<Rightarrow> 's \<Rightarrow> bool" where
  "call_ok view (CInsertOrder m k order event audit) s =
     (o_Status order = StatusPendingFulfillment \<and> o_MerchantID order = m \<and>
      lg_orders (view s) (o_OrderID order) = None)"
| "call_ok view _ s = True"

fun run_calls :: "'s Store \<Rightarrow> 's Projector \<Rightarrow> 's OutboxSource \<Rightarrow> store_call list \<Rightarrow> 's \<Rightarrow> 's" where
  "run_calls S P Src [] s = s"
| "run_calls S P Src (c # cs) s = run_calls S P Src cs (snd (exec_call S P Src c s))"

fun calls_ok :: "('s \<Rightarrow> ledger) \<Rightarrow> 's Store \<Rightarrow> 's Projector \<Rightarrow> 's OutboxSource \<Rightarrow> store_call list \<Rightarrow> 's \<Rightarrow> bool" where
  "calls_ok view S P Src [] s = True"
| "calls_ok view S P Src (c # cs) s = (call_ok view c s \<and> calls_ok view S P Src cs (snd (exec_call S P Src c s)))"

lemma drop_result_eq:
  "drop_result p = (r, s') \<longleftrightarrow> s' = snd p \<and> r = map_sum id (\<lambda>_. ()) (fst p)"
  by (cases p) (auto simp: drop_result_def)

lemma ok_map_sum [simp]: "ok (map_sum f g r) = ok r"
  by (cases r) simp_all

lemma drop_resultE:
  assumes "drop_result p = (r, s')"
  obtains r0 where "p = (r0, s')" "ok r = ok r0"
  using assms by (cases p) (auto simp: drop_result_eq)

lemma outcome_ledger_step:
  assumes "outcome r oid T nexts audit L L'" "\<And>a b. T a b \<Longrightarrow> lawful a b" "length nexts \<le> 1"
  shows "ledger_step L L'" "\<not> ok r \<Longrightarrow> L' = L"
  using assms recorded_mono [of oid T nexts audit L L' lawful] ledger_step.intros
  by (auto simp: outcome_def split: if_splits)

text \<open>Every call is one abstract step, keeps the invariant, and changes nothing on error.\<close>

definition step_spec :: "('s \<Rightarrow> bool) \<Rightarrow> ('s \<Rightarrow> ledger) \<Rightarrow> (error + 'a) \<Rightarrow> 's \<Rightarrow> 's \<Rightarrow> bool" where
  "step_spec sound view r s s' \<longleftrightarrow> sound s' \<and> ledger_step (view s) (view s') \<and> (\<not> ok r \<longrightarrow> view s' = view s)"

lemma step_specI:
  assumes "sound s' \<and> outcome r oid T nexts audit (view s) (view s')"
    and "\<And>a b. T a b \<Longrightarrow> lawful a b" "length nexts \<le> 1"
  shows "step_spec sound view r s s'"
  using assms outcome_ledger_step [of r oid T nexts audit "view s" "view s'"] by (auto simp: step_spec_def)

lemma step_spec_ok: "ok r = ok r0 \<Longrightarrow> step_spec sound view r0 s s' \<Longrightarrow> step_spec sound view r s s'"
  by (simp add: step_spec_def)

context ledger_store
begin

lemma moves_step:
  "inv s' \<and> outcome r oid (moves_to status) nexts audit (view s) (view s') \<Longrightarrow> length nexts \<le> 1 \<Longrightarrow>
   step_spec inv view r s s'"
  by (erule step_specI) (auto intro: lawful_moves_to)

lemma keeps_step:
  "inv s' \<and> outcome r oid keeps nexts audit (view s) (view s') \<Longrightarrow> length nexts \<le> 1 \<Longrightarrow>
   step_spec inv view r s s'"
  by (erule step_specI) (auto intro: lawful_keeps)

lemma insert_step:
  assumes "inv s" "call_ok view (CInsertOrder m k order event audit) s"
    and run: "st_InsertOrder S m k order event audit s = (r, s')"
  shows "step_spec inv view r s s'"
proof (cases "key_ref s m k")
  case (Some oid)
  with insert_replay [OF assms(1) Some, of order event audit] run assms(1) show ?thesis
    by (auto simp: step_spec_def intro: ledger_step.stutter)
next
  case None
  from insert_fresh [OF assms(1) None _ _ _ run] assms(2) show ?thesis
    by (cases r) (auto simp: step_spec_def intro: ledger_step.stutter ledger_step.create)
qed

lemma exec_call_step:
  assumes "inv s" "call_ok view c s" "exec_call S P Src c s = (r, s')"
  shows "step_spec inv view r s s'"
proof (cases c)
  case (CInsertOrder m k order event audit)
  with assms insert_step show ?thesis by (auto elim!: drop_resultE intro: step_spec_ok)
next
  case (CUpdateOrderStatus oid status now event audit)
  with assms(3) obtain r0 where "st_UpdateOrderStatus S oid status now event audit s = (r0, s')" "ok r = ok r0"
    by (auto elim!: drop_resultE)
  with moves_step [OF update_status [OF assms(1)]] show ?thesis by (auto intro: step_spec_ok)
next
  case (CPendingOutboxEvents now limit)
  with assms(3) obtain r0 where "os_PendingOutboxEvents Src now limit s = (r0, s')" by (auto elim!: drop_resultE)
  with pending_view [OF assms(1)] show ?thesis by (auto simp: step_spec_def intro: ledger_step.stutter)
next
  case (CMarkOutboxPublished mid at)
  with assms mark_view [OF assms(1)] show ?thesis by (auto simp: step_spec_def intro: ledger_step.stutter)
next
  case (CInventoryReserved source nxt audit)
  with assms(3) show ?thesis by (intro moves_step [OF inventory_reserved [OF assms(1)]]) simp_all
next
  case (CInventoryRejected source nxt audit)
  with assms(3) show ?thesis by (intro keeps_step [OF inventory_rejected [OF assms(1)]]) simp_all
next
  case (CPaymentAuthorized source nxt payment audit)
  with assms(3) show ?thesis by (intro moves_step [OF payment_authorized [OF assms(1)]]) simp_all
next
  case (CPaymentFailed source nxt audit)
  with assms(3) show ?thesis by (intro keeps_step [OF payment_failed [OF assms(1)]]) simp_all
next
  case (CShipmentCreated source nxt shipment audit)
  with assms(3) show ?thesis by (intro moves_step [OF shipment_created [OF assms(1)]]) simp_all
next
  case (CShipmentFailed source nxt audit)
  with assms(3) show ?thesis by (intro keeps_step [OF shipment_failed [OF assms(1)]]) simp_all
next
  case (COrderCancelled source nxt audit)
  with assms(3) show ?thesis by (intro moves_step [OF order_cancelled [OF assms(1)]]) simp_all
next
  case (CNotificationQueued source audit)
  with assms(3) show ?thesis by (intro keeps_step [OF notification_queued [OF assms(1)]]) simp_all
next
  case (CCompensation source status audit)
  with assms(3) show ?thesis by (intro moves_step [OF compensation [OF assms(1)]]) simp_all
qed

lemma run_calls_steps:
  "inv s \<Longrightarrow> calls_ok view S P Src cs s \<Longrightarrow>
   inv (run_calls S P Src cs s) \<and> ledger_step\<^sup>*\<^sup>* (view s) (view (run_calls S P Src cs s))"
proof (induction cs arbitrary: s)
  case (Cons c cs)
  obtain r s' where "exec_call S P Src c s = (r, s')" by fastforce
  with exec_call_step [of s c r s'] Cons show ?case
    by (auto simp: step_spec_def intro: converse_rtranclp_into_rtranclp)
qed simp

end

text \<open>The in-memory store even keeps its whole state on error.\<close>

abbreviation ms_exec :: "store_call \<Rightarrow> unit store_op" where
  "ms_exec \<equiv> exec_call MemoryStore_Store MemoryStore_Projector MemoryStore_Outbox"

abbreviation ms_run :: "store_call list \<Rightarrow> MemoryStore \<Rightarrow> MemoryStore" where
  "ms_run \<equiv> run_calls MemoryStore_Store MemoryStore_Projector MemoryStore_Outbox"

abbreviation ms_calls_ok :: "store_call list \<Rightarrow> MemoryStore \<Rightarrow> bool" where
  "ms_calls_ok \<equiv> calls_ok ms_view MemoryStore_Store MemoryStore_Projector MemoryStore_Outbox"

lemmas ms_records = MemoryStore_Store_def MemoryStore_Projector_def MemoryStore_Outbox_def

lemma ms_error_keeps_state: "ms_exec c s = (r, s') \<Longrightarrow> \<not> ok r \<Longrightarrow> s' = s"
  by (cases c) (auto simp: ms_records drop_result_eq MemoryStore_InsertOrder_def MemoryStore_UpdateOrderStatus_def
      MemoryStore_RecordInventoryReserved_def MemoryStore_RecordInventoryRejected_def
      MemoryStore_RecordPaymentAuthorized_def MemoryStore_RecordPaymentFailed_def
      MemoryStore_RecordShipmentCreated_def MemoryStore_RecordShipmentFailed_def
      MemoryStore_RecordOrderCancelled_def MemoryStore_RecordNotificationQueued_def
      MemoryStore_RecordCompensation_def MemoryStore_PendingOutboxEvents_def MemoryStore_MarkOutboxPublished_def
      Let_def split: option.splits prod.splits if_splits)

definition born_pending :: "ledger \<Rightarrow> bool" where
  "born_pending L \<longleftrightarrow> (\<forall>oid order. lg_orders L oid = Some order \<longrightarrow>
     status_step\<^sup>*\<^sup>* StatusPendingFulfillment (o_Status order))"

lemma born_pending_step:
  assumes "ledger_step L L'" "born_pending L"
  shows "born_pending L'"
  unfolding born_pending_def
proof (intro allI impI)
  fix oid order'
  assume new: "lg_orders L' oid = Some order'"
  show "status_step\<^sup>*\<^sup>* StatusPendingFulfillment (o_Status order')"
  proof (cases "lg_orders L oid")
    case None
    with ledger_step_new [OF assms(1) None new] show ?thesis by simp
  next
    case (Some order)
    with ledger_step_order [OF assms(1) Some] assms(2) new show ?thesis
      by (auto simp: order_evolves_def born_pending_def intro: rtranclp_trans)
  qed
qed

lemma born_pending_steps: "ledger_step\<^sup>*\<^sup>* L L' \<Longrightarrow> born_pending L \<Longrightarrow> born_pending L'"
  by (induction rule: rtranclp_induct) (auto intro: born_pending_step)

subsection \<open>Sample data\<close>

text \<open>A small order and its first two messages, on which the properties are instantiated.\<close>

definition sample_item :: OrderItem where
  "sample_item = \<lparr>i_SKU = ''sku-1'', i_Quantity = 2, i_UnitPrice = \<lparr>m_Amount = 500, m_Currency = ''USD''\<rparr>,
     i_ReservationStatus = ''pending''\<rparr>"

definition sample_order :: Order where
  "sample_order = \<lparr>o_OrderID = ''ord_1'', o_MerchantID = ''m1'', o_ExternalOrderID = ''ext-1'',
     o_Status = StatusPendingFulfillment, o_Currency = ''USD'',
     o_Totals = \<lparr>t_Subtotal = \<lparr>m_Amount = 1000, m_Currency = ''USD''\<rparr>,
       t_Shipping = \<lparr>m_Amount = 1200, m_Currency = ''USD''\<rparr>,
       t_Total = \<lparr>m_Amount = 2200, m_Currency = ''USD''\<rparr>\<rparr>,
     o_Items = [sample_item],
     o_Payment = Some \<lparr>p_Provider = ''card'', p_Status = ''pending_authorization'',
       p_AuthorizationID = [], p_CredentialRef = ''paycred_1''\<rparr>,
     o_Shipment = None, o_ShippingAddressRef = ''addr_1'', o_CreatedAt = 7, o_UpdatedAt = 7\<rparr>"

definition sample_event :: "string \<Rightarrow> string \<Rightarrow> OutboxEvent" where
  "sample_event mid eventType = zero_event\<lparr>e_MessageID := mid, e_EventType := eventType,
     e_OccurredAt := 9, e_MerchantID := ''m1'', e_OrderID := ''ord_1'',
     e_CorrelationID := ''corr'', e_CausationID := mid\<rparr>"

definition sample_audit :: AuditLog where
  "sample_audit = \<lparr>a_MerchantID = ''m1'', a_OrderID = ''ord_1'', a_ActorType = ''system'',
     a_ActorID = ''worker'', a_Action = ''act'', a_CorrelationID = ''corr'', a_CreatedAt = 9,
     a_Details = []\<rparr>"

definition sample_calls :: "store_call list" where
  "sample_calls =
     [CInsertOrder ''m1'' ''key-000000001'' sample_order (sample_event ''msg_1'' ''order.created'') sample_audit,
      CPendingOutboxEvents 10 5,
      CInventoryReserved (sample_event ''msg_1'' ''order.created'')
        (sample_event ''msg_2'' ''inventory.reserved'') sample_audit]"

definition sample_store :: MemoryStore where
  "sample_store = ms_run (take 1 sample_calls) NewMemoryStore"

lemma sample_store_eq:
  "sample_store = inserted ''m1'' ''key-000000001'' sample_order
     (sample_event ''msg_1'' ''order.created'') sample_audit NewMemoryStore"
  by (simp add: sample_store_def sample_calls_def drop_result_def InsertOrder_new ms_records
      ms_key_ref_def ms_ext_ref_def NewMemoryStore_def)

lemma sample_store_orders [simp]: "orders sample_store = [(''ord_1'', sample_order)]"
  by (simp add: sample_store_eq inserted_def NewMemoryStore_def sample_order_def)

lemma sample_store_inv: "ms_inv sample_store"
  unfolding sample_store_eq
  by (rule inserted_inv [OF NewMemoryStore_inv]) (simp add: sample_order_def)

subsection \<open>Properties\<close>

text \<open>
  C9. Every method of the in-memory store that changes state, called on a well-formed store,
  leaves it well-formed, refines one step of the abstract order machine (create an order in
  the initial status, advance one order along the state machine with its terms kept and its
  event and audit log appended, or nothing), and leaves the store unchanged when it returns
  an error.
\<close>

theorem store_call_refines_machine:
  assumes "ms_inv s" "call_ok ms_view c s" "ms_exec c s = (r, s')"
  shows "ms_inv s' \<and> ledger_step (ms_view s) (ms_view s') \<and> (\<not> ok r \<longrightarrow> s' = s)"
  using ms.exec_call_step [OF assms] ms_error_keeps_state [OF assms(3)] by (simp add: step_spec_def)

theorem store_call_refines_machine_witness:
  "\<exists>r s'. ms_exec (sample_calls ! 2) sample_store = (r, s') \<and> ok r \<and>
     ms_inv s' \<and> ledger_step (ms_view sample_store) (ms_view s')"
proof -
  let ?c = "sample_calls ! 2"
  obtain r s' where e: "ms_exec ?c sample_store = (r, s')" by fastforce
  have "call_ok ms_view ?c sample_store" by (simp add: sample_calls_def)
  from store_call_refines_machine [OF sample_store_inv this e] e show ?thesis
    by (auto simp: sample_calls_def sample_event_def sample_order_def
        MemoryStore_RecordInventoryReserved_def Let_def CanTransitionOrderStatus_def ms_records)
qed

text \<open>
  Whatever sequence of calls runs on a store, an order that is stored stays stored with
  its terms (ids, merchant, currency, totals, items, address reference, creation time)
  unchanged, and its status can only have followed allowed transitions.
\<close>

theorem run_keeps_orders:
  assumes "ms_inv s" "ms_calls_ok cs s" "mapget (orders s) oid = Some order"
  shows "\<exists>order'. mapget (orders (ms_run cs s)) oid = Some order' \<and> same_terms order order' \<and>
    status_step\<^sup>*\<^sup>* (o_Status order) (o_Status order')"
  using ledger_steps_order [of "ms_view s" "ms_view (ms_run cs s)" oid order]
    ms.run_calls_steps [OF assms(1,2)] assms(3)
  by (simp add: order_evolves_def)

text \<open>
  C23. In every state a sequence of calls can reach from the empty store, every order is
  stored under its own id with a valid status reachable from the initial one, both indexes
  point at stored orders (so a replayed insertion always finds the order it returns), and
  the outbox and the audit trail hold at least one audit log per event.
\<close>

theorem reachable_store_well_formed:
  assumes "ms_calls_ok cs NewMemoryStore"
  defines "s \<equiv> ms_run cs NewMemoryStore"
  shows "ms_inv s \<and>
    (\<forall>oid order. mapget (orders s) oid = Some order \<longrightarrow>
       status_step\<^sup>*\<^sup>* StatusPendingFulfillment (o_Status order)) \<and>
    length (outbox s) \<le> length (auditLogs s)"
proof -
  have r: "ms_inv s" "ledger_step\<^sup>*\<^sup>* (ms_view NewMemoryStore) (ms_view s)"
    using ms.run_calls_steps [OF NewMemoryStore_inv assms(1)] by (simp_all add: s_def)
  have "born_pending (ms_view NewMemoryStore)" by (simp add: born_pending_def NewMemoryStore_def)
  with born_pending_steps [OF r(2)] ledger_steps_logs [OF r(2)] r(1) show ?thesis
    by (auto simp: born_pending_def logs_grow_def NewMemoryStore_def)
qed

theorem reachable_store_well_formed_witness:
  "ms_calls_ok sample_calls NewMemoryStore \<and> ms_inv (ms_run sample_calls NewMemoryStore) \<and>
   length (outbox (ms_run sample_calls NewMemoryStore))
     \<le> length (auditLogs (ms_run sample_calls NewMemoryStore))"
proof -
  have "ms_calls_ok sample_calls NewMemoryStore"
    by (simp add: sample_calls_def NewMemoryStore_def) (simp add: sample_order_def)
  with reachable_store_well_formed [OF this] show ?thesis by blast
qed

text \<open>
  \<open>PendingOutboxEvents\<close> never fails and returns, in outbox order, events that are neither
  published nor leased, one per message id and at most \<open>limit\<close> of them (no bound when
  \<open>limit\<close> is not positive). When it returns fewer than the limit no eligible event is
  left out. It leases exactly what it returns for thirty seconds and changes nothing else.
\<close>

theorem pending_outbox_batch:
  "\<exists>es s'. MemoryStore_PendingOutboxEvents now limit s = (Inr es, s') \<and>
     distinct (map e_MessageID es) \<and>
     set es \<subseteq> WithEnvelopeDefaults ` {e \<in> set (outbox s).
       eligible (publishedOutbox s) (claimedOutbox s) now e} \<and>
     (limit \<le> 0 \<or> int (length es) \<le> limit) \<and>
     (0 < limit \<and> int (length es) = limit \<or>
       e_MessageID ` {e \<in> set (outbox s). eligible (publishedOutbox s) (claimedOutbox s) now e}
         = e_MessageID ` set es) \<and>
     s' = s\<lparr>claimedOutbox := claimedOutbox s'\<rparr> \<and>
     mapget (claimedOutbox s') = (\<lambda>m. if m \<in> e_MessageID ` set es then Some (now + 30 * Second)
        else mapget (claimedOutbox s) m)"
proof -
  obtain claimed where p: "MemoryStore_PendingOutboxEvents now limit s =
      (Inr (map WithEnvelopeDefaults (batch now limit s)), s\<lparr>claimedOutbox := claimed\<rparr>)"
    and c: "\<And>m. mapget claimed m = (if m \<in> e_MessageID ` set (batch now limit s)
      then Some (now + outbox_lease) else mapget (claimedOutbox s) m)"
    using PendingOutboxEvents_batch by blast
  have ids: "e_MessageID ` WithEnvelopeDefaults ` A = e_MessageID ` A" for A
    by (simp add: image_image)
  have "0 < limit \<and> int (length (batch now limit s)) = limit \<or>
      e_MessageID ` {e \<in> set (outbox s). eligible (publishedOutbox s) (claimedOutbox s) now e} =
      e_MessageID ` set (batch now limit s)"
    by (rule batch_complete)
  then show ?thesis
    using p c batch_distinct [of now limit s] batch_props [of _ now limit s] batch_length [of limit now s]
    by (fastforce simp: ids o_def outbox_lease_def)
qed

text \<open>
  Two relays never hold the same event: after one has taken a batch, a second call within
  thirty seconds returns only other events. Once the thirty seconds have passed, an event
  of the batch that was not marked as published is offered again by an unbounded call, so
  a relay that stops loses nothing.
\<close>

theorem outbox_leases_exclude_and_expire:
  assumes "MemoryStore_PendingOutboxEvents now1 limit1 s = (Inr es1, s1)"
    and "MemoryStore_PendingOutboxEvents now2 limit2 s1 = (Inr es2, s2)"
  shows "(now2 < now1 + 30 * Second \<longrightarrow> e_MessageID ` set es1 \<inter> e_MessageID ` set es2 = {}) \<and>
    (now1 + 30 * Second \<le> now2 \<and> limit2 \<le> 0 \<longrightarrow> e_MessageID ` set es1 \<subseteq> e_MessageID ` set es2)"
proof -
  let ?b1 = "batch now1 limit1 s" and ?b2 = "batch now2 limit2 s1"
  have ids: "e_MessageID ` set es1 = e_MessageID ` set ?b1" "e_MessageID ` set es2 = e_MessageID ` set ?b2"
    and s1: "outbox s1 = outbox s" "publishedOutbox s1 = publishedOutbox s"
    and c: "\<And>m. m \<in> e_MessageID ` set ?b1 \<Longrightarrow> mapget (claimedOutbox s1) m = Some (now1 + outbox_lease)"
    using assms PendingOutboxEvents_batch [of now1 limit1 s] PendingOutboxEvents_batch [of now2 limit2 s1]
    by (auto simp: image_image)
  have "m \<notin> e_MessageID ` set ?b2" if "now2 < now1 + outbox_lease" "m \<in> e_MessageID ` set ?b1" for m
    using that c [OF that(2)] by (auto simp: eligible_def dest!: batch_props)
  moreover have "m \<in> e_MessageID ` set ?b2"
    if h: "now1 + outbox_lease \<le> now2" "limit2 \<le> 0" "m \<in> e_MessageID ` set ?b1" for m
  proof -
    obtain e where e: "e \<in> set ?b1" "m = e_MessageID e" using h(3) by auto
    then have "e \<in> set (outbox s1) \<and> eligible (publishedOutbox s1) (claimedOutbox s1) now2 e"
      using batch_props [OF e(1)] c [of "e_MessageID e"] s1 h(1) by (auto simp: eligible_def)
    with batch_complete [of limit2 now2 s1] h(2) e(2) show ?thesis by auto
  qed
  ultimately show ?thesis by (auto simp: ids outbox_lease_def)
qed

lemma mapset_zero_counts:
  "count_of (foldl (\<lambda>counts status. mapset status 0 counts) cs sts) st =
     (if st \<in> set sts then 0 else count_of cs st)"
  by (induction sts arbitrary: cs) (auto simp: count_of_def)

lemma keys_zero_counts:
  "fst ` set (foldl (\<lambda>counts status. mapset status (0 :: nat) counts) cs sts) = fst ` set cs \<union> set sts"
  by (induction sts arbitrary: cs) auto

lemma incr_status_simps [simp]:
  "count_of (incr_status cs order) st = count_of cs st + (if o_Status order = st then 1 else 0)"
  "fst ` set (incr_status cs order) = insert (o_Status order) (fst ` set cs)"
  by (auto simp: incr_status_def count_of_def)

lemma count_orders:
  "count_of (foldl incr_status cs os) st =
     count_of cs st + length (filter (\<lambda>order. o_Status order = st) os)"
  by (induction os arbitrary: cs) simp_all

lemma keys_count_orders:
  "fst ` set (foldl incr_status cs os) = fst ` set cs \<union> o_Status ` set os"
  by (induction os arbitrary: cs) simp_all

lemma sum_length_filter:
  "distinct sts \<Longrightarrow> \<forall>x\<in>set xs. f x \<in> set sts \<Longrightarrow>
   sum_list (map (\<lambda>st. length (filter (\<lambda>x. f x = st) xs)) sts) = length xs"
proof (induction xs)
  case (Cons x xs)
  then have "sum_list (map (\<lambda>st. length (filter (\<lambda>x. f x = st) xs)) sts) = length xs" by simp
  moreover have "sum_list (map (\<lambda>st. if f x = st then 1 else 0) sts) = (1::nat)"
    using Cons.prems by (simp add: sum_list_distinct_conv_sum_set)
  moreover have "(\<lambda>st. length (filter (\<lambda>y. f y = st) (x # xs))) =
      (\<lambda>st. (if f x = st then 1 else 0) + length (filter (\<lambda>x. f x = st) xs))" by auto
  ultimately show ?case by (simp add: sum_list_addf)
qed (simp add: sum_list_all_zero)

text \<open>
  On a well-formed store \<open>OrderStatusCounts\<close> has an entry for exactly the nine valid
  statuses, each the number of orders in that status, and the entries add up to the number
  of orders.
\<close>

theorem order_status_counts_partition:
  assumes "ms_inv s"
  defines "counts \<equiv> MemoryStore_OrderStatusCounts s"
  shows "fst ` set counts = set ValidOrderStatuses \<and>
    (\<forall>st. count_of counts st = length (filter (\<lambda>order. o_Status order = st) (map snd (orders s)))) \<and>
    sum_list (map (count_of counts) ValidOrderStatuses) = length (orders s)"
proof -
  have valid: "\<forall>order\<in>set (map snd (orders s)). o_Status order \<in> set ValidOrderStatuses"
    using assms by (auto simp: IsValid_iff ms_inv_def simp flip: mapget_entry)
  have counts: "count_of counts st = length (filter (\<lambda>order. o_Status order = st) (map snd (orders s)))" for st
    unfolding counts_def MemoryStore_OrderStatusCounts_def Let_def count_orders mapset_zero_counts
    by (simp add: count_of_def)
  have "fst ` set counts = set ValidOrderStatuses"
    unfolding counts_def MemoryStore_OrderStatusCounts_def Let_def keys_count_orders keys_zero_counts
    using valid by auto
  moreover have "sum_list (map (count_of counts) ValidOrderStatuses) = length (orders s)"
    unfolding counts
    using sum_length_filter [OF distinct_statuses valid] by (simp only: length_map)
  ultimately show ?thesis using counts by blast
qed

lemma find_shipment_None:
  "find_shipment sid os = None \<longleftrightarrow>
     (\<forall>p\<in>set os. \<forall>shipment. o_Shipment (snd p) = Some shipment \<longrightarrow> s_ShipmentID shipment \<noteq> sid)"
  by (induction sid os rule: find_shipment.induct)
    (auto simp: shipmentRecordFromOrder_def split: option.splits)

text \<open>
  \<open>GetShipment\<close> finds a shipment exactly when some stored order carries it, and the
  record it returns names that order, its merchant and the shipment's data: a shipment is
  never attributed to another order. No order carrying the id gives a not-found error.
\<close>

theorem get_shipment_belongs_to_order:
  assumes "ms_inv s"
  shows "case MemoryStore_GetShipment sid s of
      Inr r \<Rightarrow> (\<exists>order shipment. mapget (orders s) (sr_OrderID r) = Some order \<and>
        o_Shipment order = Some shipment \<and> sr_MerchantID r = o_MerchantID order \<and>
        sr_ShipmentID r = sid \<and> s_ShipmentID shipment = sid \<and> sr_Carrier r = s_Carrier shipment \<and>
        sr_TrackingNumber r = s_TrackingNumber shipment \<and> sr_Status r = s_Status shipment \<and>
        sr_Events r = s_Events shipment)
    | Inl e \<Rightarrow> e = ErrNotFound \<and> (\<forall>oid order shipment. mapget (orders s) oid = Some order \<longrightarrow>
        o_Shipment order = Some shipment \<longrightarrow> s_ShipmentID shipment \<noteq> sid)"
proof (cases "find_shipment sid (orders s)")
  case None
  then have all: "\<forall>p\<in>set (orders s). \<forall>shipment. o_Shipment (snd p) = Some shipment \<longrightarrow> s_ShipmentID shipment \<noteq> sid"
    by (simp only: find_shipment_None)
  have "s_ShipmentID shipment \<noteq> sid"
    if "mapget (orders s) oid = Some order" "o_Shipment order = Some shipment" for oid order shipment
    using that(2) bspec [OF all map_of_SomeD [OF that(1)]] by simp
  then show ?thesis using None by (simp add: MemoryStore_GetShipment_def)
next
  case (Some r)
  then obtain oid order shipment where o: "(oid, order) \<in> set (orders s)" "o_Shipment order = Some shipment"
    "s_ShipmentID shipment = sid" "shipmentRecordFromOrder order = Some r"
    using find_shipment_Some by blast
  have found: "mapget (orders s) oid = Some order"
    using o(1) mapget_entry [OF inv_distinct [OF assms]] by blast
  have r: "r = \<lparr>sr_ShipmentID = sid, sr_OrderID = oid, sr_MerchantID = o_MerchantID order,
      sr_Carrier = s_Carrier shipment, sr_TrackingNumber = s_TrackingNumber shipment,
      sr_Status = s_Status shipment, sr_Events = s_Events shipment\<rparr>"
    using o(2-4) inv_order [OF assms found] by (auto simp: shipmentRecordFromOrder_def)
  show ?thesis using Some o(2,3) found
    by (simp add: MemoryStore_GetShipment_def r)
qed

end
