(* ===== verification/Fulfillment.thy ===== *)
theory Fulfillment
  imports Providers Topology Store_Lifecycle
begin

text \<open>
  The fulfilment workers of \<open>internal/fulfillment/handlers.go\<close>: one handler per work queue,
  each turning an event into one recorded step of its order and at most one next event.
  Handlers call a store through \<open>Projector\<close> and \<open>OrderStatusUpdater\<close> and the providers
  through optional functions; \<open>None\<close> is a nil interface.

  A handler's outside readings are in \<open>henv\<close>: the wall clock, the random bytes of each call
  site of \<open>NewID\<close>. An injected clock or id source replaces them.
\<close>

record henv =
  he_now :: time
  he_rand :: "nat \<Rightarrow> string option"

record 's Dependencies =
  dp_Projector :: "'s Projector option"
  dp_Orders :: "'s OrderStatusUpdater option"
  dp_InventoryReserver :: "(OutboxEvent \<Rightarrow> 's \<Rightarrow> error option) option"
  dp_PaymentAuthorizer :: "(OutboxEvent \<Rightarrow> 's \<Rightarrow> error + Payment) option"
  dp_ShipmentCreator :: "(OutboxEvent \<Rightarrow> 's \<Rightarrow> error + Shipment) option"
  dp_Clock :: "time option"
  dp_NewID :: "(string \<Rightarrow> nat \<Rightarrow> string) option"

definition clock_of :: "henv \<Rightarrow> 's Dependencies \<Rightarrow> time" where
  "clock_of env d = (case dp_Clock d of Some t \<Rightarrow> t | None \<Rightarrow> he_now env)"

definition default_NewID :: "henv \<Rightarrow> time \<Rightarrow> string \<Rightarrow> nat \<Rightarrow> string" where
  "default_NewID env now prefix k =
     (case he_rand env k of
        Some bytes \<Rightarrow> prefix @ ''_'' @ hex_EncodeToString bytes
      | None \<Rightarrow> prefix @ ''_'' @ Itoa (UnixNano now))"

definition withDefaults :: "henv \<Rightarrow> 's Dependencies \<Rightarrow> 's Dependencies" where
  "withDefaults env d =
     (let d = d\<lparr>dp_Clock := Some (clock_of env d)\<rparr>
      in d\<lparr>dp_NewID := Some (case dp_NewID d of Some f \<Rightarrow> f | None \<Rightarrow> default_NewID env (clock_of env d))\<rparr>)"

text \<open>Calls of the completed dependencies.\<close>

definition Clock :: "'s Dependencies \<Rightarrow> time" where
  "Clock d = (case dp_Clock d of Some t \<Rightarrow> t | None \<Rightarrow> 0)"

definition NewID :: "'s Dependencies \<Rightarrow> string \<Rightarrow> nat \<Rightarrow> string" where
  "NewID d prefix k = (case dp_NewID d of Some f \<Rightarrow> f prefix k | None \<Rightarrow> [])"

subsection \<open>Events and audits\<close>

definition validateEventIdentity :: "OutboxEvent \<Rightarrow> error option" where
  "validateEventIdentity event =
     (if e_MessageID event = [] then Some (ErrorString ''message id is required'')
      else if e_CorrelationID event = [] then Some (ErrorString ''correlation id is required'')
      else if e_CausationID event = [] then Some (ErrorString ''causation id is required'')
      else if e_OrderID event = [] then Some (ErrorString ''order id is required'')
      else if e_MerchantID event = [] then Some (ErrorString ''merchant id is required'')
      else None)"

definition validateEvent :: "OutboxEvent \<Rightarrow> string \<Rightarrow> error option" where
  "validateEvent event expectedType =
     (if e_EventType event \<noteq> expectedType
      then Some (ErrorString (''expected '' @ expectedType @ '' event, got '' @ e_EventType event))
      else validateEventIdentity event)"

definition nextEventAt :: "'s Dependencies \<Rightarrow> nat \<Rightarrow> OutboxEvent \<Rightarrow> string \<Rightarrow> time \<Rightarrow> OutboxEvent" where
  "nextEventAt d k previous eventType now =
     zero_event\<lparr>e_MessageID := NewID d ''msg'' k, e_CorrelationID := e_CorrelationID previous,
       e_CausationID := e_MessageID previous, e_EventType := eventType,
       e_OrderID := e_OrderID previous, e_MerchantID := e_MerchantID previous,
       e_OccurredAt := now\<rparr>"

definition systemAudit :: "OutboxEvent \<Rightarrow> string \<Rightarrow> time \<Rightarrow> AuditLog" where
  "systemAudit event action now =
     \<lparr>a_MerchantID = e_MerchantID event, a_OrderID = e_OrderID event, a_ActorType = ''system'',
      a_ActorID = ''fulfillment-worker'', a_Action = action,
      a_CorrelationID = e_CorrelationID event, a_CreatedAt = now,
      a_Details = [(''source_message_id'', e_MessageID event), (''source_event_type'', e_EventType event)]\<rparr>"

definition add_detail :: "string \<Rightarrow> string \<Rightarrow> AuditLog \<Rightarrow> AuditLog" where
  "add_detail key value audit = audit\<lparr>a_Details := mapset key value (a_Details audit)\<rparr>"

definition required :: "string \<Rightarrow> error" where
  "required what = ErrorString (what @ '' is required'')"

subsection \<open>Handlers\<close>

definition isNotificationEvent :: "string \<Rightarrow> bool" where
  "isNotificationEvent eventType =
     (eventType \<in> set [''order.completed'', ''order.cancelled'', ''order.manual_review_required'',
        ''inventory.rejected'', ''payment.failed'', ''shipment.failed''])"

definition compensationPlan :: "string \<Rightarrow> error + OrderStatus \<times> string" where
  "compensationPlan eventType =
     (if eventType = ''inventory.rejected'' then Inr (StatusFailed, ''compensation.inventory_rejected'')
      else if eventType = ''payment.failed'' then Inr (StatusCancelled, ''compensation.payment_failed'')
      else if eventType = ''shipment.failed''
        then Inr (StatusCancellationPending, ''compensation.shipment_failed'')
      else Inl (ErrorString (''unsupported compensation event '' @ eventType)))"

definition recordCompensation :: "'s Dependencies \<Rightarrow> OutboxEvent \<Rightarrow> ('s, error, unit) op" where
  "recordCompensation d event s =
     (case dp_Projector d of
        None \<Rightarrow> (Inl (required ''fulfillment projector''), s)
      | Some P \<Rightarrow>
        (case compensationPlan (e_EventType event) of
           Inl err \<Rightarrow> (Inl err, s)
         | Inr (status, action) \<Rightarrow>
           (case validateEventIdentity event of
              Some err \<Rightarrow> (Inl err, s)
            | None \<Rightarrow>
              (let now = Clock d;
                   audit = add_detail ''target_order_status'' status (systemAudit event action now);
                   audit = (if e_EventType event = ''payment.failed''
                            then add_detail ''stock_release'' ''requested'' audit
                            else if e_EventType event = ''shipment.failed''
                            then add_detail ''payment_void'' ''requested''
                              (add_detail ''stock_release'' ''requested'' audit)
                            else audit)
               in pj_RecordCompensation P event status audit s))))"

definition queueNotification :: "'s Dependencies \<Rightarrow> OutboxEvent \<Rightarrow> ('s, error, unit) op" where
  "queueNotification d event s =
     (case dp_Projector d of
        None \<Rightarrow> (Inl (required ''fulfillment projector''), s)
      | Some P \<Rightarrow>
        if \<not> isNotificationEvent (e_EventType event)
        then (Inl (ErrorString (''expected notifiable event, got '' @ e_EventType event)), s)
        else (case validateEventIdentity event of
           Some err \<Rightarrow> (Inl err, s)
         | None \<Rightarrow> pj_RecordNotificationQueued P event
                     (systemAudit event ''notification.email_queued'' (Clock d)) s))"

definition recordInventoryRejected ::
    "'s Dependencies \<Rightarrow> 's Projector \<Rightarrow> nat \<Rightarrow> OutboxEvent \<Rightarrow> time \<Rightarrow> error \<Rightarrow> ('s, error, unit) op" where
  "recordInventoryRejected d P k event now cause s =
     (let rejected = nextEventAt d k event ''inventory.rejected'' now;
          audit = add_detail ''error'' (Error cause) (systemAudit event ''inventory.rejected'' now)
      in pj_RecordInventoryRejected P event rejected audit s)"

definition reserveInventory :: "'s Dependencies \<Rightarrow> OutboxEvent \<Rightarrow> ('s, error, unit) op" where
  "reserveInventory d event s =
     (case dp_Projector d of
        None \<Rightarrow> (Inl (required ''fulfillment projector''), s)
      | Some P \<Rightarrow>
        (case validateEvent event ''order.created'' of
           Some err \<Rightarrow> (Inl err, s)
         | None \<Rightarrow>
           (let now = Clock d in
            case (case dp_InventoryReserver d of Some f \<Rightarrow> f event s | None \<Rightarrow> None) of
              Some err \<Rightarrow> recordInventoryRejected d P 0 event now err s
            | None \<Rightarrow>
              (let next = nextEventAt d 0 event ''inventory.reserved'' now in
               case pj_RecordInventoryReserved P event next (systemAudit event ''inventory.reserved'' now) s of
                 (Inl (ErrInsufficientStock w), s') \<Rightarrow>
                   recordInventoryRejected d P 1 event now (ErrInsufficientStock w) s'
               | (r, s') \<Rightarrow> (r, s')))))"

definition normalizedPayment :: "Payment \<Rightarrow> Payment" where
  "normalizedPayment payment =
     (let payment = (if p_Provider payment = [] then payment\<lparr>p_Provider := ''fake-payment''\<rparr> else payment)
      in if p_Status payment = [] then payment\<lparr>p_Status := ''authorized''\<rparr> else payment)"

definition authorizePayment :: "'s Dependencies \<Rightarrow> OutboxEvent \<Rightarrow> ('s, error, unit) op" where
  "authorizePayment d event s =
     (case dp_Projector d of
        None \<Rightarrow> (Inl (required ''fulfillment projector''), s)
      | Some P \<Rightarrow>
        (case validateEvent event ''inventory.reserved'' of
           Some err \<Rightarrow> (Inl err, s)
         | None \<Rightarrow>
           (let now = Clock d in
            case dp_PaymentAuthorizer d of
              Some AuthorizePayment \<Rightarrow>
                (case AuthorizePayment event s of
                   Inl err \<Rightarrow>
                     (let failed = nextEventAt d 0 event ''payment.failed'' now;
                          audit = add_detail ''error'' (Error err) (systemAudit event ''payment.failed'' now)
                      in pj_RecordPaymentFailed P event failed audit s)
                 | Inr authorized \<Rightarrow>
                     (let payment = normalizedPayment authorized;
                          payment = (if p_AuthorizationID payment = []
                            then payment\<lparr>p_AuthorizationID := NewID d ''pay'' 0\<rparr> else payment);
                          next = nextEventAt d 1 event ''payment.authorized'' now
                      in pj_RecordPaymentAuthorized P event next payment
                           (systemAudit event ''payment.authorized'' now) s))
            | None \<Rightarrow>
                (let next = nextEventAt d 0 event ''payment.authorized'' now;
                     payment = normalizedPayment \<lparr>p_Provider = ''fake-payment'', p_Status = ''authorized'',
                       p_AuthorizationID = NewID d ''pay'' 1, p_CredentialRef = []\<rparr>
                 in pj_RecordPaymentAuthorized P event next payment
                      (systemAudit event ''payment.authorized'' now) s))))"

definition booking_event :: "time \<Rightarrow> string \<Rightarrow> ShipmentEvent" where
  "booking_event now status = \<lparr>se_OccurredAt = now, se_Status = status,
     se_Description = ''Shipment booking created by fulfillment worker.''\<rparr>"

definition normalizedShipment :: "'s Dependencies \<Rightarrow> nat \<Rightarrow> Shipment \<Rightarrow> time \<Rightarrow> Shipment" where
  "normalizedShipment d k shipment now =
     (let shipment = (if s_ShipmentID shipment = []
            then shipment\<lparr>s_ShipmentID := NewID d ''shp'' k\<rparr> else shipment);
          shipment = (if s_Status shipment = [] then shipment\<lparr>s_Status := ''created''\<rparr> else shipment);
          shipment = (if s_Carrier shipment = [] then shipment\<lparr>s_Carrier := ''fake-carrier''\<rparr> else shipment);
          shipment = (if s_TrackingNumber shipment = []
            then shipment\<lparr>s_TrackingNumber := ''TRACK-'' @ s_ShipmentID shipment\<rparr> else shipment)
      in if length (s_Events shipment) = 0
         then shipment\<lparr>s_Events := [booking_event now (s_Status shipment)]\<rparr> else shipment)"

definition createShipment :: "'s Dependencies \<Rightarrow> OutboxEvent \<Rightarrow> ('s, error, unit) op" where
  "createShipment d event s =
     (case dp_Projector d of
        None \<Rightarrow> (Inl (required ''fulfillment projector''), s)
      | Some P \<Rightarrow>
        (case validateEvent event ''payment.authorized'' of
           Some err \<Rightarrow> (Inl err, s)
         | None \<Rightarrow>
           (let now = Clock d in
            case dp_ShipmentCreator d of
              Some CreateShipment \<Rightarrow>
                (case CreateShipment event s of
                   Inl err \<Rightarrow>
                     (let failed = nextEventAt d 0 event ''shipment.failed'' now;
                          audit = add_detail ''error'' (Error err) (systemAudit event ''shipment.failed'' now)
                      in pj_RecordShipmentFailed P event failed audit s)
                 | Inr shipment \<Rightarrow>
                     (let next = nextEventAt d 0 event ''shipment.created'' now
                      in pj_RecordShipmentCreated P event next (normalizedShipment d 1 shipment now)
                           (systemAudit event ''shipment.created'' now) s))
            | None \<Rightarrow>
                (let next = nextEventAt d 0 event ''shipment.created'' now;
                     shipmentID = NewID d ''shp'' 1;
                     shipment = normalizedShipment d 2 \<lparr>s_ShipmentID = shipmentID, s_Status = ''created'',
                       s_Carrier = ''fake-carrier'', s_TrackingNumber = ''TRACK-'' @ shipmentID,
                       s_Events = [booking_event now ''created'']\<rparr> now
                 in pj_RecordShipmentCreated P event next shipment
                      (systemAudit event ''shipment.created'' now) s))))"

definition completeOrder :: "'s Dependencies \<Rightarrow> OutboxEvent \<Rightarrow> ('s, error, unit) op" where
  "completeOrder d event s =
     (case dp_Orders d of
        None \<Rightarrow> (Inl (required ''order status updater''), s)
      | Some U \<Rightarrow>
        (case validateEvent event ''shipment.created'' of
           Some err \<Rightarrow> (Inl err, s)
         | None \<Rightarrow>
           (case ou_GetOrder U (e_OrderID event) s of
              Inl err \<Rightarrow> (Inl err, s)
            | Inr order \<Rightarrow>
              if o_Status order = StatusShipmentCreated then
                (let now = Clock d;
                     completed = nextEventAt d 0 event ''order.completed'' now;
                     (r, s') = ou_UpdateOrderStatus U (e_OrderID event) StatusCompleted now completed
                       (systemAudit event ''order.completed'' now) s
                 in (map_sum id (\<lambda>_. ()) r, s'))
              else if o_Status order = StatusCompleted then (Inr (), s)
              else if o_Status order \<in> set [StatusCancellationPending, StatusManualReview, StatusCancelled]
                then (Inr (), s)
              else (Inl (ErrorString (''cannot complete order from status '' @ o_Status order)), s))))"

definition requiresManualReview :: "Order \<Rightarrow> bool" where
  "requiresManualReview order =
     (if o_Status order = StatusCompleted then True
      else (case o_Shipment order of
              Some shipment \<Rightarrow> s_Status shipment \<noteq> [] \<and> s_Status shipment \<noteq> ''failed''
            | None \<Rightarrow> False))"

definition hasReservedInventory :: "Order \<Rightarrow> bool" where
  "hasReservedInventory order = list_ex (\<lambda>item. i_ReservationStatus item = ''reserved'') (o_Items order)"

definition hasAuthorizedPayment :: "Order \<Rightarrow> bool" where
  "hasAuthorizedPayment order =
     (case o_Payment order of Some payment \<Rightarrow> p_Status payment = ''authorized'' | None \<Rightarrow> False)"

definition cancelOrder :: "'s Dependencies \<Rightarrow> OutboxEvent \<Rightarrow> ('s, error, unit) op" where
  "cancelOrder d event s =
     (case dp_Orders d of
        None \<Rightarrow> (Inl (required ''order status updater''), s)
      | Some U \<Rightarrow>
        (case validateEvent event ''order.cancel_requested'' of
           Some err \<Rightarrow> (Inl err, s)
         | None \<Rightarrow>
           (case ou_GetOrder U (e_OrderID event) s of
              Inl err \<Rightarrow> (Inl err, s)
            | Inr order \<Rightarrow>
              if o_Status order = StatusCancelled \<or> o_Status order = StatusManualReview then (Inr (), s)
              else
                (let now = Clock d in
                 if requiresManualReview order then
                   (let review = nextEventAt d 0 event ''order.manual_review_required'' now;
                        audit = add_detail ''review_reason'' ''shipment_already_created''
                          (systemAudit event ''order.manual_review_required'' now);
                        audit = (case o_Shipment order of
                            Some shipment \<Rightarrow> if s_ShipmentID shipment \<noteq> []
                              then add_detail ''shipment_id'' (s_ShipmentID shipment) audit else audit
                          | None \<Rightarrow> audit);
                        (r, s') = ou_UpdateOrderStatus U (e_OrderID event) StatusManualReview now review audit s
                    in (map_sum id (\<lambda>_. ()) r, s'))
                 else
                   (case dp_Projector d of
                      None \<Rightarrow> (Inl (required ''fulfillment projector''), s)
                    | Some P \<Rightarrow>
                      (let cancelled = nextEventAt d 0 event ''order.cancelled'' now;
                           audit = systemAudit event ''order.cancelled'' now;
                           audit = (if hasReservedInventory order
                             then add_detail ''stock_release'' ''requested'' audit else audit);
                           audit = (if hasAuthorizedPayment order
                             then add_detail ''payment_void'' ''requested'' audit else audit)
                       in pj_RecordOrderCancelled P event cancelled audit s))))))"

definition HandlerForQueue :: "string \<Rightarrow> 's Dependencies
    \<Rightarrow> error + (henv \<Rightarrow> OutboxEvent \<Rightarrow> ('s, error, unit) op)" where
  "HandlerForQueue queue d =
     (if queue = InventoryReserveQueue then Inr (\<lambda>env. reserveInventory (withDefaults env d))
      else if queue = PaymentsAuthorizeQueue then Inr (\<lambda>env. authorizePayment (withDefaults env d))
      else if queue = ShipmentsCreateQueue then Inr (\<lambda>env. createShipment (withDefaults env d))
      else if queue = OrdersFinalizeQueue then Inr (\<lambda>env. completeOrder (withDefaults env d))
      else if queue = OrdersCancelQueue then Inr (\<lambda>env. cancelOrder (withDefaults env d))
      else if queue = NotificationsEmailQueue then Inr (\<lambda>env. queueNotification (withDefaults env d))
      else if queue = OrdersCompensateQueue then Inr (\<lambda>env. recordCompensation (withDefaults env d))
      else Inl (ErrorString (''unsupported worker queue '' @ Quote queue)))"

text \<open>
  The dependencies that \<open>cmd/fulfillhub-worker\<close> passes: the store in every role and the fake
  providers behind their adapters; \<open>wall\<close> is the adapter's reading of the wall clock.
\<close>

definition worker_dependencies :: "'s Store \<Rightarrow> 's Projector \<Rightarrow> time \<Rightarrow> 's Dependencies" where
  "worker_dependencies S P wall =
     \<lparr>dp_Projector = Some P, dp_Orders = Some (updater_of S), dp_InventoryReserver = None,
      dp_PaymentAuthorizer = Some (ProviderPaymentAuthorizer_AuthorizePayment
        (Some (st_GetOrder S)) (Some FakePaymentProvider)),
      dp_ShipmentCreator = Some (ProviderShipmentCreator_CreateShipment
        (Some (st_GetOrder S)) (Some FakeShipmentProvider_CreateShipment) None wall),
      dp_Clock = None, dp_NewID = None\<rparr>"

subsection \<open>What a handler may do\<close>

text \<open>
  The saga: which event types the handling of an event type may emit.
\<close>

definition next_types :: "string \<Rightarrow> string list" where
  "next_types t =
     (if t = ''order.created'' then [''inventory.reserved'', ''inventory.rejected'']
      else if t = ''inventory.reserved'' then [''payment.authorized'', ''payment.failed'']
      else if t = ''payment.authorized'' then [''shipment.created'', ''shipment.failed'']
      else if t = ''shipment.created'' then [''order.completed'']
      else if t = ''order.cancel_requested'' then [''order.cancelled'', ''order.manual_review_required'']
      else [])"

definition follows :: "OutboxEvent \<Rightarrow> OutboxEvent \<Rightarrow> bool" where
  "follows event n \<longleftrightarrow> e_OrderID n = e_OrderID event \<and> e_MerchantID n = e_MerchantID event \<and>
     e_CorrelationID n = e_CorrelationID event \<and> e_CausationID n = e_MessageID event \<and>
     e_EventType n \<in> set (next_types (e_EventType event))"

definition audit_of :: "OutboxEvent \<Rightarrow> AuditLog \<Rightarrow> bool" where
  "audit_of event audit \<longleftrightarrow> a_OrderID audit = e_OrderID event \<and> a_MerchantID audit = e_MerchantID event \<and>
     a_CorrelationID audit = e_CorrelationID event \<and> a_ActorType audit = ''system'' \<and>
     mapget (a_Details audit) ''source_message_id'' = Some (e_MessageID event)"

definition handled :: "OutboxEvent \<Rightarrow> (error + unit) \<Rightarrow> ledger \<Rightarrow> ledger \<Rightarrow> bool" where
  "handled event r L L' \<longleftrightarrow> L' = L \<or> ok r \<and>
     (\<exists>nexts audit. recorded (e_OrderID event) lawful nexts audit L L' \<and> length nexts \<le> 1 \<and>
        list_all (follows event) nexts \<and> audit_of event audit)"

lemma audit_of_system [simp]: "audit_of event (systemAudit event action now)"
  by (simp add: audit_of_def systemAudit_def)

lemma audit_of_detail [simp]:
  "key \<noteq> ''source_message_id'' \<Longrightarrow> audit_of event (add_detail key value audit) = audit_of event audit"
  by (simp add: audit_of_def add_detail_def)

lemma follows_next [simp]:
  "follows event (nextEventAt d k event t now) \<longleftrightarrow> t \<in> set (next_types (e_EventType event))"
  by (simp add: follows_def nextEventAt_def)

lemma handled_refl [simp]: "handled event r L L"
  by (simp add: handled_def)

definition lawful_moves :: "(OrderStatus \<Rightarrow> OrderStatus \<Rightarrow> bool) \<Rightarrow> bool" where
  "lawful_moves T \<longleftrightarrow> (\<forall>a b. T a b \<longrightarrow> lawful a b)"

lemma lawful_moves_simps [simp]: "lawful_moves (moves_to status)" "lawful_moves keeps"
  using lawful_moves_to lawful_keeps by (auto simp: lawful_moves_def)

lemma handledI:
  assumes "outcome r (e_OrderID event) T nexts audit L L'" "lawful_moves T"
    and "length nexts \<le> 1" "list_all (follows event) nexts" "audit_of event audit" "ok r' = ok r"
  shows "handled event r' L L'"
proof (cases "ok r")
  case True
  with assms recorded_mono [of "e_OrderID event" T nexts audit L L' lawful] show ?thesis
    by (auto simp: handled_def outcome_def lawful_moves_def)
qed (use assms in \<open>auto simp: handled_def outcome_def\<close>)

lemma validateEvent_None:
  "validateEvent event t = None \<longleftrightarrow> e_EventType event = t \<and> validateEventIdentity event = None"
  by (simp add: validateEvent_def)

context projector
begin

definition deps_ok :: "'s Dependencies \<Rightarrow> bool" where
  "deps_ok d \<longleftrightarrow> dp_Projector d \<in> {None, Some P} \<and> dp_Orders d \<in> {None, Some (updater_of S)}"

lemma deps_ok_cases:
  "deps_ok d \<Longrightarrow> dp_Projector d = None \<or> dp_Projector d = Some P"
  "deps_ok d \<Longrightarrow> dp_Orders d = None \<or> dp_Orders d = Some (updater_of S)"
  by (auto simp: deps_ok_def)

lemma rejected_handled:
  assumes "inv s" "recordInventoryRejected d P k event now cause s = (r, s')"
    "e_EventType event = ''order.created''"
  shows "inv s' \<and> handled event r (view s) (view s')"
proof -
  have run: "pj_RecordInventoryRejected P event (nextEventAt d k event ''inventory.rejected'' now)
      (add_detail ''error'' (Error cause) (systemAudit event ''inventory.rejected'' now)) s = (r, s')"
    using assms(2) by (simp add: recordInventoryRejected_def)
  from inventory_rejected [OF assms(1) run] show ?thesis
    using assms(3) by (auto simp: next_types_def elim!: handledI)
qed

lemma reserveInventory_handled:
  assumes "inv s" "deps_ok d" "reserveInventory d event s = (r, s')"
  shows "inv s' \<and> handled event r (view s) (view s')"
proof (cases "dp_Projector d = Some P \<and> validateEvent event ''order.created'' = None")
  case False
  then have "s' = s"
    using assms deps_ok_cases(1) [OF assms(2)] by (auto simp: reserveInventory_def split: option.splits)
  with assms show ?thesis by simp
next
  case True
  then have t: "e_EventType event = ''order.created''" by (simp add: validateEvent_None)
  let ?n = "nextEventAt d 0 event ''inventory.reserved'' (Clock d)"
  let ?a = "systemAudit event ''inventory.reserved'' (Clock d)"
  obtain r1 s1 where run: "pj_RecordInventoryReserved P event ?n ?a s = (r1, s1)" by fastforce
  note step = inventory_reserved [OF assms(1) run]
  have one: "handled event r1 (view s) (view s1)"
    by (rule handledI [OF conjunct2 [OF step]]) (simp_all add: t next_types_def)
  show ?thesis
  proof (cases "case dp_InventoryReserver d of Some f \<Rightarrow> f event s | None \<Rightarrow> None")
    case (Some cause)
    then have "recordInventoryRejected d P 0 event (Clock d) cause s = (r, s')"
      using True assms(3) by (simp add: reserveInventory_def)
    with rejected_handled [OF assms(1) _ t] show ?thesis by blast
  next
    case None
    then have res: "(case (r1, s1) of (Inl (ErrInsufficientStock w), s') \<Rightarrow>
        recordInventoryRejected d P 1 event (Clock d) (ErrInsufficientStock w) s' | (r, s') \<Rightarrow> (r, s')) = (r, s')"
      using True assms(3) run by (simp add: reserveInventory_def)
    show ?thesis
    proof (cases "\<exists>w. r1 = Inl (ErrInsufficientStock w)")
      case True
      then obtain w where w: "r1 = Inl (ErrInsufficientStock w)" by blast
      with res have "recordInventoryRejected d P 1 event (Clock d) (ErrInsufficientStock w) s1 = (r, s')" by simp
      from rejected_handled [OF _ this t] step w show ?thesis by simp
    next
      case False
      with res have "(r, s') = (r1, s1)" by (auto split: sum.splits error.splits)
      with step one show ?thesis by simp
    qed
  qed
qed

lemma authorizePayment_handled:
  assumes "inv s" "deps_ok d" "authorizePayment d event s = (r, s')"
  shows "inv s' \<and> handled event r (view s) (view s')"
proof (cases "dp_Projector d = Some P \<and> validateEvent event ''inventory.reserved'' = None")
  case False
  then have "s' = s"
    using assms deps_ok_cases(1) [OF assms(2)] by (auto simp: authorizePayment_def split: option.splits)
  with assms show ?thesis by simp
next
  case True
  then have t: "e_EventType event = ''inventory.reserved''" by (simp add: validateEvent_None)
  have auth: "inv s' \<and> handled event r (view s) (view s')"
    if run: "pj_RecordPaymentAuthorized P event (nextEventAt d k event ''payment.authorized'' (Clock d)) payment
      (systemAudit event ''payment.authorized'' (Clock d)) s = (r, s')" for k payment
    using payment_authorized [OF assms(1) run]
      handledI [OF conjunct2 [OF payment_authorized [OF assms(1) run]]] by (simp add: t next_types_def)
  have failed: "inv s' \<and> handled event r (view s) (view s')"
    if run: "pj_RecordPaymentFailed P event (nextEventAt d k event ''payment.failed'' (Clock d))
      (add_detail ''error'' (Error err) (systemAudit event ''payment.failed'' (Clock d))) s = (r, s')" for k err
    using payment_failed [OF assms(1) run]
      handledI [OF conjunct2 [OF payment_failed [OF assms(1) run]]] by (simp add: t next_types_def)
  show ?thesis
  proof (cases "dp_PaymentAuthorizer d")
    case None
    with True assms(3) auth [of 0] show ?thesis by (simp add: authorizePayment_def Let_def)
  next
    case (Some f)
    with True assms(3) auth [of 1] failed [of 0] show ?thesis
      by (cases "f event s") (simp_all add: authorizePayment_def Let_def)
  qed
qed

lemma createShipment_handled:
  assumes "inv s" "deps_ok d" "createShipment d event s = (r, s')"
  shows "inv s' \<and> handled event r (view s) (view s')"
proof (cases "dp_Projector d = Some P \<and> validateEvent event ''payment.authorized'' = None")
  case False
  then have "s' = s"
    using assms deps_ok_cases(1) [OF assms(2)] by (auto simp: createShipment_def split: option.splits)
  with assms show ?thesis by simp
next
  case True
  then have t: "e_EventType event = ''payment.authorized''" by (simp add: validateEvent_None)
  have created: "inv s' \<and> handled event r (view s) (view s')"
    if run: "pj_RecordShipmentCreated P event (nextEventAt d k event ''shipment.created'' (Clock d)) shipment
      (systemAudit event ''shipment.created'' (Clock d)) s = (r, s')" for k shipment
    using shipment_created [OF assms(1) run]
      handledI [OF conjunct2 [OF shipment_created [OF assms(1) run]]] by (simp add: t next_types_def)
  have failed: "inv s' \<and> handled event r (view s) (view s')"
    if run: "pj_RecordShipmentFailed P event (nextEventAt d k event ''shipment.failed'' (Clock d))
      (add_detail ''error'' (Error err) (systemAudit event ''shipment.failed'' (Clock d))) s = (r, s')" for k err
    using shipment_failed [OF assms(1) run]
      handledI [OF conjunct2 [OF shipment_failed [OF assms(1) run]]] by (simp add: t next_types_def)
  show ?thesis
  proof (cases "dp_ShipmentCreator d")
    case None
    with True assms(3) created [of 0] show ?thesis by (simp add: createShipment_def Let_def)
  next
    case (Some f)
    with True assms(3) created [of 0] failed [of 0] show ?thesis
      by (cases "f event s") (simp_all add: createShipment_def Let_def)
  qed
qed

lemma update_handled:
  assumes "inv s" "st_UpdateOrderStatus S (e_OrderID event) status now n audit s = (r, s')"
    "follows event n" "audit_of event audit"
  shows "inv s' \<and> handled event (map_sum id (\<lambda>_. ()) r) (view s) (view s')"
  using update_status [OF assms(1,2)] handledI [OF conjunct2 [OF update_status [OF assms(1,2)]]] assms(3,4)
  by simp

lemma completeOrder_handled:
  assumes "inv s" "deps_ok d" "completeOrder d event s = (r, s')"
  shows "inv s' \<and> handled event r (view s) (view s')"
proof (cases "s' = s")
  case False
  let ?n = "nextEventAt d 0 event ''order.completed'' (Clock d)"
    and ?a = "systemAudit event ''order.completed'' (Clock d)"
  obtain r1 where "st_UpdateOrderStatus S (e_OrderID event) StatusCompleted (Clock d) ?n ?a s = (r1, s')"
    "r = map_sum id (\<lambda>_. ()) r1" "e_EventType event = ''shipment.created''"
    using False assms(3) deps_ok_cases(2) [OF assms(2)]
    by (auto simp: completeOrder_def updater_of_def validateEvent_None Let_def
        split: option.splits sum.splits prod.splits if_splits)
  with update_handled [OF assms(1)] show ?thesis by (simp add: next_types_def)
qed (use assms in simp)

lemma recordCompensation_handled:
  assumes "inv s" "deps_ok d" "recordCompensation d event s = (r, s')"
  shows "inv s' \<and> handled event r (view s) (view s')"
proof (cases "s' = s")
  case False
  obtain status audit where run: "pj_RecordCompensation P event status audit s = (r, s')"
    and "audit_of event audit"
    using False assms(3) deps_ok_cases(1) [OF assms(2)]
    by (auto simp: recordCompensation_def Let_def split: option.splits sum.splits prod.splits if_splits)
  with compensation [OF assms(1) run] handledI [OF conjunct2 [OF compensation [OF assms(1) run]]]
  show ?thesis by simp
qed (use assms in simp)

lemma queueNotification_handled:
  assumes "inv s" "deps_ok d" "queueNotification d event s = (r, s')"
  shows "inv s' \<and> handled event r (view s) (view s')"
proof (cases "s' = s")
  case False
  obtain audit where run: "pj_RecordNotificationQueued P event audit s = (r, s')" and "audit_of event audit"
    using False assms(3) deps_ok_cases(1) [OF assms(2)]
    by (auto simp: queueNotification_def split: option.splits if_splits)
  with notification_queued [OF assms(1) run] handledI [OF conjunct2 [OF notification_queued [OF assms(1) run]]]
  show ?thesis by simp
qed (use assms in simp)

lemma cancelOrder_handled:
  assumes "inv s" "deps_ok d" "cancelOrder d event s = (r, s')"
  shows "inv s' \<and> handled event r (view s) (view s')"
proof (cases "s' = s")
  case False
  have t: "e_EventType event = ''order.cancel_requested''"
    using False assms(3) by (auto simp: cancelOrder_def validateEvent_None split: option.splits)
  obtain order where o: "dp_Orders d = Some (updater_of S)" "st_GetOrder S (e_OrderID event) s = Inr order"
    "validateEvent event ''order.cancel_requested'' = None"
    "\<not> (o_Status order = StatusCancelled \<or> o_Status order = StatusManualReview)"
    using False assms(3) deps_ok_cases(2) [OF assms(2)]
    by (auto simp: cancelOrder_def updater_of_def split: option.splits sum.splits if_splits)
  show ?thesis
  proof (cases "requiresManualReview order")
    case True
    obtain audit r1 where "st_UpdateOrderStatus S (e_OrderID event) StatusManualReview (Clock d)
        (nextEventAt d 0 event ''order.manual_review_required'' (Clock d)) audit s = (r1, s')"
      "r = map_sum id (\<lambda>_. ()) r1" "audit_of event audit"
      using True assms(3) o
      by (auto simp: cancelOrder_def updater_of_def Let_def split: prod.splits option.splits if_splits)
    with update_handled [OF assms(1)] t show ?thesis by (simp add: next_types_def)
  next
    case 2: False
    obtain audit where run: "pj_RecordOrderCancelled P event
        (nextEventAt d 0 event ''order.cancelled'' (Clock d)) audit s = (r, s')" "audit_of event audit"
      using False 2 assms(3) o deps_ok_cases(1) [OF assms(2)]
      by (auto simp: cancelOrder_def updater_of_def Let_def split: option.splits if_splits)
    with order_cancelled [OF assms(1) run(1)] handledI [OF conjunct2 [OF order_cancelled [OF assms(1) run(1)]]] t
    show ?thesis by (simp add: next_types_def)
  qed
qed (use assms in simp)

lemma deps_ok_defaults [simp]: "deps_ok (withDefaults env d) = deps_ok d"
  by (simp add: deps_ok_def withDefaults_def Let_def)

lemma queue_handled:
  assumes "HandlerForQueue q d = Inr h" "inv s" "deps_ok d" "h env event s = (r, s')"
  shows "inv s' \<and> handled event r (view s) (view s')"
proof -
  have d: "deps_ok (withDefaults env d)" using assms(3) by simp
  note handlers = reserveInventory_handled authorizePayment_handled createShipment_handled
    completeOrder_handled cancelOrder_handled queueNotification_handled recordCompensation_handled
  show ?thesis
    using assms(1,4) handlers [OF assms(2) d, of event r s']
    by (auto simp: HandlerForQueue_def split: if_splits)
qed

end

subsection \<open>The workers over the in-memory store\<close>

lemma ms_deps_ok:
  "ms.deps_ok d \<longleftrightarrow> dp_Projector d \<in> {None, Some MemoryStore_Projector} \<and>
     dp_Orders d \<in> {None, Some (updater_of MemoryStore_Store)}"
  by (simp add: ms.deps_ok_def)

end
