(* ===== verification/Saga.thy ===== *)
theory Saga
  imports Fulfillment
begin

text \<open>
  The fulfilment saga over the in-memory store, as the worker configures it: routing of
  events to queues and handlers, what each handler does to an order on the happy path, on
  cancellation and on compensation, and the run of the whole saga.
\<close>

subsection \<open>Delivering an event to a queue\<close>

definition deliver :: "string \<Rightarrow> 's Dependencies \<Rightarrow> henv \<Rightarrow> OutboxEvent \<Rightarrow> ('s, error, unit) op" where
  "deliver queue d env event s =
     (case HandlerForQueue queue d of Inl err \<Rightarrow> (Inl err, s) | Inr h \<Rightarrow> h env event s)"

text \<open>Each queue in turn receives the event the previous handler appended to the outbox.\<close>

fun run_queues :: "(string \<times> henv) list \<Rightarrow> MemoryStore Dependencies \<Rightarrow> OutboxEvent
    \<Rightarrow> (MemoryStore, error, OutboxEvent) op" where
  "run_queues [] d event s = (Inr event, s)"
| "run_queues ((queue, env) # rest) d event s =
     (case deliver queue d env event s of
        (Inl err, s') \<Rightarrow> (Inl err, s')
      | (Inr _, s') \<Rightarrow> run_queues rest d (last (outbox s')) s')"

abbreviation ms_deps :: "time \<Rightarrow> MemoryStore Dependencies" where
  "ms_deps wall \<equiv> worker_dependencies MemoryStore_Store MemoryStore_Projector wall"

lemma HandlerForQueue_simps:
  "HandlerForQueue InventoryReserveQueue d = Inr (\<lambda>env. reserveInventory (withDefaults env d))"
  "HandlerForQueue PaymentsAuthorizeQueue d = Inr (\<lambda>env. authorizePayment (withDefaults env d))"
  "HandlerForQueue ShipmentsCreateQueue d = Inr (\<lambda>env. createShipment (withDefaults env d))"
  "HandlerForQueue OrdersFinalizeQueue d = Inr (\<lambda>env. completeOrder (withDefaults env d))"
  "HandlerForQueue OrdersCancelQueue d = Inr (\<lambda>env. cancelOrder (withDefaults env d))"
  "HandlerForQueue NotificationsEmailQueue d = Inr (\<lambda>env. queueNotification (withDefaults env d))"
  "HandlerForQueue OrdersCompensateQueue d = Inr (\<lambda>env. recordCompensation (withDefaults env d))"
  by (simp_all add: HandlerForQueue_def queue_defs)

lemma withDefaults_worker [simp]:
  "dp_Projector (withDefaults env (worker_dependencies S P wall)) = Some P"
  "dp_Orders (withDefaults env (worker_dependencies S P wall)) = Some (updater_of S)"
  "dp_InventoryReserver (withDefaults env (worker_dependencies S P wall)) = None"
  "dp_PaymentAuthorizer (withDefaults env (worker_dependencies S P wall)) =
     Some (ProviderPaymentAuthorizer_AuthorizePayment (Some (st_GetOrder S)) (Some FakePaymentProvider))"
  "dp_ShipmentCreator (withDefaults env (worker_dependencies S P wall)) =
     Some (ProviderShipmentCreator_CreateShipment (Some (st_GetOrder S))
       (Some FakeShipmentProvider_CreateShipment) None wall)"
  "Clock (withDefaults env (worker_dependencies S P wall)) = he_now env"
  by (simp_all add: withDefaults_def worker_dependencies_def Let_def Clock_def clock_of_def)

lemma NewID_nonempty [simp]:
  "NewID (withDefaults env (worker_dependencies S P wall)) prefix k \<noteq> []"
  by (simp add: NewID_def withDefaults_def worker_dependencies_def default_NewID_def Let_def
      split: option.splits)

text \<open>An event that passes a handler's checks.\<close>

definition valid_event :: "string \<Rightarrow> string \<Rightarrow> OutboxEvent \<Rightarrow> bool" where
  "valid_event t oid e \<longleftrightarrow> validateEvent e t = None \<and> e_OrderID e = oid"

lemma valid_event_simps:
  "valid_event t oid e \<longleftrightarrow> e_EventType e = t \<and> e_OrderID e = oid \<and> e_MessageID e \<noteq> [] \<and>
     e_CorrelationID e \<noteq> [] \<and> e_CausationID e \<noteq> [] \<and> e_OrderID e \<noteq> [] \<and> e_MerchantID e \<noteq> []"
  by (auto simp: valid_event_def validateEvent_def validateEventIdentity_def)

lemma valid_next:
  assumes "valid_event t oid e" "NewID d ''msg'' k \<noteq> []"
  shows "valid_event t' oid (WithEnvelopeDefaults ((nextEventAt d k e t' now)\<lparr>e_Payload := p\<rparr>))"
  using assms by (auto simp: valid_event_simps nextEventAt_def)

subsection \<open>The steps of the happy path\<close>

text \<open>
  One delivery rewrote the order to \<open>order'\<close> and appended one valid event of type \<open>t'\<close>
  with the same correlation id, caused by the delivered event.
\<close>

definition advanced :: "string \<Rightarrow> string \<Rightarrow> OutboxEvent \<Rightarrow> Order \<Rightarrow> MemoryStore \<Rightarrow> MemoryStore \<Rightarrow> bool" where
  "advanced t' oid e order' s s' \<longleftrightarrow> mapget (orders s') = (mapget (orders s))(oid \<mapsto> order') \<and>
     (\<exists>n. outbox s' = outbox s @ [n] \<and> valid_event t' oid n \<and>
        e_CorrelationID n = e_CorrelationID e \<and> e_CausationID n = e_MessageID e)"

lemma advancedI:
  assumes "valid_event t oid e" "NewID d ''msg'' k \<noteq> []"
    and "s' = append_audit a (appendOutboxEvent ((nextEventAt d k e t' now)\<lparr>e_Payload := p\<rparr>) (put_order oid order' s))"
  shows "advanced t' oid e order' s s'"
  using valid_next [OF assms(1,2), where t' = t' and now = now and p = p] assms
  by (auto simp: advanced_def store_simps update_conv' nextEventAt_def valid_event_simps)

lemma reserve_step:
  assumes "valid_event ''order.created'' oid e" "mapget (orders s) oid = Some order"
    "o_Status order = StatusPendingFulfillment"
  shows "\<exists>s'. deliver InventoryReserveQueue (ms_deps wall) env e s = (Inr (), s') \<and>
    advanced ''inventory.reserved'' oid e (order\<lparr>o_Items := set_items ''reserved'' (o_Items order),
      o_Status := StatusInventoryReserved, o_UpdatedAt := he_now env\<rparr>) s s'"
proof -
  have "CanTransitionOrderStatus StatusPendingFulfillment StatusInventoryReserved"
    by (simp add: CanTransitionOrderStatus_def)
  then show ?thesis
    using assms
    by (auto simp: deliver_def HandlerForQueue_simps reserveInventory_def valid_event_def Let_def
        MemoryStore_Projector_def MemoryStore_RecordInventoryReserved_def nextEventAt_def [of _ _ _ _ "he_now env"]
        intro!: advancedI [OF assms(1) NewID_nonempty, unfolded nextEventAt_def])
qed

lemmas step_defs = deliver_def HandlerForQueue_simps valid_event_def Let_def MemoryStore_Projector_def
  MemoryStore_Store_def updater_of_def MemoryStore_GetOrder_def

lemma authorize_step:
  assumes "valid_event ''inventory.reserved'' oid e" "mapget (orders s) oid = Some order"
    "o_Status order = StatusInventoryReserved" "o_Payment order = Some p" "p_CredentialRef p \<noteq> []"
    "p_Provider p \<noteq> []"
  shows "\<exists>s'. deliver PaymentsAuthorizeQueue (ms_deps wall) env e s = (Inr (), s') \<and>
    advanced ''payment.authorized'' oid e (order\<lparr>o_Payment := Some \<lparr>p_Provider = p_Provider p, p_Status = ''authorized'',
      p_AuthorizationID = ''pay_fake_'' @ o_OrderID order, p_CredentialRef = p_CredentialRef p\<rparr>,
      o_Status := StatusPaymentAuthorized, o_UpdatedAt := he_now env\<rparr>) s s'"
proof -
  have "CanTransitionOrderStatus StatusInventoryReserved StatusPaymentAuthorized"
    by (simp add: CanTransitionOrderStatus_def)
  then show ?thesis
    using assms
    by (auto simp: step_defs authorizePayment_def MemoryStore_RecordPaymentAuthorized_def normalizedPayment_def
        ProviderPaymentAuthorizer_AuthorizePayment_def FakePaymentProvider_def
        FakePaymentProvider_Authorize_def nextEventAt_def [of _ _ _ _ "he_now env"]
        intro!: advancedI [OF assms(1) NewID_nonempty, unfolded nextEventAt_def])
qed

definition fake_shipment :: "time \<Rightarrow> Order \<Rightarrow> Shipment" where
  "fake_shipment wall order =
     \<lparr>s_ShipmentID = ''shp_fake_'' @ o_OrderID order, s_Status = ''created'', s_Carrier = ''fake-carrier'',
      s_TrackingNumber = ''TRACK-'' @ o_OrderID order,
      s_Events = [\<lparr>se_OccurredAt = wall, se_Status = ''created'',
        se_Description = ''Shipment booking created by provider adapter.''\<rparr>]\<rparr>"

lemma ship_step:
  assumes "valid_event ''payment.authorized'' oid e" "mapget (orders s) oid = Some order"
    "o_Status order = StatusPaymentAuthorized" "o_ShippingAddressRef order \<noteq> []"
  shows "\<exists>s'. deliver ShipmentsCreateQueue (ms_deps wall) env e s = (Inr (), s') \<and>
    advanced ''shipment.created'' oid e (order\<lparr>o_Shipment := Some (fake_shipment wall order),
      o_Status := StatusShipmentCreated, o_UpdatedAt := he_now env\<rparr>) s s'"
proof -
  have "CanTransitionOrderStatus StatusPaymentAuthorized StatusShipmentCreated"
    by (simp add: CanTransitionOrderStatus_def)
  then show ?thesis
    using assms
    by (auto simp: step_defs createShipment_def MemoryStore_RecordShipmentCreated_def normalizedShipment_def
        ProviderShipmentCreator_CreateShipment_def FakeShipmentProvider_CreateShipment_def fake_shipment_def
        nextEventAt_def [of _ _ _ _ "he_now env"]
        intro!: advancedI [OF assms(1) NewID_nonempty, unfolded nextEventAt_def])
qed

lemma complete_step:
  assumes "valid_event ''shipment.created'' oid e" "mapget (orders s) oid = Some order"
    "o_Status order = StatusShipmentCreated"
  shows "\<exists>s'. deliver OrdersFinalizeQueue (ms_deps wall) env e s = (Inr (), s') \<and>
    advanced ''order.completed'' oid e (order\<lparr>o_Status := StatusCompleted, o_UpdatedAt := he_now env\<rparr>) s s'"
proof -
  have "CanTransitionOrderStatus StatusShipmentCreated StatusCompleted"
    by (simp add: CanTransitionOrderStatus_def)
  then show ?thesis
    using assms
    by (auto simp: step_defs completeOrder_def MemoryStore_UpdateOrderStatus_def
        nextEventAt_def [of _ _ _ _ "he_now env"]
        intro!: advancedI [OF assms(1) NewID_nonempty, unfolded nextEventAt_def])
qed

text \<open>A delivery with the event it appended.\<close>

definition linked :: "string \<Rightarrow> MemoryStore Dependencies \<Rightarrow> henv \<Rightarrow> string \<Rightarrow> string \<Rightarrow> Order
    \<Rightarrow> OutboxEvent \<Rightarrow> MemoryStore \<Rightarrow> OutboxEvent \<Rightarrow> MemoryStore \<Rightarrow> bool" where
  "linked q d env t' oid order' e s n s' \<longleftrightarrow> deliver q d env e s = (Inr (), s') \<and>
     valid_event t' oid n \<and> outbox s' = outbox s @ [n] \<and>
     mapget (orders s') = (mapget (orders s))(oid \<mapsto> order') \<and>
     e_CorrelationID n = e_CorrelationID e \<and> e_CausationID n = e_MessageID e"

lemma linkedI:
  "\<exists>s'. deliver q d env e s = (Inr (), s') \<and> advanced t' oid e order' s s' \<Longrightarrow>
   \<exists>n s'. linked q d env t' oid order' e s n s'"
  by (auto simp: linked_def advanced_def)

subsection \<open>Properties\<close>

text \<open>
  C10. The happy path completes: from any stored order in the initial status with a payment
  credential, a provider name and an address reference, delivering its \<open>order.created\<close> event
  and then each emitted event to the queue of its type succeeds four times and leaves the
  order completed with every item reserved, the payment authorized and the shipment
  created. The events emitted form one causation chain under one correlation id, and no
  other order changes.
\<close>

theorem happy_path_completes:
  assumes "valid_event ''order.created'' oid e" "mapget (orders s) oid = Some order"
    and "o_Status order = StatusPendingFulfillment" "o_ShippingAddressRef order \<noteq> []"
    and "o_Payment order = Some p" "p_CredentialRef p \<noteq> []" "p_Provider p \<noteq> []"
  shows "\<exists>e1 e2 e3 e4 s4 order4.
    run_queues [(InventoryReserveQueue, env1), (PaymentsAuthorizeQueue, env2),
      (ShipmentsCreateQueue, env3), (OrdersFinalizeQueue, env4)] (ms_deps wall) e s = (Inr e4, s4) \<and>
    outbox s4 = outbox s @ [e1, e2, e3, e4] \<and>
    map e_EventType [e1, e2, e3, e4] =
      [''inventory.reserved'', ''payment.authorized'', ''shipment.created'', ''order.completed''] \<and>
    map e_CausationID [e1, e2, e3, e4] = map e_MessageID [e, e1, e2, e3] \<and>
    map e_CorrelationID [e1, e2, e3, e4] = replicate 4 (e_CorrelationID e) \<and>
    mapget (orders s4) = (mapget (orders s))(oid \<mapsto> order4) \<and> same_terms order order4 \<and>
    o_Status order4 = StatusCompleted \<and>
    list_all (\<lambda>item. i_ReservationStatus item = ''reserved'') (o_Items order4) \<and>
    map_option p_Status (o_Payment order4) = Some ''authorized'' \<and>
    map_option s_Status (o_Shipment order4) = Some ''created''"
proof -
  let ?d = "ms_deps wall"
  let ?o1 = "order\<lparr>o_Items := set_items ''reserved'' (o_Items order),
      o_Status := StatusInventoryReserved, o_UpdatedAt := he_now env1\<rparr>"
  let ?o2 = "?o1\<lparr>o_Payment := Some \<lparr>p_Provider = p_Provider p, p_Status = ''authorized'',
      p_AuthorizationID = ''pay_fake_'' @ o_OrderID ?o1, p_CredentialRef = p_CredentialRef p\<rparr>,
      o_Status := StatusPaymentAuthorized, o_UpdatedAt := he_now env2\<rparr>"
  let ?o3 = "?o2\<lparr>o_Shipment := Some (fake_shipment wall ?o2),
      o_Status := StatusShipmentCreated, o_UpdatedAt := he_now env3\<rparr>"
  let ?o4 = "?o3\<lparr>o_Status := StatusCompleted, o_UpdatedAt := he_now env4\<rparr>"
  obtain e1 s1 where 1: "linked InventoryReserveQueue ?d env1 ''inventory.reserved'' oid ?o1 e s e1 s1"
    using linkedI [OF reserve_step [OF assms(1-3)]] by blast
  obtain e2 s2 where 2: "linked PaymentsAuthorizeQueue ?d env2 ''payment.authorized'' oid ?o2 e1 s1 e2 s2"
    using linkedI [OF authorize_step [of oid e1 s1 ?o1 p wall env2]] 1 assms(5-7) by (auto simp: linked_def [of _ _ env1])
  obtain e3 s3 where 3: "linked ShipmentsCreateQueue ?d env3 ''shipment.created'' oid ?o3 e2 s2 e3 s3"
    using linkedI [OF ship_step [of oid e2 s2 ?o2 wall env3]] 2 assms(4) by (auto simp: linked_def [of PaymentsAuthorizeQueue])
  obtain e4 s4 where 4: "linked OrdersFinalizeQueue ?d env4 ''order.completed'' oid ?o4 e3 s3 e4 s4"
    using linkedI [OF complete_step [of oid e3 s3 ?o3 wall env4]] 3 by (auto simp: linked_def [of ShipmentsCreateQueue])
  have "run_queues [(InventoryReserveQueue, env1), (PaymentsAuthorizeQueue, env2),
      (ShipmentsCreateQueue, env3), (OrdersFinalizeQueue, env4)] ?d e s = (Inr e4, s4)"
    using 1 2 3 4 by (simp add: linked_def)
  moreover have "same_terms order ?o4" by (simp add: same_terms_def)
  moreover have "mapget (orders s4) = (mapget (orders s))(oid \<mapsto> ?o4)"
    using 1 2 3 4 by (simp add: linked_def)
  ultimately show ?thesis
    using 1 2 3 4
    by (intro exI [of _ e1] exI [of _ e2] exI [of _ e3] exI [of _ e4] exI [of _ s4] exI [of _ ?o4])
      (simp add: linked_def valid_event_simps numeral_eq_Suc set_items_def list_all_iff fake_shipment_def)
qed

lemma sample_event_valid:
  "mid \<noteq> [] \<Longrightarrow> valid_event t ''ord_1'' (sample_event mid t)"
  by (simp add: valid_event_simps sample_event_def)

definition sample_env :: henv where
  "sample_env = \<lparr>he_now = 9, he_rand = (\<lambda>_. Some ''abcd'')\<rparr>"

lemma sample_order_status: "o_Status sample_order = StatusPendingFulfillment"
  by (simp add: sample_order_def)

lemma sample_store_order: "mapget (orders sample_store) ''ord_1'' = Some sample_order"
  by simp

theorem happy_path_completes_witness:
  "\<exists>e4 s4 order4. run_queues [(InventoryReserveQueue, sample_env), (PaymentsAuthorizeQueue, sample_env),
      (ShipmentsCreateQueue, sample_env), (OrdersFinalizeQueue, sample_env)] (ms_deps 11)
      (sample_event ''msg_1'' ''order.created'') sample_store = (Inr e4, s4) \<and>
    mapget (orders s4) ''ord_1'' = Some order4 \<and> o_Status order4 = StatusCompleted"
proof -
  let ?p = "\<lparr>p_Provider = ''card'', p_Status = ''pending_authorization'',
       p_AuthorizationID = [], p_CredentialRef = ''paycred_1''\<rparr>"
  have o: "mapget (orders sample_store) ''ord_1'' = Some sample_order"
    "o_Status sample_order = StatusPendingFulfillment" "o_ShippingAddressRef sample_order \<noteq> []"
    "o_Payment sample_order = Some ?p" "p_CredentialRef ?p \<noteq> []" "p_Provider ?p \<noteq> []"
    by simp (simp_all add: sample_order_def)
  from happy_path_completes [OF sample_event_valid [of "''msg_1''"] o, of sample_env sample_env sample_env
      sample_env 11] show ?thesis by (auto simp del: run_queues.simps)
qed

text \<open>
  C11. Whatever the providers answer, every handler on every event does at most one thing: it
  leaves the store unchanged, or it returns success having advanced the order the event
  names along the state machine, with one audit log that names the event and at most one
  new event. A new event keeps the order, merchant and correlation ids, names the handled
  event as its cause and has a type the saga allows after it.
\<close>

theorem handlers_follow_the_saga:
  assumes "HandlerForQueue q d = Inr h" "ms_inv s"
    and "dp_Projector d \<in> {None, Some MemoryStore_Projector}"
    and "dp_Orders d \<in> {None, Some (updater_of MemoryStore_Store)}"
    and "h env event s = (r, s')"
  shows "ms_inv s' \<and> handled event r (ms_view s) (ms_view s')"
  using ms.queue_handled [OF assms(1,2) _ assms(5)] assms(3,4) by (simp add: ms_deps_ok)

theorem handlers_follow_the_saga_witness:
  "\<exists>s' n. deliver InventoryReserveQueue (ms_deps 11) sample_env (sample_event ''msg_1'' ''order.created'') sample_store = (Inr (), s') \<and>
     ms_inv s' \<and> handled (sample_event ''msg_1'' ''order.created'') (Inr ()) (ms_view sample_store) (ms_view s') \<and>
     outbox s' = outbox sample_store @ [n] \<and> e_EventType n = ''inventory.reserved''"
proof -
  obtain s' n where step: "deliver InventoryReserveQueue (ms_deps 11) sample_env (sample_event ''msg_1'' ''order.created'') sample_store = (Inr (), s')"
    and n: "outbox s' = outbox sample_store @ [n]" "e_EventType n = ''inventory.reserved''"
    using reserve_step [OF sample_event_valid sample_store_order sample_order_status, of "''msg_1''" 11 sample_env]
    by (auto simp: advanced_def valid_event_simps)
  then have run: "reserveInventory (withDefaults sample_env (ms_deps 11)) (sample_event ''msg_1'' ''order.created'') sample_store = (Inr (), s')"
    by (simp add: deliver_def HandlerForQueue_simps)
  have d: "dp_Projector (ms_deps 11) \<in> {None, Some MemoryStore_Projector}"
    "dp_Orders (ms_deps 11) \<in> {None, Some (updater_of MemoryStore_Store)}"
    by (simp_all add: worker_dependencies_def)
  show ?thesis
    using handlers_follow_the_saga [OF HandlerForQueue_simps(1) sample_store_inv d run] step n by blast
qed

text \<open>Rank of an event type in the saga: what it causes is of higher rank.\<close>

definition saga_rank :: "string \<Rightarrow> nat" where
  "saga_rank t = (if t = ''order.created'' then 0 else if t = ''inventory.reserved'' then 1
     else if t = ''payment.authorized'' then 2 else if t = ''shipment.created'' then 3
     else if t = ''order.cancel_requested'' then 3 else 4)"

lemma next_types_rank: "t' \<in> set (next_types t) \<Longrightarrow> saga_rank t < saga_rank t'"
  by (auto simp: next_types_def saga_rank_def split: if_splits)

text \<open>Handling \<open>e\<close> on some store, with some providers, appends \<open>e'\<close> to the outbox.\<close>

definition emits :: "OutboxEvent \<Rightarrow> OutboxEvent \<Rightarrow> bool" where
  "emits e e' \<longleftrightarrow> (\<exists>q d h env s s'. HandlerForQueue q d = Inr h \<and> ms_inv s \<and>
     dp_Projector d \<in> {None, Some MemoryStore_Projector} \<and>
     dp_Orders d \<in> {None, Some (updater_of MemoryStore_Store)} \<and>
     h env e s = (Inr (), s') \<and> e' \<in> set (drop (length (outbox s)) (outbox s')))"

lemma emitsI:
  "HandlerForQueue q d = Inr h \<Longrightarrow> ms_inv s \<Longrightarrow>
   dp_Projector d \<in> {None, Some MemoryStore_Projector} \<Longrightarrow>
   dp_Orders d \<in> {None, Some (updater_of MemoryStore_Store)} \<Longrightarrow>
   h env e s = (Inr (), s') \<Longrightarrow> e' \<in> set (drop (length (outbox s)) (outbox s')) \<Longrightarrow> emits e e'"
  unfolding emits_def by blast

lemma emits_follows:
  assumes "emits e e'"
  shows "e_EventType e' \<in> set (next_types (e_EventType e)) \<and> e_OrderID e' = e_OrderID e \<and>
    e_CorrelationID e' = e_CorrelationID e"
proof -
  obtain q d h env s s' where h: "HandlerForQueue q d = Inr h" "ms_inv s" "ms.deps_ok d"
    "h env e s = (Inr (), s')" and e': "e' \<in> set (drop (length (outbox s)) (outbox s'))"
    using assms unfolding emits_def ms_deps_ok by blast
  have "ms_view s' \<noteq> ms_view s"
  proof
    assume "ms_view s' = ms_view s"
    then have "outbox s' = outbox s" by (metis ms_view_simps(2))
    with e' show False by simp
  qed
  with ms.queue_handled [OF h] obtain nexts evs where evs: "outbox s' = outbox s @ evs"
    "map event_key evs = map event_key nexts" "list_all (follows e) nexts"
    by (auto simp: handled_def recorded_def)
  then have "e' \<in> set evs" using e' by simp
  then have "event_key e' \<in> set (map event_key nexts)" using evs(2) by (metis image_eqI list.set_map)
  then obtain n where "n \<in> set nexts" "event_key e' = event_key n" by auto
  with evs(3) show ?thesis by (auto simp: list_all_iff follows_def event_key_def)
qed

lemma emits_chain:
  "(emits ^^ n) e e' \<Longrightarrow> saga_rank (e_EventType e) + n \<le> saga_rank (e_EventType e') \<and>
   e_OrderID e' = e_OrderID e \<and> e_CorrelationID e' = e_CorrelationID e"
proof (induction n arbitrary: e')
  case (Suc n)
  then obtain m where m: "(emits ^^ n) e m" "emits m e'" by auto
  from emits_follows [OF m(2)] have "saga_rank (e_EventType m) < saga_rank (e_EventType e')"
    "e_OrderID e' = e_OrderID m" "e_CorrelationID e' = e_CorrelationID m"
    using next_types_rank by simp_all
  with Suc.IH [OF m(1)] show ?case by simp
qed simp

text \<open>
  The saga cannot loop: in a chain of events in which each is emitted by the handling of
  the one before (by any handler, on any store, with any provider answers), there are at
  most four steps, all for the same order and under the same correlation id.
\<close>

theorem saga_chain_bounded:
  assumes "(emits ^^ n) e e'"
  shows "n \<le> 4 \<and> e_OrderID e' = e_OrderID e \<and> e_CorrelationID e' = e_CorrelationID e"
proof -
  have "saga_rank (e_EventType e') \<le> 4" by (simp add: saga_rank_def)
  with emits_chain [OF assms] show ?thesis by simp
qed

text \<open>
  C27. Cancellation has the two outcomes of the design. A cancellation event for an order that
  is pending cancellation and has no live shipment cancels it: reserved items are released,
  an authorized payment is voided and \<open>order.cancelled\<close> is emitted. When the order has a shipment
  with a status other than empty or failed the order goes to manual review instead, its items and payment are kept and
  \<open>order.manual_review_required\<close> is emitted. A repeated delivery changes nothing.
\<close>

theorem cancellation_outcome:
  assumes "valid_event ''order.cancel_requested'' oid e" "mapget (orders s) oid = Some order"
    and "o_Status order = StatusCancellationPending"
  shows "\<exists>s' order'. deliver OrdersCancelQueue (ms_deps wall) env e s = (Inr (), s') \<and>
    (if \<exists>shipment. o_Shipment order = Some shipment \<and> s_Status shipment \<notin> {[], ''failed''}
     then advanced ''order.manual_review_required'' oid e order' s s' \<and>
       order' = order\<lparr>o_Status := StatusManualReview, o_UpdatedAt := he_now env\<rparr>
     else advanced ''order.cancelled'' oid e order' s s' \<and>
       order' = order\<lparr>o_Status := StatusCancelled, o_UpdatedAt := he_now env,
         o_Items := release_items (o_Items order), o_Payment := void_payment (o_Payment order)\<rparr> \<and>
       \<not> hasReservedInventory order' \<and> \<not> hasAuthorizedPayment order') \<and>
    deliver OrdersCancelQueue (ms_deps wall) env' e s' = (Inr (), s')"
proof -
  have t: "CanTransitionOrderStatus StatusCancellationPending StatusManualReview"
    "CanTransitionOrderStatus StatusCancellationPending StatusCancelled"
    by (simp_all add: CanTransitionOrderStatus_def)
  have again: "deliver OrdersCancelQueue (ms_deps wall) env' e s' = (Inr (), s')"
    if "mapget (orders s') oid = Some order'" "o_Status order' \<in> {StatusCancelled, StatusManualReview}" for s' order'
    using that assms(1) by (auto simp: step_defs cancelOrder_def)
  have live: "(\<exists>shipment. o_Shipment order = Some shipment \<and> s_Status shipment \<notin> {[], ''failed''}) \<longleftrightarrow> requiresManualReview order"
    using assms(3) by (auto simp: requiresManualReview_def split: option.splits)
  show ?thesis
  proof (cases "requiresManualReview order")
    case True
    let ?o = "order\<lparr>o_Status := StatusManualReview, o_UpdatedAt := he_now env\<rparr>"
    have "\<exists>s'. deliver OrdersCancelQueue (ms_deps wall) env e s = (Inr (), s') \<and>
        advanced ''order.manual_review_required'' oid e ?o s s'"
      using t True assms
      by (auto simp: step_defs cancelOrder_def MemoryStore_UpdateOrderStatus_def
          nextEventAt_def [of _ _ _ _ "he_now env"]
          intro!: advancedI [OF assms(1) NewID_nonempty, unfolded nextEventAt_def])
    with True again [of _ ?o] show ?thesis unfolding live by (fastforce simp: advanced_def [of _ _ _ ?o])
  next
    case False
    let ?o = "order\<lparr>o_Status := StatusCancelled, o_UpdatedAt := he_now env,
         o_Items := release_items (o_Items order), o_Payment := void_payment (o_Payment order)\<rparr>"
    have v: "valid_event ''order.cancel_requested'' (e_OrderID e) e" using assms(1) by (simp add: valid_event_def)
    have "\<exists>s'. deliver OrdersCancelQueue (ms_deps wall) env e s = (Inr (), s') \<and>
        advanced ''order.cancelled'' oid e ?o s s'"
      using t False assms
      by (auto simp: step_defs cancelOrder_def MemoryStore_RecordOrderCancelled_def
          nextEventAt_def [of _ _ _ _ "he_now env"]
          intro!: advancedI [OF v NewID_nonempty, unfolded nextEventAt_def])
    moreover have "\<not> hasReservedInventory ?o" "\<not> hasAuthorizedPayment ?o"
      by (auto simp: hasReservedInventory_def hasAuthorizedPayment_def release_items_def list_ex_iff
          void_payment_def split: option.splits)
    ultimately show ?thesis unfolding live using False again [of _ ?o] by (fastforce simp: advanced_def [of _ _ _ ?o])
  qed
qed

definition cancelling_store :: MemoryStore where
  "cancelling_store = put_order ''ord_1'' (sample_order\<lparr>o_Status := StatusCancellationPending,
     o_Items := set_items ''reserved'' (o_Items sample_order)\<rparr>) sample_store"

lemma cancelling_store_order:
  "mapget (orders cancelling_store) ''ord_1'' = Some (sample_order\<lparr>o_Status := StatusCancellationPending,
     o_Items := set_items ''reserved'' (o_Items sample_order)\<rparr>)"
  by (simp add: cancelling_store_def put_order_def)

theorem cancellation_outcome_witness:
  "\<exists>s' order'. deliver OrdersCancelQueue (ms_deps 11) sample_env
       (sample_event ''msg_9'' ''order.cancel_requested'') cancelling_store = (Inr (), s') \<and>
     mapget (orders s') ''ord_1'' = Some order' \<and> o_Status order' = StatusCancelled \<and>
     \<not> hasReservedInventory order'"
proof -
  let ?o = "sample_order\<lparr>o_Status := StatusCancellationPending,
     o_Items := set_items ''reserved'' (o_Items sample_order)\<rparr>"
  have "o_Status ?o = StatusCancellationPending" "o_Shipment ?o = None" by (simp_all add: sample_order_def)
  with cancellation_outcome [OF sample_event_valid [of "''msg_9''"] cancelling_store_order, of 11 sample_env sample_env]
  show ?thesis by (auto simp: advanced_def [of _ _ _ _ cancelling_store])
qed

lemma audit_created [simp]:
  "a_CreatedAt (add_detail k v audit) = a_CreatedAt audit" "a_CreatedAt (systemAudit e action now) = now"
  by (simp_all add: add_detail_def systemAudit_def)

text \<open>
  C28. Compensation moves the order to the status of its plan (failed, cancelled or
  cancellation pending) whenever the state machine allows it, releases reserved items after
  a payment or shipment failure and voids an authorized payment after a shipment failure.
  It emits no event: in particular an order whose shipment failed is left pending
  cancellation with nothing in the outbox that would take it further.
\<close>

theorem compensation_outcome:
  assumes "validateEventIdentity e = None" "compensationPlan (e_EventType e) = Inr (status, action)"
    and "mapget (orders s) (e_OrderID e) = Some order" "CanTransitionOrderStatus (o_Status order) status"
  shows "\<exists>s' order'. deliver OrdersCompensateQueue (ms_deps wall) env e s = (Inr (), s') \<and>
    mapget (orders s') = (mapget (orders s))(e_OrderID e \<mapsto> order') \<and> same_terms order order' \<and>
    o_Status order' = status \<and> outbox s' = outbox s \<and>
    (e_EventType e \<in> {''payment.failed'', ''shipment.failed''} \<longrightarrow> \<not> hasReservedInventory order') \<and>
    (e_EventType e = ''shipment.failed'' \<longrightarrow>
       status = StatusCancellationPending \<and> \<not> hasAuthorizedPayment order')"
proof -
  let ?o = "compensated e status (he_now env) order"
  define base where "base = add_detail ''target_order_status'' status (systemAudit e action (he_now env))"
  define audit where "audit = (if e_EventType e = ''payment.failed''
      then add_detail ''stock_release'' ''requested'' base
      else if e_EventType e = ''shipment.failed''
      then add_detail ''payment_void'' ''requested'' (add_detail ''stock_release'' ''requested'' base)
      else base)"
  have run: "deliver OrdersCompensateQueue (ms_deps wall) env e s =
      (Inr (), append_audit audit (put_order (e_OrderID e) ?o s))"
    using assms
    by (simp add: step_defs recordCompensation_def MemoryStore_RecordCompensation_def
        audit_def base_def)
  have "e_EventType e \<in> {''payment.failed'', ''shipment.failed''} \<Longrightarrow> \<not> hasReservedInventory ?o"
    by (auto simp: compensated_def hasReservedInventory_def release_items_def list_ex_iff Let_def)
  moreover have "e_EventType e = ''shipment.failed'' \<Longrightarrow>
      status = StatusCancellationPending \<and> \<not> hasAuthorizedPayment ?o"
    using assms(2) by (auto simp: compensated_def hasAuthorizedPayment_def void_payment_def
        compensationPlan_def Let_def split: option.splits)
  ultimately show ?thesis using run
    by (intro exI [of _ "append_audit audit (put_order (e_OrderID e) ?o s)"] exI [of _ ?o])
      (auto simp: store_simps update_conv')
qed

theorem compensation_outcome_witness:
  "\<exists>s' order'. deliver OrdersCompensateQueue (ms_deps 11) sample_env
       (sample_event ''msg_9'' ''inventory.rejected'') sample_store = (Inr (), s') \<and>
     mapget (orders s') ''ord_1'' = Some order' \<and> o_Status order' = StatusFailed \<and>
     outbox s' = outbox sample_store"
proof -
  let ?e = "sample_event ''msg_9'' ''inventory.rejected''"
  have "validateEventIdentity ?e = None" "e_OrderID ?e = ''ord_1''"
    "compensationPlan (e_EventType ?e) = Inr (StatusFailed, ''compensation.inventory_rejected'')"
    by (simp_all add: validateEventIdentity_def sample_event_def compensationPlan_def)
  moreover have "CanTransitionOrderStatus (o_Status sample_order) StatusFailed"
    by (simp add: sample_order_status CanTransitionOrderStatus_def)
  ultimately show ?thesis
    using compensation_outcome [of ?e StatusFailed "''compensation.inventory_rejected''" sample_store
        sample_order 11 sample_env] by fastforce
qed

text \<open>
  A payment failure is recorded whatever the status of the order: when the authorizer
  returns an error the handler succeeds, overwrites the payment of the order with a failed
  one and emits \<open>payment.failed\<close>, and an order that was already completed stays completed
  with a failed payment.
\<close>

theorem payment_failure_ignores_status:
  assumes "valid_event ''inventory.reserved'' oid e" "mapget (orders s) oid = Some order"
    and "dp_Projector d = Some MemoryStore_Projector" "dp_PaymentAuthorizer d = Some f" "f e s = Inl err"
    and "dp_NewID d = None"
  shows "\<exists>s' order'. deliver PaymentsAuthorizeQueue d env e s = (Inr (), s') \<and>
    advanced ''payment.failed'' oid e order' s s' \<and> o_Status order' = o_Status order \<and>
    map_option p_Status (o_Payment order') = Some ''failed''"
proof -
  have id: "NewID (withDefaults env d) ''msg'' 0 \<noteq> []"
    using assms(6) by (simp add: NewID_def withDefaults_def default_NewID_def Let_def split: option.splits)
  let ?now = "Clock (withDefaults env d)"
  let ?o = "order\<lparr>o_Payment := Some \<lparr>p_Provider = (case o_Payment order of
        Some p \<Rightarrow> if p_Provider p \<noteq> [] then p_Provider p else ''fake-payment'' | None \<Rightarrow> ''fake-payment''),
      p_Status = ''failed'', p_AuthorizationID = [], p_CredentialRef = []\<rparr>, o_UpdatedAt := ?now\<rparr>"
  have dw: "dp_Projector (withDefaults env d) = Some MemoryStore_Projector"
    "dp_PaymentAuthorizer (withDefaults env d) = Some f"
    using assms(3,4) by (simp_all add: withDefaults_def Let_def)
  have "\<exists>s'. deliver PaymentsAuthorizeQueue d env e s = (Inr (), s') \<and>
      advanced ''payment.failed'' oid e ?o s s'"
    using assms(1,2,5) dw
    by (auto simp: step_defs authorizePayment_def MemoryStore_RecordPaymentFailed_def
        nextEventAt_def [of _ _ _ _ ?now] intro!: advancedI [OF assms(1) id, unfolded nextEventAt_def])
  then show ?thesis by fastforce
qed

definition completed_store :: MemoryStore where
  "completed_store = put_order ''ord_1'' (sample_order\<lparr>o_Status := StatusCompleted\<rparr>) sample_store"

text \<open>What the service and the handlers emit.\<close>

definition emitted_types :: "string list" where
  "emitted_types = [''order.created'', ''order.cancel_requested'', ''inventory.reserved'',
     ''inventory.rejected'', ''payment.authorized'', ''payment.failed'', ''shipment.created'',
     ''shipment.failed'', ''order.completed'', ''order.cancelled'', ''order.manual_review_required'']"

lemma emits_types: "emits e e' \<Longrightarrow> e_EventType e' \<in> set emitted_types"
  using emits_follows [of e e'] by (auto simp: next_types_def emitted_types_def split: if_splits)

lemma handler_rejects_types:
  "e_EventType e \<noteq> ''order.created'' \<Longrightarrow> \<exists>err. reserveInventory d e s = (Inl err, s)"
  "e_EventType e \<noteq> ''inventory.reserved'' \<Longrightarrow> \<exists>err. authorizePayment d e s = (Inl err, s)"
  "e_EventType e \<noteq> ''payment.authorized'' \<Longrightarrow> \<exists>err. createShipment d e s = (Inl err, s)"
  "e_EventType e \<noteq> ''shipment.created'' \<Longrightarrow> \<exists>err. completeOrder d e s = (Inl err, s)"
  "e_EventType e \<noteq> ''order.cancel_requested'' \<Longrightarrow> \<exists>err. cancelOrder d e s = (Inl err, s)"
  "\<not> isNotificationEvent (e_EventType e) \<Longrightarrow> \<exists>err. queueNotification d e s = (Inl err, s)"
  "e_EventType e \<notin> {''inventory.rejected'', ''payment.failed'', ''shipment.failed''} \<Longrightarrow>
     \<exists>err. recordCompensation d e s = (Inl err, s)"
  by (auto simp: reserveInventory_def authorizePayment_def createShipment_def completeOrder_def
      cancelOrder_def queueNotification_def recordCompensation_def compensationPlan_def
      validateEvent_def split: option.splits)

text \<open>
  C29. Topology and handlers agree. The queues of the topology are the listed queue names, each
  once, and exactly these have a handler. A handler refuses, leaving the store unchanged,
  every event whose type is not a routing key of its queue. Every event type that the
  service or a handler emits is a routing key of some queue, so the broker can route it.
\<close>

theorem topology_matches_handlers:
  "map qt_Queue QueueTopologies = QueueNames \<and> distinct QueueNames \<and>
   (ok (HandlerForQueue q (d :: 's Dependencies)) \<longleftrightarrow> q \<in> set QueueNames) \<and>
   (t \<in> set QueueTopologies \<and> HandlerForQueue (qt_Queue t) d = Inr h \<and>
      e_EventType e \<notin> set (qt_RoutingKeys t) \<longrightarrow> (\<exists>err. h env e s = (Inl err, s))) \<and>
   (emits e1 e2 \<longrightarrow> e_EventType e2 \<in> set emitted_types) \<and>
   (ty \<in> set emitted_types \<longrightarrow> list_ex (\<lambda>t. RoutingKey ty \<in> set (qt_RoutingKeys t)) QueueTopologies)"
proof (intro conjI impI)
  show "map qt_Queue QueueTopologies = QueueNames"
    by (simp add: QueueTopologies_def QueueNames_def)
  show "distinct QueueNames"
    by (simp add: QueueNames_def queue_defs)
  show "ok (HandlerForQueue q d) \<longleftrightarrow> q \<in> set QueueNames"
    by (auto simp: HandlerForQueue_def QueueNames_def)
next
  assume "t \<in> set QueueTopologies \<and> HandlerForQueue (qt_Queue t) d = Inr h \<and>
      e_EventType e \<notin> set (qt_RoutingKeys t)"
  then show "\<exists>err. h env e s = (Inl err, s)"
    using handler_rejects_types [of e "withDefaults env d" s]
    by (auto simp: QueueTopologies_def HandlerForQueue_simps isNotificationEvent_def)
next
  assume "emits e1 e2"
  then show "e_EventType e2 \<in> set emitted_types" by (rule emits_types)
next
  have trim: "list_all (\<lambda>ty. list_ex (\<lambda>t. RoutingKey ty \<in> set (qt_RoutingKeys t)) QueueTopologies) emitted_types"
    by code_simp
  assume "ty \<in> set emitted_types"
  with trim show "list_ex (\<lambda>t. RoutingKey ty \<in> set (qt_RoutingKeys t)) QueueTopologies"
    by (simp add: list_all_iff)
qed

theorem topology_matches_handlers_witness:
  "(\<exists>err. reserveInventory (withDefaults sample_env (ms_deps 11)) (sample_event ''m'' ''payment.failed'') sample_store
      = (Inl err, sample_store)) \<and>
   list_ex (\<lambda>t. RoutingKey ''order.created'' \<in> set (qt_RoutingKeys t)) QueueTopologies"
proof -
  let ?t = "hd QueueTopologies" and ?e = "sample_event ''m'' ''payment.failed''"
  have "?t \<in> set QueueTopologies" "e_EventType ?e \<notin> set (qt_RoutingKeys ?t)"
    "HandlerForQueue (qt_Queue ?t) (ms_deps 11) = Inr (\<lambda>env. reserveInventory (withDefaults env (ms_deps 11)))"
    by (simp_all add: QueueTopologies_def sample_event_def HandlerForQueue_simps)
  moreover have "''order.created'' \<in> set emitted_types" by (simp add: emitted_types_def)
  ultimately show ?thesis
    using topology_matches_handlers [where t = ?t and d = "ms_deps 11" and e = ?e and env = sample_env
        and s = sample_store and ty = "''order.created''"] by blast
qed

end
