(* ===== verification/Inbox.thy ===== *)
theory Inbox
  imports Order_Model
begin

text \<open>
  Consumer deduplication of \<open>internal/messaging/inbox.go\<close>: the \<open>Inbox\<close> interface with its
  optional \<open>Release\<close>, the in-memory inbox, and the adapter over a persistent recorder. The
  contract \<open>inbox_contract\<close> is what the consumer relies on; the in-memory inbox meets it, and the
  adapter meets it over any recorder that does.
\<close>

record 'i Inbox =
  ib_Record :: "string \<Rightarrow> OutboxEvent \<Rightarrow> ('i, error, bool) op"
  ib_Release :: "(string \<Rightarrow> OutboxEvent \<Rightarrow> ('i, error, unit) op) option"

record 'i InboxRecorder =
  ir_RecordInboxMessage :: "string \<Rightarrow> OutboxEvent \<Rightarrow> ('i, error, bool) op"
  ir_ReleaseInboxMessage :: "(string \<Rightarrow> OutboxEvent \<Rightarrow> ('i, error, unit) op) option"

definition PersistentInbox_Record :: "'i InboxRecorder option \<Rightarrow> string \<Rightarrow> OutboxEvent \<Rightarrow> ('i, error, bool) op" where
  "PersistentInbox_Record recorder consumerName event i =
     (case recorder of
        None \<Rightarrow> (Inl (ErrorString ''persistent inbox recorder is required''), i)
      | Some r \<Rightarrow> ir_RecordInboxMessage r consumerName event i)"

definition PersistentInbox_Release :: "'i InboxRecorder option \<Rightarrow> string \<Rightarrow> OutboxEvent \<Rightarrow> ('i, error, unit) op" where
  "PersistentInbox_Release recorder consumerName event i =
     (case Option.bind recorder ir_ReleaseInboxMessage of
        None \<Rightarrow> (Inl (ErrorString ''persistent inbox recorder does not support release''), i)
      | Some release \<Rightarrow> release consumerName event i)"

definition PersistentInbox :: "'i InboxRecorder option \<Rightarrow> 'i Inbox" where
  "PersistentInbox recorder = \<lparr>ib_Record = PersistentInbox_Record recorder,
     ib_Release = Some (PersistentInbox_Release recorder)\<rparr>"

record MemoryInbox =
  processed :: "unit gomap"

definition NewMemoryInbox :: MemoryInbox where
  "NewMemoryInbox = \<lparr>processed = []\<rparr>"

definition inbox_key :: "string \<Rightarrow> string \<Rightarrow> string" where
  "inbox_key consumerName messageID = consumerName @ '':'' @ messageID"

definition MemoryInbox_Record :: "string \<Rightarrow> OutboxEvent \<Rightarrow> (MemoryInbox, error, bool) op" where
  "MemoryInbox_Record consumerName event i =
     (let key = inbox_key consumerName (e_MessageID event) in
      case mapget (processed i) key of
        Some _ \<Rightarrow> (Inr False, i)
      | None \<Rightarrow> (Inr True, i\<lparr>processed := mapset key () (processed i)\<rparr>))"

definition MemoryInbox_Release :: "string \<Rightarrow> OutboxEvent \<Rightarrow> (MemoryInbox, error, unit) op" where
  "MemoryInbox_Release consumerName event i =
     (Inr (), i\<lparr>processed := mapdel (inbox_key consumerName (e_MessageID event)) (processed i)\<rparr>)"

definition MemoryInbox_Inbox :: "MemoryInbox Inbox" where
  "MemoryInbox_Inbox = \<lparr>ib_Record = MemoryInbox_Record, ib_Release = Some MemoryInbox_Release\<rparr>"

definition MemoryInbox_Recorder :: "MemoryInbox InboxRecorder" where
  "MemoryInbox_Recorder = \<lparr>ir_RecordInboxMessage = MemoryInbox_Record,
     ir_ReleaseInboxMessage = Some MemoryInbox_Release\<rparr>"

subsection \<open>Contract\<close>

text \<open>
  \<open>seen i\<close> are the keys of the recorded messages; \<open>key\<close> is how a consumer and a message id
  make one. An operation that reports an error may have taken effect all the same.
\<close>

locale inbox_contract =
  fixes I :: "'i Inbox" and key :: "string \<Rightarrow> string \<Rightarrow> 'k" and seen :: "'i \<Rightarrow> 'k set"
  assumes record_ok: "ib_Record I c e i = (Inr fresh, i') \<Longrightarrow>
      fresh = (key c (e_MessageID e) \<notin> seen i) \<and> seen i' = insert (key c (e_MessageID e)) (seen i)"
    and record_error: "ib_Record I c e i = (Inl err, i') \<Longrightarrow>
      seen i' \<in> {seen i, insert (key c (e_MessageID e)) (seen i)}"
    and release_ok: "ib_Release I = Some release \<Longrightarrow> release c e i = (Inr (), i') \<Longrightarrow>
      seen i' = seen i - {key c (e_MessageID e)}"
    and release_error: "ib_Release I = Some release \<Longrightarrow> release c e i = (Inl err, i') \<Longrightarrow>
      seen i' \<in> {seen i, seen i - {key c (e_MessageID e)}}"

definition mi_seen :: "MemoryInbox \<Rightarrow> string set" where
  "mi_seen i = {k. mapget (processed i) k \<noteq> None}"

interpretation mi: inbox_contract MemoryInbox_Inbox inbox_key mi_seen
  by unfold_locales
    (auto simp: MemoryInbox_Inbox_def MemoryInbox_Record_def MemoryInbox_Release_def mi_seen_def Let_def
      split: option.splits if_splits)

text \<open>The adapter over a recorder that supports release is as good as the recorder.\<close>

lemma PersistentInbox_inbox:
  assumes "inbox_contract \<lparr>ib_Record = ir_RecordInboxMessage r, ib_Release = ir_ReleaseInboxMessage r\<rparr> key seen"
    and "ir_ReleaseInboxMessage r \<noteq> None"
  shows "inbox_contract (PersistentInbox (Some r)) key seen"
proof -
  have "PersistentInbox (Some r) =
      \<lparr>ib_Record = ir_RecordInboxMessage r, ib_Release = ir_ReleaseInboxMessage r\<rparr>"
    using assms(2)
    by (auto simp: PersistentInbox_def PersistentInbox_Record_def PersistentInbox_Release_def fun_eq_iff)
  with assms(1) show ?thesis by simp
qed

interpretation pi: inbox_contract "PersistentInbox (Some MemoryInbox_Recorder)" inbox_key mi_seen
proof (rule PersistentInbox_inbox)
  show "inbox_contract \<lparr>ib_Record = ir_RecordInboxMessage MemoryInbox_Recorder,
      ib_Release = ir_ReleaseInboxMessage MemoryInbox_Recorder\<rparr> inbox_key mi_seen"
    using mi.inbox_contract_axioms by (simp add: MemoryInbox_Recorder_def MemoryInbox_Inbox_def)
qed (simp add: MemoryInbox_Recorder_def)

end
