(* ===== verification/Consumer.thy ===== *)
theory Consumer
  imports Inbox Topology
begin

text \<open>
  The consumer of \<open>internal/messaging/consumer.go\<close> and the retry publication of
  \<open>rabbitmq_consumer.go\<close>: a delivery is decoded, recorded in the inbox, handled, and settled
  with the broker by an ack, a nack to the dead-letter exchange, or a retry followed by an
  ack.

  \<open>encoding/json\<close> is the argument \<open>unmarshal\<close>. The broker's answers during one call (does the
  ack, the nack, the retry publication fail) are the argument \<open>broker\<close>; the calls made to it
  are logged in the state.
\<close>

text \<open>Values of an AMQP header table, as far as the program tells them apart.\<close>

datatype header =
    HInt int
  | HUint64 "64 word"
  | HString string
  | HBytes string
  | HOther

record Delivery =
  dl_Headers :: "header gomap"
  dl_ContentType :: string
  dl_CorrelationId :: string
  dl_MessageId :: string
  dl_Type :: string
  dl_RoutingKey :: string
  dl_Body :: string

definition firstNonEmpty :: "string list \<Rightarrow> string" where
  "firstNonEmpty values = (case dropWhile (\<lambda>v. v = []) values of v # _ \<Rightarrow> v | [] \<Rightarrow> [])"

definition headerString :: "header gomap \<Rightarrow> string \<Rightarrow> string" where
  "headerString headers key =
     (case mapget headers key of
        Some (HString value) \<Rightarrow> value
      | Some (HBytes value) \<Rightarrow> value
      | _ \<Rightarrow> [])"

definition retryAttempt :: "header gomap \<Rightarrow> int" where
  "retryAttempt headers =
     (case mapget headers ''fulfillhub_retry_attempt'' of
        Some (HInt typed) \<Rightarrow> typed
      | Some (HUint64 typed) \<Rightarrow> sint typed
      | _ \<Rightarrow> 0)"

text \<open>The fields of an event that its body leaves empty are taken from the delivery.\<close>

definition backfill :: "Delivery \<Rightarrow> OutboxEvent \<Rightarrow> OutboxEvent" where
  "backfill delivery event =
     (let event = (if e_MessageID event = [] then event\<lparr>e_MessageID := dl_MessageId delivery\<rparr> else event);
          event = (if e_CorrelationID event = []
            then event\<lparr>e_CorrelationID := dl_CorrelationId delivery\<rparr> else event);
          event = (if e_CausationID event = []
            then event\<lparr>e_CausationID := firstNonEmpty [headerString (dl_Headers delivery) ''causation_id'',
              dl_MessageId delivery, e_MessageID event]\<rparr> else event);
          event = (if e_EventType event = [] then event\<lparr>e_EventType := dl_Type delivery\<rparr> else event)
      in if e_SchemaVersion event = 0 then event\<lparr>e_SchemaVersion := EventSchemaVersion\<rparr> else event)"

definition decodeDelivery :: "(string \<Rightarrow> error + OutboxEvent) \<Rightarrow> Delivery \<Rightarrow> error + OutboxEvent" where
  "decodeDelivery unmarshal delivery =
     (case unmarshal (dl_Body delivery) of
        Inl err \<Rightarrow> Inl err
      | Inr event \<Rightarrow>
        (let event = backfill delivery event
         in if e_SchemaVersion event \<noteq> EventSchemaVersion
            then Inl (ErrorString (''unsupported event schema version '' @ Itoa (e_SchemaVersion event)))
            else Inr (WithEnvelopeDefaults event)))"

subsection \<open>Consumers\<close>

record ('i, 's) Consumer =
  cn_Queue :: string
  cn_ConsumerName :: string
  cn_Inbox :: "'i Inbox option"
  cn_Handler :: "(OutboxEvent \<Rightarrow> ('s, error, unit) op) option"
  cn_Retry :: bool
  cn_MaxRetries :: int

datatype broker_call = Ack | Nack | Retry OutboxEvent int

record broker =
  br_ack :: "error option"
  br_nack :: "error option"
  br_retry :: "error option"

record ('i, 's) world =
  w_inbox :: 'i
  w_store :: 's
  w_calls :: "broker_call list"

definition Consumer_validate :: "('i, 's) Consumer \<Rightarrow> error option" where
  "Consumer_validate c =
     (case cn_Inbox c of
        None \<Rightarrow> Some (ErrorString ''consumer inbox is required'')
      | Some _ \<Rightarrow> (case cn_Handler c of
          None \<Rightarrow> Some (ErrorString ''consumer handler is required'') | Some _ \<Rightarrow> None))"

definition consumerName :: "('i, 's) Consumer \<Rightarrow> string" where
  "consumerName c = (if cn_ConsumerName c \<noteq> [] then cn_ConsumerName c else cn_Queue c)"

definition maxRetries :: "('i, 's) Consumer \<Rightarrow> int" where
  "maxRetries c = (if 0 < cn_MaxRetries c then cn_MaxRetries c else defaultMaxRetryAttempts)"

definition shouldRetry :: "('i, 's) Consumer \<Rightarrow> Delivery \<Rightarrow> bool" where
  "shouldRetry c delivery = (cn_Retry c \<and> retryAttempt (dl_Headers delivery) < maxRetries c)"

text \<open>\<open>errors.Join\<close> as the list of its arguments that are not nil.\<close>

definition ackDelivery :: "broker \<Rightarrow> ('i, 's) world \<Rightarrow> error list \<times> ('i, 's) world" where
  "ackDelivery broker w =
     ((case br_ack broker of Some err \<Rightarrow> [wrap_error ''ack delivery'' err] | None \<Rightarrow> []),
      w\<lparr>w_calls := w_calls w @ [Ack]\<rparr>)"

definition nackDelivery :: "broker \<Rightarrow> ('i, 's) world \<Rightarrow> error list \<times> ('i, 's) world" where
  "nackDelivery broker w =
     ((case br_nack broker of Some err \<Rightarrow> [wrap_error ''nack delivery'' err] | None \<Rightarrow> []),
      w\<lparr>w_calls := w_calls w @ [Nack]\<rparr>)"

definition joined :: "error list \<Rightarrow> error list \<times> ('i, 's) world \<Rightarrow> error list \<times> ('i, 's) world" where
  "joined errs p = (errs @ fst p, snd p)"

definition releaseInbox :: "'i Inbox \<Rightarrow> string \<Rightarrow> OutboxEvent \<Rightarrow> 'i \<Rightarrow> error option \<times> 'i" where
  "releaseInbox inbox name event i =
     (case ib_Release inbox of
        None \<Rightarrow> (None, i)
      | Some release \<Rightarrow>
        (case release name event i of
           (Inl err, i') \<Rightarrow> (Some (wrap_error ''release inbox message'' err), i')
         | (Inr _, i') \<Rightarrow> (None, i')))"

definition handle_failure :: "broker \<Rightarrow> ('i, 's) Consumer \<Rightarrow> 'i Inbox \<Rightarrow> Delivery \<Rightarrow> OutboxEvent \<Rightarrow> error
    \<Rightarrow> ('i, 's) world \<Rightarrow> error list \<times> ('i, 's) world" where
  "handle_failure broker c inbox delivery event err w =
     (case releaseInbox inbox (consumerName c) event (w_inbox w) of
        (Some releaseErr, i) \<Rightarrow>
          joined [wrap_error ''handle delivery'' err, releaseErr] (nackDelivery broker (w\<lparr>w_inbox := i\<rparr>))
      | (None, i) \<Rightarrow>
          (let w = w\<lparr>w_inbox := i\<rparr> in
           if shouldRetry c delivery then
             (let attempt = retryAttempt (dl_Headers delivery) + 1;
                  w = w\<lparr>w_calls := w_calls w @ [Retry event attempt]\<rparr>
              in case br_retry broker of
                   Some retryErr \<Rightarrow> joined [wrap_error ''handle delivery'' err, wrap_error ''publish retry'' retryErr]
                     (nackDelivery broker w)
                 | None \<Rightarrow> joined [wrap_error ''handle delivery'' err] (ackDelivery broker w))
           else joined [wrap_error ''handle delivery'' err] (nackDelivery broker w)))"

definition ProcessDelivery :: "(string \<Rightarrow> error + OutboxEvent) \<Rightarrow> broker \<Rightarrow> ('i, 's) Consumer \<Rightarrow> Delivery
    \<Rightarrow> ('i, 's) world \<Rightarrow> error list \<times> ('i, 's) world" where
  "ProcessDelivery unmarshal broker c delivery w =
     (case (Consumer_validate c, cn_Inbox c, cn_Handler c) of
        (None, Some inbox, Some HandleEvent) \<Rightarrow>
          (case decodeDelivery unmarshal delivery of
             Inl err \<Rightarrow> joined [wrap_error ''decode delivery'' err] (nackDelivery broker w)
           | Inr event \<Rightarrow>
             (case ib_Record inbox (consumerName c) event (w_inbox w) of
                (Inl err, i) \<Rightarrow>
                  joined [wrap_error ''record inbox message'' err] (nackDelivery broker (w\<lparr>w_inbox := i\<rparr>))
              | (Inr recorded, i) \<Rightarrow>
                  (let w = w\<lparr>w_inbox := i\<rparr> in
                   if \<not> recorded then ackDelivery broker w
                   else (case HandleEvent event (w_store w) of
                      (Inl err, s) \<Rightarrow> handle_failure broker c inbox delivery event err (w\<lparr>w_store := s\<rparr>)
                    | (Inr _, s) \<Rightarrow> ackDelivery broker (w\<lparr>w_store := s\<rparr>)))))
      | (err, _) \<Rightarrow> ((case err of Some e \<Rightarrow> [e] | None \<Rightarrow> []), w))"

subsection \<open>Retry messages\<close>

text \<open>
  The message \<open>PublishRetry\<close> sends to the retry exchange, as the delivery the broker makes of
  it when its time in the retry queue has passed. The attempt is stored as an \<open>int32\<close>.
\<close>

definition cloneHeaders :: "header gomap \<Rightarrow> header gomap" where
  "cloneHeaders headers = map (\<lambda>(key, value). (key, value)) headers"

definition int32 :: "int \<Rightarrow> int" where
  "int32 i = sint (word_of_int i :: 32 word)"

definition PublishRetry_message :: "Delivery \<Rightarrow> OutboxEvent \<Rightarrow> int \<Rightarrow> Delivery" where
  "PublishRetry_message delivery event attempt =
     (let routingKey = (if dl_RoutingKey delivery = [] then RoutingKey (e_EventType event)
                        else dl_RoutingKey delivery);
          headers = cloneHeaders (dl_Headers delivery);
          headers = mapset ''fulfillhub_retry_attempt'' (HInt (int32 attempt)) headers;
          headers = mapset ''causation_id'' (HString (firstNonEmpty
            [headerString headers ''causation_id'', e_CausationID event, e_MessageID event])) headers
      in \<lparr>dl_Headers = headers, dl_ContentType = dl_ContentType delivery,
          dl_CorrelationId = firstNonEmpty [dl_CorrelationId delivery, e_CorrelationID event],
          dl_MessageId = firstNonEmpty [dl_MessageId delivery, e_MessageID event],
          dl_Type = firstNonEmpty [dl_Type delivery, e_EventType event],
          dl_RoutingKey = routingKey, dl_Body = dl_Body delivery\<rparr>)"

subsection \<open>Facts\<close>

lemma firstNonEmpty_simps [simp]:
  "firstNonEmpty [] = []" "firstNonEmpty (v # vs) = (if v = [] then firstNonEmpty vs else v)"
  by (simp_all add: firstNonEmpty_def)

lemma cloneHeaders_id [simp]: "cloneHeaders headers = headers"
  by (simp add: cloneHeaders_def)

lemma int32_small: "- (2 ^ 31) \<le> i \<Longrightarrow> i < 2 ^ 31 \<Longrightarrow> int32 i = i"
  by (simp add: int32_def int_word_sint)

lemma retry_attempt_counts:
  "- (2 ^ 31) \<le> k \<Longrightarrow> k < 2 ^ 31 \<Longrightarrow> retryAttempt (dl_Headers (PublishRetry_message d e k)) = k"
  by (simp add: PublishRetry_message_def retryAttempt_def Let_def int32_small)

text \<open>A retried message decodes to the event it was made from.\<close>

lemma headerString_mapset [simp]:
  "headerString (mapset k v headers) k' = (if k = k' then
     (case v of HString x \<Rightarrow> x | HBytes x \<Rightarrow> x | _ \<Rightarrow> []) else headerString headers k')"
  by (simp add: headerString_def split: header.splits)

lemma backfill_fields [simp]:
  "e_MessageID (backfill d x) = (if e_MessageID x = [] then dl_MessageId d else e_MessageID x)"
  "e_CorrelationID (backfill d x) = (if e_CorrelationID x = [] then dl_CorrelationId d else e_CorrelationID x)"
  "e_CausationID (backfill d x) = (if e_CausationID x = []
     then firstNonEmpty [headerString (dl_Headers d) ''causation_id'', dl_MessageId d, e_MessageID (backfill d x)]
     else e_CausationID x)"
  "e_EventType (backfill d x) = (if e_EventType x = [] then dl_Type d else e_EventType x)"
  "e_SchemaVersion (backfill d x) = (if e_SchemaVersion x = 0 then EventSchemaVersion else e_SchemaVersion x)"
  "e_OccurredAt (backfill d x) = e_OccurredAt x" "e_Producer (backfill d x) = e_Producer x"
  "e_MerchantID (backfill d x) = e_MerchantID x" "e_OrderID (backfill d x) = e_OrderID x"
  "e_Payload (backfill d x) = e_Payload x"
  by (simp_all add: backfill_def Let_def)

lemma decode_Inr:
  "decodeDelivery unmarshal d = Inr e \<Longrightarrow> \<exists>x. unmarshal (dl_Body d) = Inr x \<and>
     e_SchemaVersion (backfill d x) = EventSchemaVersion \<and> e = WithEnvelopeDefaults (backfill d x)"
  by (simp add: decodeDelivery_def Let_def split: sum.splits if_split_asm del: backfill_fields)

lemma backfill_retry:
  "backfill (PublishRetry_message d (WithEnvelopeDefaults (backfill d x)) k) x = backfill d x"
  by (rule OutboxEvent_eqI) (simp_all add: PublishRetry_message_def Let_def)

lemma decode_retry:
  assumes "decodeDelivery unmarshal d = Inr e"
  shows "decodeDelivery unmarshal (PublishRetry_message d e k) = Inr e"
proof -
  from decode_Inr [OF assms] obtain x where x: "unmarshal (dl_Body d) = Inr x"
    "e_SchemaVersion (backfill d x) = EventSchemaVersion" "e = WithEnvelopeDefaults (backfill d x)" by blast
  have "dl_Body (PublishRetry_message d e k) = dl_Body d"
    by (simp add: PublishRetry_message_def Let_def)
  with x backfill_retry [of d x k] show ?thesis
    by (simp add: decodeDelivery_def Let_def del: backfill_fields)
qed

subsection \<open>Settlement\<close>

lemma handle_failure_calls:
  assumes "handle_failure broker c inbox d e err w = (errs, w')"
  shows "w_store w' = w_store w \<and> (\<exists>calls. w_calls w' = w_calls w @ calls \<and>
    (calls = [Nack] \<or> (shouldRetry c d \<and> (\<exists>last. last \<in> {Ack, Nack} \<and>
      calls = [Retry e (retryAttempt (dl_Headers d) + 1), last]))))"
  using assms
  by (auto simp: handle_failure_def joined_def ackDelivery_def nackDelivery_def Let_def
      split: prod.splits option.splits if_splits)

lemma ProcessDelivery_cases:
  assumes "Consumer_validate c = None" "ProcessDelivery unmarshal broker c d w = (errs, w')"
  obtains (refused) "w_store w' = w_store w" "w_calls w' = w_calls w @ [Nack]"
  | (duplicate) inbox e i where "cn_Inbox c = Some inbox" "decodeDelivery unmarshal d = Inr e"
      "ib_Record inbox (consumerName c) e (w_inbox w) = (Inr False, i)"
      "w' = w\<lparr>w_inbox := i, w_calls := w_calls w @ [Ack]\<rparr>"
  | (done_) inbox h e i s where "cn_Inbox c = Some inbox" "cn_Handler c = Some h"
      "decodeDelivery unmarshal d = Inr e" "ib_Record inbox (consumerName c) e (w_inbox w) = (Inr True, i)"
      "h e (w_store w) = (Inr (), s)" "w' = w\<lparr>w_inbox := i, w_store := s, w_calls := w_calls w @ [Ack]\<rparr>"
  | (failed) inbox h e i err s where "cn_Inbox c = Some inbox" "cn_Handler c = Some h"
      "decodeDelivery unmarshal d = Inr e" "ib_Record inbox (consumerName c) e (w_inbox w) = (Inr True, i)"
      "h e (w_store w) = (Inl err, s)"
      "handle_failure broker c inbox d e err (w\<lparr>w_inbox := i, w_store := s\<rparr>) = (errs, w')"
proof -
  obtain inbox h where ih: "cn_Inbox c = Some inbox" "cn_Handler c = Some h"
    using assms(1) by (auto simp: Consumer_validate_def split: option.splits)
  note run = assms(2) [unfolded ProcessDelivery_def, simplified ih assms(1)]
  show thesis
  proof (cases "decodeDelivery unmarshal d")
    case (Inl err)
    with run show thesis by (intro refused) (auto simp: joined_def nackDelivery_def)
  next
    case (Inr e)
    obtain r i where rec: "ib_Record inbox (consumerName c) e (w_inbox w) = (r, i)" by fastforce
    show thesis
    proof (cases r)
      case (Inl err)
      with run Inr rec show thesis by (intro refused) (auto simp: joined_def nackDelivery_def)
    next
      case r: (Inr fresh)
      obtain hr s where h: "h e (w_store w) = (hr, s)" by fastforce
      show thesis
      proof (cases fresh)
        case False
        with run Inr rec r ih show thesis by (intro duplicate) (auto simp: ackDelivery_def)
      next
        case True
        with run Inr rec r ih h show thesis
          by (cases hr) (auto simp: ackDelivery_def intro: done_ failed)
      qed
    qed
  qed
qed

context inbox_contract
begin

text \<open>A failed handling gives the message back to the inbox.\<close>

lemma failure_unsees:
  assumes "ib_Record I name e i = (Inr True, i1)" "ib_Release I = Some release"
    "releaseInbox I name e i1 = (None, i2)"
  shows "seen i2 = seen i"
proof -
  obtain x where "release name e i1 = (Inr x, i2)"
    using assms(2,3) by (auto simp: releaseInbox_def split: prod.splits sum.splits)
  with record_ok [OF assms(1)] release_ok [OF assms(2), of name e i1 i2] show ?thesis by auto
qed

lemma seen_is_duplicate:
  assumes "Consumer_validate c = None" "cn_Inbox c = Some I" "decodeDelivery unmarshal d = Inr e"
    "key (consumerName c) (e_MessageID e) \<in> seen (w_inbox w)"
    "ib_Record I (consumerName c) e (w_inbox w) = (Inr fresh, i)"
    "ProcessDelivery unmarshal broker c d w = (errs, w')"
  shows "w_store w' = w_store w \<and> w_calls w' = w_calls w @ [Ack]"
proof -
  obtain h where "cn_Handler c = Some h"
    using assms(1) by (auto simp: Consumer_validate_def split: option.splits)
  moreover have "\<not> fresh" using record_ok [OF assms(5)] assms(4) by simp
  ultimately show ?thesis
    using assms(1,2,3,5,6) by (auto simp: ProcessDelivery_def ackDelivery_def Let_def)
qed

text \<open>A message that is known to the inbox is not handled again, also when the inbox cannot answer.\<close>

lemma seen_not_handled:
  assumes "cn_Inbox c = Some I" "decodeDelivery unmarshal d = Inr e"
    "key (consumerName c) (e_MessageID e) \<in> seen (w_inbox w)" "ProcessDelivery unmarshal broker c d w = (errs, w')"
  shows "w_store w' = w_store w"
proof (cases "Consumer_validate c")
  case None
  from None assms(4) show ?thesis
  proof (cases rule: ProcessDelivery_cases)
    case (done_ inbox h e' i s)
    with record_ok assms(1-3) show ?thesis by fastforce
  next
    case (failed inbox h e' i err s)
    with record_ok assms(1-3) show ?thesis by fastforce
  qed auto
qed (use assms(4) in \<open>auto simp: ProcessDelivery_def\<close>)

text \<open>So after a successful handling a redelivery finds the store as the handler left it.\<close>

lemma redelivery_keeps_store:
  assumes "cn_Inbox c = Some I" "cn_Handler c = Some h"
    and "decodeDelivery unmarshal d = Inr e" "decodeDelivery unmarshal d' = Inr e'" "e_MessageID e' = e_MessageID e"
    and "ib_Record I (consumerName c) e (w_inbox w) = (Inr True, i)" "h e (w_store w) = (Inr (), s)"
    and "ProcessDelivery unmarshal broker c d w = (errs, w1)"
    and "ProcessDelivery unmarshal broker' c d' w1 = (errs', w2)"
  shows "w_store w1 = s \<and> w_store w2 = s"
proof -
  have "Consumer_validate c = None" using assms(1,2) by (simp add: Consumer_validate_def)
  then have w1: "w1 = w\<lparr>w_inbox := i, w_store := s, w_calls := w_calls w @ [Ack]\<rparr>"
    using assms(1-3,6-8) by (auto simp: ProcessDelivery_def ackDelivery_def Let_def)
  with record_ok [OF assms(6)] seen_not_handled [OF assms(1,4) _ assms(9)] assms(5) show ?thesis by simp
qed

end

subsection \<open>Redelivery\<close>

text \<open>
  A healthy broker: it settles and publishes without error, and delivers a retry message again
  once it leaves the retry queue. \<open>redeliver\<close> follows one message for at most \<open>fuel\<close>
  deliveries.
\<close>

definition healthy :: broker where
  "healthy = \<lparr>br_ack = None, br_nack = None, br_retry = None\<rparr>"

fun redeliver :: "nat \<Rightarrow> (string \<Rightarrow> error + OutboxEvent) \<Rightarrow> ('i, 's) Consumer \<Rightarrow> Delivery
    \<Rightarrow> ('i, 's) world \<Rightarrow> ('i, 's) world" where
  "redeliver 0 unmarshal c d w = w"
| "redeliver (Suc fuel) unmarshal c d w =
     (let w' = snd (ProcessDelivery unmarshal healthy c d w) in
      case drop (length (w_calls w)) (w_calls w') of
        [Retry e k, Ack] \<Rightarrow> redeliver fuel unmarshal c (PublishRetry_message d e k) w'
      | _ \<Rightarrow> w')"

lemma failing_delivery:
  assumes c: "cn_Inbox c = Some MemoryInbox_Inbox" "cn_Handler c = Some h" "cn_Retry c"
    and d: "decodeDelivery unmarshal d = Inr e" "inbox_key (consumerName c) (e_MessageID e) \<notin> mi_seen (w_inbox w)"
    and h: "h e (w_store w) = (Inl err, s)"
  shows "\<exists>w'. snd (ProcessDelivery unmarshal healthy c d w) = w' \<and> w_store w' = s \<and>
    mi_seen (w_inbox w') = mi_seen (w_inbox w) \<and>
    w_calls w' = w_calls w @ (if shouldRetry c d
      then [Retry e (retryAttempt (dl_Headers d) + 1), Ack] else [Nack])"
proof -
  obtain i1 where r: "MemoryInbox_Record (consumerName c) e (w_inbox w) = (Inr True, i1)"
    using d(2) by (cases "mapget (processed (w_inbox w)) (inbox_key (consumerName c) (e_MessageID e))")
      (simp_all add: MemoryInbox_Record_def mi_seen_def)
  obtain i2 where l: "releaseInbox MemoryInbox_Inbox (consumerName c) e i1 = (None, i2)"
    by (simp add: releaseInbox_def MemoryInbox_Inbox_def MemoryInbox_Release_def)
  have "mi_seen i2 = mi_seen (w_inbox w)"
    by (rule mi.failure_unsees [OF _ _ l]) (use r in \<open>simp_all add: MemoryInbox_Inbox_def\<close>)
  moreover have "ib_Record MemoryInbox_Inbox (consumerName c) e (w_inbox w) = (Inr True, i1)"
    using r by (simp add: MemoryInbox_Inbox_def)
  ultimately show ?thesis
    using c d h l
    by (auto simp: ProcessDelivery_def Consumer_validate_def handle_failure_def joined_def healthy_def
        ackDelivery_def nackDelivery_def Let_def)
qed

lemma redeliver_failing:
  assumes c: "cn_Inbox c = Some MemoryInbox_Inbox" "cn_Handler c = Some h" "cn_Retry c"
    and h: "\<And>s. \<exists>err s'. h e s = (Inl err, s')" and m: "maxRetries c < 2 ^ 31"
  shows "decodeDelivery unmarshal d = Inr e \<Longrightarrow>
    inbox_key (consumerName c) (e_MessageID e) \<notin> mi_seen (w_inbox w) \<Longrightarrow>
    0 \<le> retryAttempt (dl_Headers d) \<Longrightarrow> retryAttempt (dl_Headers d) \<le> maxRetries c \<Longrightarrow>
    maxRetries c - retryAttempt (dl_Headers d) = int n \<Longrightarrow> n < fuel \<Longrightarrow>
    w_calls (redeliver fuel unmarshal c d w) = w_calls w @
      concat (map (\<lambda>k. [Retry e k, Ack]) [retryAttempt (dl_Headers d) + 1 .. maxRetries c]) @ [Nack]"
proof (induction n arbitrary: d w fuel)
  case 0
  obtain f where f: "fuel = Suc f" using 0 by (cases fuel) auto
  obtain err s' where he: "h e (w_store w) = (Inl err, s')" using h by blast
  from failing_delivery [OF c 0(1,2) he] obtain w' where
    w': "snd (ProcessDelivery unmarshal healthy c d w) = w'" "w_calls w' = w_calls w @ [Nack]"
    using 0 by (auto simp: shouldRetry_def)
  with f 0 show ?case by simp
next
  case (Suc n)
  obtain f where f: "fuel = Suc f" using Suc.prems by (cases fuel) auto
  let ?k = "retryAttempt (dl_Headers d) + 1"
  obtain err s' where he: "h e (w_store w) = (Inl err, s')" using h by blast
  have retry: "shouldRetry c d" using Suc.prems c(3) by (simp add: shouldRetry_def)
  from failing_delivery [OF c Suc.prems(1,2) he] retry obtain w' where
    w': "snd (ProcessDelivery unmarshal healthy c d w) = w'" "w_calls w' = w_calls w @ [Retry e ?k, Ack]"
    "mi_seen (w_inbox w') = mi_seen (w_inbox w)" by auto
  have k: "retryAttempt (dl_Headers (PublishRetry_message d e ?k)) = ?k"
    by (rule retry_attempt_counts) (use Suc.prems m in simp_all)
  have "w_calls (redeliver f unmarshal c (PublishRetry_message d e ?k) w') = w_calls w' @
      concat (map (\<lambda>k. [Retry e k, Ack]) [?k + 1 .. maxRetries c]) @ [Nack]"
    using Suc.IH [of "PublishRetry_message d e ?k" w' f] decode_retry [OF Suc.prems(1), of ?k]
      Suc.prems f w'(3) by (simp add: k)
  moreover have "[?k .. maxRetries c] = ?k # [?k + 1 .. maxRetries c]"
    using Suc.prems by (simp add: upto_rec1)
  ultimately show ?case using f w' by simp
qed

subsection \<open>A sample consumer\<close>

text \<open>It counts the events it handles, or refuses all of them.\<close>

definition sample_message :: OutboxEvent where
  "sample_message = zero_event\<lparr>e_MessageID := ''msg_1'', e_EventType := ''order.created'',
     e_OrderID := ''ord_1'', e_MerchantID := ''m1'', e_CorrelationID := ''corr'',
     e_CausationID := ''msg_1'', e_SchemaVersion := 1\<rparr>"

definition sample_unmarshal :: "string \<Rightarrow> error + OutboxEvent" where
  "sample_unmarshal body =
     (if body = ''body'' then Inr sample_message else Inl (ErrorString ''unexpected end of JSON input''))"

definition sample_delivery :: Delivery where
  "sample_delivery = \<lparr>dl_Headers = [], dl_ContentType = ''application/json'', dl_CorrelationId = ''corr'',
     dl_MessageId = ''msg_1'', dl_Type = ''order.created'', dl_RoutingKey = ''order.created'',
     dl_Body = ''body''\<rparr>"

definition sample_consumer :: "(OutboxEvent \<Rightarrow> (nat, error, unit) op) \<Rightarrow> (MemoryInbox, nat) Consumer" where
  "sample_consumer h = \<lparr>cn_Queue = InventoryReserveQueue, cn_ConsumerName = [],
     cn_Inbox = Some MemoryInbox_Inbox, cn_Handler = Some h, cn_Retry = True, cn_MaxRetries = 0\<rparr>"

definition sample_world :: "(MemoryInbox, nat) world" where
  "sample_world = \<lparr>w_inbox = NewMemoryInbox, w_store = 0, w_calls = []\<rparr>"

abbreviation counting :: "OutboxEvent \<Rightarrow> (nat, error, unit) op" where
  "counting \<equiv> \<lambda>_ n. (Inr (), n + 1)"

abbreviation refusing :: "OutboxEvent \<Rightarrow> (nat, error, unit) op" where
  "refusing \<equiv> \<lambda>_ n. (Inl ErrNotFound, n)"

lemma sample_decodes:
  "decodeDelivery sample_unmarshal sample_delivery = Inr (WithEnvelopeDefaults (backfill sample_delivery sample_message))"
  by (simp add: decodeDelivery_def sample_unmarshal_def sample_delivery_def sample_message_def
      EventSchemaVersion_def Let_def)

lemma sample_fields:
  "Consumer_validate (sample_consumer h) = None" "cn_Inbox (sample_consumer h) = Some MemoryInbox_Inbox"
  "cn_Handler (sample_consumer h) = Some h" "cn_Retry (sample_consumer h)" "maxRetries (sample_consumer h) = 3"
  "mi_seen (w_inbox sample_world) = {}" "w_calls sample_world = []" "w_store sample_world = 0"
  "retryAttempt (dl_Headers sample_delivery) = 0"
  by (simp_all add: sample_consumer_def Consumer_validate_def maxRetries_def defaultMaxRetryAttempts_def
      sample_world_def NewMemoryInbox_def mi_seen_def sample_delivery_def retryAttempt_def)

definition settles :: "('i, 's) Consumer \<Rightarrow> Delivery \<Rightarrow> broker_call list \<Rightarrow> bool" where
  "settles c d calls \<longleftrightarrow> calls = [Ack] \<or> calls = [Nack] \<or>
     (\<exists>e last. cn_Retry c \<and> retryAttempt (dl_Headers d) < (if 0 < cn_MaxRetries c then cn_MaxRetries c else 3) \<and>
        last \<in> {Ack, Nack} \<and>
        calls = [Retry e (retryAttempt (dl_Headers d) + 1), last])"

subsection \<open>Properties\<close>

text \<open>
  C4. A configured consumer settles every delivery exactly once, with an ack or a nack as its
  last call to the broker, whatever the decoder, the inbox and the handler answer. Before
  that it publishes at most one retry, numbered one more than the delivery, and only when the number of the
  delivery is below the configured number of retries, or below three when none is configured. The store changes only if the inbox reported the message as new.
\<close>

theorem delivery_settled_once:
  assumes "Consumer_validate c = None" "ProcessDelivery unmarshal broker c d w = (errs, w')"
  shows "(\<exists>calls. w_calls w' = w_calls w @ calls \<and> settles c d calls) \<and>
    (w_store w' = w_store w \<or> (\<exists>inbox e i. cn_Inbox c = Some inbox \<and>
       decodeDelivery unmarshal d = Inr e \<and>
       ib_Record inbox (consumerName c) e (w_inbox w) = (Inr True, i)))"
  using assms
proof (cases rule: ProcessDelivery_cases)
  case (failed inbox h e i err s)
  from handle_failure_calls [OF failed(6)] failed(1,3,4) show ?thesis
    by (auto simp: settles_def shouldRetry_def maxRetries_def defaultMaxRetryAttempts_def)
qed (auto simp: settles_def)

theorem delivery_settled_once_witness:
  "\<exists>errs w'. ProcessDelivery sample_unmarshal healthy (sample_consumer refusing) sample_delivery sample_world = (errs, w') \<and>
     settles (sample_consumer refusing) sample_delivery (w_calls w')"
proof -
  obtain errs w' where run: "ProcessDelivery sample_unmarshal healthy (sample_consumer refusing)
      sample_delivery sample_world = (errs, w')" by fastforce
  from delivery_settled_once [OF sample_fields(1) run] run show ?thesis by (auto simp: sample_fields)
qed

text \<open>
  A message is handled once: after a delivery whose handler succeeded, every redelivery of
  the same message id to that consumer is acknowledged and leaves the store as the first
  handling left it.
\<close>

theorem redelivery_has_no_effect:
  assumes "cn_Inbox c = Some MemoryInbox_Inbox" "cn_Handler c = Some h"
    and "decodeDelivery unmarshal d = Inr e" "decodeDelivery unmarshal d' = Inr e'"
    and "e_MessageID e' = e_MessageID e"
    and "inbox_key (consumerName c) (e_MessageID e) \<notin> mi_seen (w_inbox w)"
    and "h e (w_store w) = (Inr (), s)"
    and "ProcessDelivery unmarshal broker c d w = (errs, w1)"
    and "ProcessDelivery unmarshal broker' c d' w1 = (errs', w2)"
  shows "w_store w1 = s \<and> w_store w2 = s \<and> w_calls w2 = w_calls w @ [Ack, Ack]"
proof -
  obtain i1 where r: "ib_Record MemoryInbox_Inbox (consumerName c) e (w_inbox w) = (Inr True, i1)"
    using assms(6) by (cases "mapget (processed (w_inbox w)) (inbox_key (consumerName c) (e_MessageID e))")
      (simp_all add: MemoryInbox_Inbox_def MemoryInbox_Record_def mi_seen_def)
  have v: "Consumer_validate c = None" using assms(1,2) by (simp add: Consumer_validate_def)
  have w1: "w1 = w\<lparr>w_inbox := i1, w_store := s, w_calls := w_calls w @ [Ack]\<rparr>"
    using assms(1,2,3,7,8) r v by (auto simp: ProcessDelivery_def ackDelivery_def Let_def)
  have "inbox_key (consumerName c) (e_MessageID e') \<in> mi_seen (w_inbox w1)"
    using mi.record_ok [OF r] assms(5) w1 by simp
  moreover obtain fresh i2 where "ib_Record MemoryInbox_Inbox (consumerName c) e' (w_inbox w1) = (Inr fresh, i2)"
    by (cases "mapget (processed (w_inbox w1)) (inbox_key (consumerName c) (e_MessageID e'))")
      (auto simp: MemoryInbox_Inbox_def MemoryInbox_Record_def)
  ultimately show ?thesis using mi.seen_is_duplicate [OF v assms(1,4) _ _ assms(9)] w1 by simp
qed

text \<open>
  C30. Retries are bounded: a message whose handler always fails is delivered once per attempt
  left and then dead-lettered. The broker sees one retry and ack for each attempt number up
  to the maximum, then one nack, and nothing else. (The maximum must fit the 32-bit header
  that carries the attempt.)
\<close>

theorem failing_message_dead_letters:
  assumes "cn_Inbox c = Some MemoryInbox_Inbox" "cn_Handler c = Some h" "cn_Retry c" "maxRetries c < 2 ^ 31"
    and "decodeDelivery unmarshal d = Inr e" "\<And>s. \<exists>err s'. h e s = (Inl err, s')"
    and "inbox_key (consumerName c) (e_MessageID e) \<notin> mi_seen (w_inbox w)"
    and "0 \<le> retryAttempt (dl_Headers d)" "retryAttempt (dl_Headers d) \<le> maxRetries c"
    and "nat (maxRetries c - retryAttempt (dl_Headers d)) < fuel"
  shows "w_calls (redeliver fuel unmarshal c d w) = w_calls w @
      concat (map (\<lambda>k. [Retry e k, Ack]) [retryAttempt (dl_Headers d) + 1 .. maxRetries c]) @ [Nack]"
  using redeliver_failing [OF assms(1-3,6,4,5,7-9), of "nat (maxRetries c - retryAttempt (dl_Headers d))" fuel]
    assms(9,10) by simp

theorem failing_message_dead_letters_witness:
  "length (w_calls (redeliver 9 sample_unmarshal (sample_consumer refusing) sample_delivery sample_world)) = 7 \<and>
   last (w_calls (redeliver 9 sample_unmarshal (sample_consumer refusing) sample_delivery sample_world)) = Nack"
  using failing_message_dead_letters [OF sample_fields(2-4) _ sample_decodes, of refusing sample_world 9]
  by (simp add: sample_fields upto.simps)

end
