(* ===== verification/Publisher.thy ===== *)
theory Publisher
  imports Consumer "HOL-Library.Multiset"
begin

text \<open>
  Publishing with confirms: \<open>RabbitPublisher\<close> and \<open>waitForAMQPPublishOutcome\<close> of
  \<open>internal/messaging/rabbitmq.go\<close>, the retry publication of \<open>rabbitmq_consumer.go\<close> and the
  dead-letter replay of \<open>dlq.go\<close>.

  The AMQP client is outside the repository. Its channel appears here as a state holding the
  messages it has taken, what its next calls answer, and the values the notification
  channels will hand to the \<open>select\<close> of the wait loop, in the order in which the runtime
  lets it receive them. A wait whose values run out is still blocked: its result is None.
\<close>

subsection \<open>Waiting for the outcome\<close>

datatype received =
    Returned string string
  | ReturnsClosed
  | Confirmation bool
  | ConfirmsClosed
  | CtxDone error

fun waitForAMQPPublishOutcome :: "string \<Rightarrow> received list \<Rightarrow> (error + unit) option \<times> received list" where
  "waitForAMQPPublishOutcome messageID [] = (None, [])"
| "waitForAMQPPublishOutcome messageID (Returned returnedID replyText # rest) =
     (if returnedID = messageID
      then (Some (Inl (ErrorString (''rabbitmq message '' @ messageID @ '' was returned as unroutable: '' @
              replyText))), rest)
      else waitForAMQPPublishOutcome messageID rest)"
| "waitForAMQPPublishOutcome messageID (ReturnsClosed # rest) =
     (Some (Inl (ErrorString ''rabbitmq return channel closed'')), ReturnsClosed # rest)"
| "waitForAMQPPublishOutcome messageID (ConfirmsClosed # rest) =
     (Some (Inl (ErrorString ''rabbitmq confirm channel closed'')), ConfirmsClosed # rest)"
| "waitForAMQPPublishOutcome messageID (Confirmation ack # rest) =
     (if \<not> ack then (Some (Inl (ErrorString (''rabbitmq negatively acknowledged message '' @ messageID))), rest)
      else (Some (Inr ()), rest))"
| "waitForAMQPPublishOutcome messageID (CtxDone err # rest) =
     (Some (Inl (wrap_error ''wait for rabbitmq publish confirmation'' err)), rest)"

subsection \<open>The channel and the publisher\<close>

record amqp_channel =
  ch_sent :: "(string \<times> Delivery) list"
  ch_calls :: nat
  ch_answers :: "nat \<Rightarrow> error option"
  ch_select :: "received list"

definition PublishWithContext :: "string \<Rightarrow> Delivery \<Rightarrow> amqp_channel \<Rightarrow> error option \<times> amqp_channel" where
  "PublishWithContext exchange msg ch =
     (case ch_answers ch (ch_calls ch) of
        Some err \<Rightarrow> (Some err, ch\<lparr>ch_calls := ch_calls ch + 1\<rparr>)
      | None \<Rightarrow> (None, ch\<lparr>ch_calls := ch_calls ch + 1, ch_sent := ch_sent ch @ [(exchange, msg)]\<rparr>))"

definition wait_outcome :: "string \<Rightarrow> amqp_channel \<Rightarrow> (error + unit) option \<times> amqp_channel" where
  "wait_outcome messageID ch =
     (case waitForAMQPPublishOutcome messageID (ch_select ch) of
        (r, rest) \<Rightarrow> (r, ch\<lparr>ch_select := rest\<rparr>))"

text \<open>\<open>marshal\<close> is \<open>encoding/json\<close>, \<open>inject\<close> the trace propagator of OpenTelemetry.\<close>

definition Publish_message :: "(header gomap \<Rightarrow> header gomap) \<Rightarrow> OutboxEvent \<Rightarrow> string \<Rightarrow> Delivery" where
  "Publish_message inject event body =
     \<lparr>dl_Headers = inject [(''causation_id'', HString (e_CausationID event)),
        (''merchant_id'', HString (e_MerchantID event)), (''order_id'', HString (e_OrderID event))],
      dl_ContentType = ''application/json'', dl_CorrelationId = e_CorrelationID event,
      dl_MessageId = e_MessageID event, dl_Type = e_EventType event,
      dl_RoutingKey = RoutingKey (e_EventType event), dl_Body = body\<rparr>"

definition RabbitPublisher_Publish ::
    "(OutboxEvent \<Rightarrow> error + string) \<Rightarrow> (header gomap \<Rightarrow> header gomap) \<Rightarrow> OutboxEvent
     \<Rightarrow> amqp_channel \<Rightarrow> (error + unit) option \<times> amqp_channel" where
  "RabbitPublisher_Publish marshal inject event ch =
     (let event = WithEnvelopeDefaults event in
      case marshal event of
        Inl err \<Rightarrow> (Some (Inl (wrap_error ''marshal event'' err)), ch)
      | Inr body \<Rightarrow>
        (case PublishWithContext DomainExchange (Publish_message inject event body) ch of
           (Some err, ch) \<Rightarrow> (Some (Inl err), ch)
         | (None, ch) \<Rightarrow> wait_outcome (e_MessageID event) ch))"

definition PublishRetry :: "Delivery \<Rightarrow> OutboxEvent \<Rightarrow> int \<Rightarrow> amqp_channel
    \<Rightarrow> (error + unit) option \<times> amqp_channel" where
  "PublishRetry delivery event attempt ch =
     (let msg = PublishRetry_message delivery event attempt in
      case PublishWithContext RetryExchange msg ch of
        (Some err, ch) \<Rightarrow> (Some (Inl (wrap_error ''publish retry message'' err)), ch)
      | (None, ch) \<Rightarrow>
        (case wait_outcome (dl_MessageId msg) ch of
           (Some (Inl err), ch) \<Rightarrow> (Some (Inl (wrap_error ''confirm retry message'' err)), ch)
         | p \<Rightarrow> p))"

subsection \<open>Dead-letter replay\<close>

text \<open>
  The broker's side of a replay: the messages ready in the dead-letter queue, those got and
  not settled, those acknowledged; and what its \<open>Get\<close>, \<open>Ack\<close>, \<open>Nack\<close> and \<open>Confirm\<close> answer.
  A message rejected with \<open>requeue\<close> returns to the head of the queue.
\<close>

record DLQReplayConfig =
  dc_Queue :: string
  dc_Exchange :: string
  dc_RoutingKey :: string
  dc_Limit :: int

record dlq_answers =
  da_Confirm :: "error option"
  da_Get :: "nat \<Rightarrow> error option"
  da_Ack :: "nat \<Rightarrow> error option"
  da_Nack :: "error option"

record dlq_state =
  dq_ready :: "Delivery list"
  dq_unacked :: "Delivery list"
  dq_acked :: "Delivery list"
  dq_channel :: amqp_channel

definition replay_message :: "DLQReplayConfig \<Rightarrow> Delivery \<Rightarrow> Delivery" where
  "replay_message config delivery = delivery\<lparr>dl_RoutingKey := dc_RoutingKey config\<rparr>"

definition nack_requeue :: "dlq_answers \<Rightarrow> Delivery \<Rightarrow> dlq_state \<Rightarrow> dlq_state" where
  "nack_requeue env delivery st =
     (case da_Nack env of
        Some _ \<Rightarrow> st\<lparr>dq_unacked := dq_unacked st @ [delivery]\<rparr>
      | None \<Rightarrow> st\<lparr>dq_ready := delivery # dq_ready st\<rparr>)"




subsection \<open>Facts\<close>

definition foreign_return :: "string \<Rightarrow> received \<Rightarrow> bool" where
  "foreign_return mid r = (case r of Returned m _ \<Rightarrow> m \<noteq> mid | _ \<Rightarrow> False)"

lemma foreign_return_simps [simp]:
  "foreign_return mid (Returned m t) \<longleftrightarrow> m \<noteq> mid" "\<not> foreign_return mid ReturnsClosed"
  "\<not> foreign_return mid (Confirmation b)" "\<not> foreign_return mid ConfirmsClosed"
  "\<not> foreign_return mid (CtxDone err)"
  by (simp_all add: foreign_return_def)

lemma wait_skips_foreign:
  "list_all (foreign_return mid) xs \<Longrightarrow>
   waitForAMQPPublishOutcome mid (xs @ rs) = waitForAMQPPublishOutcome mid rs"
proof (induction xs)
  case (Cons x xs)
  then show ?case by (cases x) auto
qed simp

lemma wait_success:
  "waitForAMQPPublishOutcome mid rs = (Some (Inr u), rest) \<Longrightarrow>
   \<exists>skipped. rs = skipped @ Confirmation True # rest \<and> list_all (foreign_return mid) skipped"
proof (induction mid rs rule: waitForAMQPPublishOutcome.induct)
  case (2 mid m t rest)
  then obtain skipped where "rest = skipped @ Confirmation True # snd (waitForAMQPPublishOutcome mid rest)"
    "list_all (foreign_return mid) skipped" "m \<noteq> mid"
    by (fastforce split: if_splits)
  with 2(2) show ?case by (intro exI [of _ "Returned m t # skipped"]) (auto split: if_splits)
qed (auto split: if_splits)

lemma PublishWithContext_None:
  "PublishWithContext exchange msg ch = (None, ch') \<Longrightarrow> ch_sent ch' = ch_sent ch @ [(exchange, msg)]"
  by (auto simp: PublishWithContext_def split: option.splits)

lemma PublishWithContext_Some:
  "PublishWithContext exchange msg ch = (Some err, ch') \<Longrightarrow> ch_sent ch' = ch_sent ch"
  by (auto simp: PublishWithContext_def split: option.splits)

lemma wait_outcome_sent: "wait_outcome mid ch = (r, ch') \<Longrightarrow> ch_sent ch' = ch_sent ch"
  by (auto simp: wait_outcome_def split: prod.splits)

lemma RabbitPublisher_Publish_sent:
  assumes "RabbitPublisher_Publish marshal inject e ch = (r, ch')"
  shows "ch_sent ch' = ch_sent ch \<and> r \<noteq> Some (Inr ()) \<or>
    (\<exists>body. marshal (WithEnvelopeDefaults e) = Inr body \<and>
       ch_sent ch' = ch_sent ch @ [(DomainExchange, Publish_message inject (WithEnvelopeDefaults e) body)])"
  using assms by (auto simp: RabbitPublisher_Publish_def Let_def split: sum.splits prod.splits option.splits
      dest!: PublishWithContext_None PublishWithContext_Some wait_outcome_sent)



lemma nack_requeue_simps [simp]:
  "dq_acked (nack_requeue env d st) = dq_acked st" "dq_channel (nack_requeue env d st) = dq_channel st"
  "mset (dq_unacked (nack_requeue env d st)) + mset (dq_ready (nack_requeue env d st)) =
     add_mset d (mset (dq_unacked st) + mset (dq_ready st))"
  by (auto simp: nack_requeue_def split: option.splits)





lemma backfill_routing_key: "backfill (d\<lparr>dl_RoutingKey := k\<rparr>) = backfill d"
  by (rule ext, rule OutboxEvent_eqI) simp_all

lemma replay_message_decodes [simp]:
  "decodeDelivery unmarshal (replay_message config d) = decodeDelivery unmarshal d"
  by (simp add: decodeDelivery_def replay_message_def backfill_routing_key split: sum.split)

subsection \<open>Properties\<close>

text \<open>
  The wait reports success exactly when the first thing it receives, apart from returns of
  other messages, is a positive confirmation; and it consumes nothing beyond that
  confirmation.
\<close>

theorem publish_success_exact:
  "waitForAMQPPublishOutcome mid rs = (Some (Inr ()), rest) \<longleftrightarrow>
   (\<exists>skipped. rs = skipped @ Confirmation True # rest \<and> list_all (foreign_return mid) skipped)"
  using wait_success [of mid rs "()" rest] wait_skips_foreign [of mid _ "Confirmation True # rest"]
  by auto

text \<open>
  Confirmations carry no message identity. For an unroutable message the broker sends a
  return and then a positive confirmation, on two channels: depending on which of them the
  select takes first, the same publication fails or succeeds. And a confirmation that
  arrives after its wait was cancelled is taken for that of the next message, whose own
  negative confirmation is left for the one after it.
\<close>

theorem confirmations_not_matched:
  "(\<lambda>rs. fst (waitForAMQPPublishOutcome mid rs)) ` shuffles [Returned mid text] [Confirmation True] =
     {Some (Inr ()), Some (Inl (ErrorString (''rabbitmq message '' @ mid @ '' was returned as unroutable: '' @ text)))} \<and>
   (case waitForAMQPPublishOutcome mid (CtxDone err # Confirmation True # Confirmation False # rest) of
      (r1, rs) \<Rightarrow> r1 = Some (Inl (wrap_error ''wait for rabbitmq publish confirmation'' err)) \<and>
        waitForAMQPPublishOutcome mid' rs = (Some (Inr ()), Confirmation False # rest))"
  by auto

text \<open>
  C31. What the relay publishes is what a consumer decodes: if the JSON body of an event with a
  message id and the current schema version reads back as that event, the message the publisher builds for it
  decodes to the event with its envelope defaults, whatever trace headers are injected.
\<close>

theorem published_event_decodes:
  assumes "marshal (WithEnvelopeDefaults e) = Inr body" "unmarshal body = Inr (WithEnvelopeDefaults e)"
    and "e_SchemaVersion e = 0 \<or> e_SchemaVersion e = EventSchemaVersion" "e_MessageID e \<noteq> []"
    and "RabbitPublisher_Publish marshal inject e ch = (Some (Inr ()), ch')"
  shows "\<exists>msg. ch_sent ch' = ch_sent ch @ [(DomainExchange, msg)] \<and>
    dl_RoutingKey msg = RoutingKey (e_EventType e) \<and> dl_MessageId msg = e_MessageID e \<and>
    decodeDelivery unmarshal msg = Inr (WithEnvelopeDefaults e)"
proof -
  let ?msg = "Publish_message inject (WithEnvelopeDefaults e) body"
  have sent: "ch_sent ch' = ch_sent ch @ [(DomainExchange, ?msg)]"
    using RabbitPublisher_Publish_sent [OF assms(5)] assms(1) by auto
  have "backfill ?msg (WithEnvelopeDefaults e) = WithEnvelopeDefaults e"
    by (rule OutboxEvent_eqI) (use assms(3,4) in \<open>auto simp: Publish_message_def EventSchemaVersion_def\<close>)
  then have "decodeDelivery unmarshal ?msg = Inr (WithEnvelopeDefaults e)"
    using assms(2,3) by (auto simp: decodeDelivery_def Publish_message_def Let_def simp del: backfill_fields)
  with sent show ?thesis by (auto simp: Publish_message_def)
qed

definition sample_marshal :: "OutboxEvent \<Rightarrow> error + string" where
  "sample_marshal e = Inr ''body''"

definition sample_channel :: amqp_channel where
  "sample_channel = \<lparr>ch_sent = [], ch_calls = 0, ch_answers = (\<lambda>_. None), ch_select = [Confirmation True]\<rparr>"

theorem published_event_decodes_witness:
  "\<exists>msg ch'. RabbitPublisher_Publish sample_marshal id sample_message sample_channel = (Some (Inr ()), ch') \<and>
     ch_sent ch' = [(DomainExchange, msg)] \<and>
     decodeDelivery (\<lambda>_. Inr (WithEnvelopeDefaults sample_message)) msg =
       Inr (WithEnvelopeDefaults sample_message)"
proof -
  obtain ch' where run: "RabbitPublisher_Publish sample_marshal id sample_message sample_channel =
      (Some (Inr ()), ch')"
    by (simp add: RabbitPublisher_Publish_def sample_marshal_def sample_channel_def PublishWithContext_def
        wait_outcome_def Let_def)
  from published_event_decodes [of sample_marshal sample_message "''body''"
      "\<lambda>_. Inr (WithEnvelopeDefaults sample_message)", OF _ _ _ _ run] run
  show ?thesis by (auto simp: sample_marshal_def sample_message_def sample_channel_def EventSchemaVersion_def)
qed



end
