(* ===== verification/Relay.thy ===== *)
theory Relay
  imports Publisher Store_Lifecycle
begin

text \<open>
  The outbox relay: \<open>Relay.RunOnce\<close> of \<open>internal/messaging/relay.go\<close> and the loop of
  \<open>cmd/fulfillhub-outbox-relay/main.go\<close>. It runs over any outbox source and any publisher;
  the state is the pair of theirs. A publication that blocks (None) ends the run there, so a
  run that is cut off in a publication is one of the cases.

  \<open>wall\<close> gives the successive readings of the system clock during one run.
\<close>

type_synonym 'b publisher_op = "OutboxEvent \<Rightarrow> 'b \<Rightarrow> (error + unit) option \<times> 'b"

record ('s, 'b) Relay =
  rl_Source :: "'s OutboxSource"
  rl_Publisher :: "'b publisher_op"
  rl_Clock :: "(nat \<Rightarrow> time) option"

definition relay_clock :: "('s, 'b) Relay \<Rightarrow> (nat \<Rightarrow> time) \<Rightarrow> nat \<Rightarrow> time" where
  "relay_clock r wall k = (case rl_Clock r of None \<Rightarrow> wall (k + 1) | Some clock \<Rightarrow> clock k)"

fun relay_events :: "('s, 'b) Relay \<Rightarrow> (nat \<Rightarrow> time) \<Rightarrow> OutboxEvent list \<Rightarrow> nat \<Rightarrow> 's \<Rightarrow> 'b
    \<Rightarrow> (nat \<times> error option) option \<times> 's \<times> 'b" where
  "relay_events r clock [] published s b = (Some (published, None), s, b)"
| "relay_events r clock (event # events) published s b =
     (case rl_Publisher r event b of
        (None, b) \<Rightarrow> (None, s, b)
      | (Some (Inl err), b) \<Rightarrow>
          (Some (published, Some (wrap_error (''publish '' @ e_MessageID event) err)), s, b)
      | (Some (Inr _), b) \<Rightarrow>
          (case os_MarkOutboxPublished (rl_Source r) (e_MessageID event) (clock published) s of
             (Inl err, s) \<Rightarrow>
               (Some (published, Some (wrap_error (''mark '' @ e_MessageID event @ '' published'') err)), s, b)
           | (Inr _, s) \<Rightarrow> relay_events r clock events (published + 1) s b))"

definition Relay_RunOnce :: "('s, 'b) Relay \<Rightarrow> (nat \<Rightarrow> time) \<Rightarrow> int \<Rightarrow> 's \<Rightarrow> 'b
    \<Rightarrow> (nat \<times> error option) option \<times> 's \<times> 'b" where
  "Relay_RunOnce r wall limit s b =
     (case os_PendingOutboxEvents (rl_Source r) (wall 0) limit s of
        (Inl err, s) \<Rightarrow> (Some (0, Some (wrap_error ''load pending outbox events'' err)), s, b)
      | (Inr events, s) \<Rightarrow> relay_events r (relay_clock r wall) events 0 s b)"

text \<open>
  The loop of the relay process up to its first pause: a run that published a full batch is
  followed by another one at once. \<open>walls i\<close> is the clock during the i-th run.
\<close>

fun relay_until_pause :: "nat \<Rightarrow> ('s, 'b) Relay \<Rightarrow> (nat \<Rightarrow> nat \<Rightarrow> time) \<Rightarrow> int \<Rightarrow> 's \<Rightarrow> 'b \<Rightarrow> ('s \<times> 'b) option" where
  "relay_until_pause 0 r walls batchSize s b = None"
| "relay_until_pause (Suc fuel) r walls batchSize s b =
     (case Relay_RunOnce r (walls 0) batchSize s b of
        (None, s, b) \<Rightarrow> None
      | (Some (published, err), s, b) \<Rightarrow>
          if int published = batchSize then relay_until_pause fuel r (\<lambda>i. walls (i + 1)) batchSize s b
          else Some (s, b))"

subsection \<open>The contract of a publisher\<close>

text \<open>\<open>sent\<close> are the ids of the messages handed to the broker.\<close>

locale publisher =
  fixes publish :: "'b publisher_op" and sent :: "'b \<Rightarrow> string set"
  assumes sent_grows: "publish e b = (r, b') \<Longrightarrow> sent b \<subseteq> sent b'"
    and sent_ok: "publish e b = (Some (Inr u), b') \<Longrightarrow> e_MessageID e \<in> sent b'"

locale relay = outbox_source Src sound events_of published + publisher publish sent
  for Src :: "'s OutboxSource" and sound :: "'s \<Rightarrow> bool" and events_of :: "'s \<Rightarrow> OutboxEvent list"
    and published :: "'s \<Rightarrow> string set" and publish :: "'b publisher_op" and sent :: "'b \<Rightarrow> string set"
begin

text \<open>The messages counted in the result are marked; one more may be, when its mark reported an error.\<close>

lemma events_published:
  assumes "rl_Source r = Src" "rl_Publisher r = publish" "sound s" "relay_events r clock es k s b = (res, s', b')"
  shows "\<exists>n ids. published s' = published s \<union> ids \<and> e_MessageID ` set (take n es) \<subseteq> ids \<and>
    ids \<subseteq> e_MessageID ` set es \<and> ids \<subseteq> sent b' \<and> sent b \<subseteq> sent b' \<and> sound s' \<and> events_of s' = events_of s \<and>
    (case res of None \<Rightarrow> True | Some (m, err) \<Rightarrow> m = k + n \<and> (err = None \<longleftrightarrow> n = length es))"
  using assms(3,4)
proof (induction es arbitrary: k s b)
  case (Cons e es)
  obtain p b1 where p: "publish e b = (p, b1)" by fastforce
  show ?case
  proof (cases "\<exists>u. p = Some (Inr u)")
    case False
    then show ?thesis using Cons.prems p sent_grows [OF p] assms(1,2)
      by (intro exI [of _ 0] exI [of _ "{}"]) (auto split: option.splits sum.splits)
  next
    case True
    then obtain u where u: "p = Some (Inr u)" by blast
    obtain m s1 where m: "os_MarkOutboxPublished Src (e_MessageID e) (clock k) s = (m, s1)" by fastforce
    note mark1 = mark [OF Cons.prems(1) m] and sent1 = sent_grows [OF p] sent_ok [OF p [unfolded u]]
    show ?thesis
    proof (cases m)
      case (Inl err)
      with mark1 obtain ids where "published s1 = published s \<union> ids" "ids \<subseteq> {e_MessageID e}" by auto
      then show ?thesis using Cons.prems p u m mark1 sent1 assms(1,2) Inl
        by (intro exI [of _ 0] exI [of _ ids]) auto
    next
      case (Inr v)
      then have "relay_events r clock es (k + 1) s1 b1 = (res, s', b')"
        using Cons.prems p u m assms(1,2) by simp
      from Cons.IH [OF _ this] mark1 obtain n ids where
        "published s' = published s1 \<union> ids" "e_MessageID ` set (take n es) \<subseteq> ids" "ids \<subseteq> e_MessageID ` set es"
        "ids \<subseteq> sent b'" "sent b1 \<subseteq> sent b'" "sound s'" "events_of s' = events_of s1"
        "case res of None \<Rightarrow> True | Some (m, err) \<Rightarrow> m = k + 1 + n \<and> (err = None \<longleftrightarrow> n = length es)" by blast
      then show ?thesis using mark1 Inr sent1
        by (intro exI [of _ "Suc n"] exI [of _ "insert (e_MessageID e) ids"]) (auto split: option.splits)
    qed
  qed
qed auto

lemma run_once:
  assumes "rl_Source r = Src" "rl_Publisher r = publish" "sound s" "Relay_RunOnce r wall limit s b = (res, s', b')"
  shows "\<exists>ids. published s' = published s \<union> ids \<and> ids \<subseteq> e_MessageID ` set (events_of s) \<and>
    ids \<inter> published s = {} \<and> ids \<subseteq> sent b' \<and> sent b \<subseteq> sent b' \<and> sound s' \<and> events_of s' = events_of s"
proof -
  obtain p s1 where p: "os_PendingOutboxEvents Src (wall 0) limit s = (p, s1)" by fastforce
  note keep = pending [OF assms(3) p]
  show ?thesis
  proof (cases p)
    case (Inl err)
    then show ?thesis using assms p keep by (intro exI [of _ "{}"]) (auto simp: Relay_RunOnce_def)
  next
    case (Inr es)
    have run: "relay_events r (relay_clock r wall) es 0 s1 b = (res, s', b')"
      using assms p Inr by (simp add: Relay_RunOnce_def)
    note es = pending_events [OF assms(3) p [unfolded Inr]]
    have es1: "e_MessageID ` set es \<subseteq> e_MessageID ` set (events_of s)" using es by fastforce
    have es2: "e_MessageID ` set es \<inter> published s = {}" using es by blast
    from events_published [OF assms(1,2) _ run] keep obtain ids where
      "published s' = published s1 \<union> ids" "ids \<subseteq> e_MessageID ` set es" "ids \<subseteq> sent b'" "sent b \<subseteq> sent b'"
      "sound s'" "events_of s' = events_of s1" by blast
    with keep es1 es2 show ?thesis by (intro exI [of _ ids]) auto
  qed
qed

end

abbreviation rabbit_sent :: "amqp_channel \<Rightarrow> string set" where
  "rabbit_sent ch \<equiv> (\<lambda>(exchange, msg). dl_MessageId msg) ` set (ch_sent ch)"

interpretation rabbit: publisher "RabbitPublisher_Publish marshal inject" rabbit_sent
proof
  fix e b r b' u
  show "RabbitPublisher_Publish marshal inject e b = (r, b') \<Longrightarrow> rabbit_sent b \<subseteq> rabbit_sent b'"
    using RabbitPublisher_Publish_sent [of marshal inject e b r b'] by auto
  show "RabbitPublisher_Publish marshal inject e b = (Some (Inr u), b') \<Longrightarrow> e_MessageID e \<in> rabbit_sent b'"
    using RabbitPublisher_Publish_sent [of marshal inject e b "Some (Inr u)" b'] by (auto simp: Publish_message_def)
qed

abbreviation ms_published :: "MemoryStore \<Rightarrow> string set" where
  "ms_published s \<equiv> {mid. mapget (publishedOutbox s) mid \<noteq> None}"

interpretation ms_rabbit: relay MemoryStore_Outbox "\<lambda>_. True" outbox ms_published "RabbitPublisher_Publish marshal inject" rabbit_sent ..

subsection \<open>Draining the outbox\<close>

text \<open>A publisher that never fails on the events of a store.\<close>

lemma relay_events_healthy:
  assumes "rl_Source r = MemoryStore_Outbox" "\<And>e b. \<exists>b'. rl_Publisher r e b = (Some (Inr ()), b')"
  shows "\<exists>s' b'. relay_events r clock es k s b = (Some (k + length es, None), s', b') \<and> outbox s' = outbox s \<and>
    ms_published s' = ms_published s \<union> e_MessageID ` set es \<and>
    (\<forall>m. mapget (claimedOutbox s') m = (if m \<in> e_MessageID ` set es then None else mapget (claimedOutbox s) m))"
proof (induction es arbitrary: k s b)
  case (Cons e es)
  obtain b1 where b1: "rl_Publisher r e b = (Some (Inr ()), b1)" using assms(2) by blast
  define s1 where "s1 = s\<lparr>publishedOutbox := mapset (e_MessageID e) (clock k) (publishedOutbox s),
    claimedOutbox := mapdel (e_MessageID e) (claimedOutbox s)\<rparr>"
  have m: "os_MarkOutboxPublished (rl_Source r) (e_MessageID e) (clock k) s = (Inr (), s1)"
    using assms(1) by (simp add: MemoryStore_Outbox_def MemoryStore_MarkOutboxPublished_def s1_def)
  from Cons.IH [of "k + 1" s1 b1] obtain s' b' where
    "relay_events r clock es (k + 1) s1 b1 = (Some (k + 1 + length es, None), s', b')" "outbox s' = outbox s1"
    "ms_published s' = ms_published s1 \<union> e_MessageID ` set es"
    "\<forall>m. mapget (claimedOutbox s') m = (if m \<in> e_MessageID ` set es then None else mapget (claimedOutbox s1) m)"
    by blast
  then show ?case using b1 m by (intro exI [of _ s'] exI [of _ b']) (auto simp: s1_def)
qed auto

lemma run_once_healthy:
  assumes "rl_Source r = MemoryStore_Outbox" "\<And>e b. \<exists>b'. rl_Publisher r e b = (Some (Inr ()), b')"
    and "\<And>m. mapget (claimedOutbox s) m = None"
  shows "\<exists>s' b'. Relay_RunOnce r wall limit s b = (Some (length (batch (wall 0) limit s), None), s', b') \<and>
    outbox s' = outbox s \<and> ms_published s' = ms_published s \<union> e_MessageID ` set (batch (wall 0) limit s) \<and>
    (\<forall>m. mapget (claimedOutbox s') m = None)"
proof -
  let ?B = "batch (wall 0) limit s"
  from PendingOutboxEvents_batch [of "wall 0" limit s] obtain claimed where
    p: "MemoryStore_PendingOutboxEvents (wall 0) limit s = (Inr (map WithEnvelopeDefaults ?B), s\<lparr>claimedOutbox := claimed\<rparr>)"
    and c: "\<forall>m. mapget claimed m = (if m \<in> e_MessageID ` set ?B then Some (wall 0 + outbox_lease)
      else mapget (claimedOutbox s) m)" by blast
  from relay_events_healthy [OF assms(1,2), of "relay_clock r wall" "map WithEnvelopeDefaults ?B" 0
      "s\<lparr>claimedOutbox := claimed\<rparr>" b]
  show ?thesis using p c assms(1,3)
    by (auto simp: Relay_RunOnce_def MemoryStore_Outbox_def image_image split: if_splits)
qed

definition pending_ids :: "MemoryStore \<Rightarrow> string set" where
  "pending_ids s = e_MessageID ` set (outbox s) - ms_published s"

lemma finite_pending_ids [simp]: "finite (pending_ids s)"
  by (simp add: pending_ids_def)

lemma batch_pending:
  assumes "\<And>m. mapget (claimedOutbox s) m = None"
  shows "e_MessageID ` set (batch now limit s) \<subseteq> pending_ids s"
    and "0 < limit \<and> int (length (batch now limit s)) = limit \<or> e_MessageID ` set (batch now limit s) = pending_ids s"
proof -
  have el: "eligible (publishedOutbox s) (claimedOutbox s) now e \<longleftrightarrow> e_MessageID e \<notin> ms_published s" for e
    using assms by (simp add: eligible_def)
  have "e_MessageID ` {e \<in> set (outbox s). eligible (publishedOutbox s) (claimedOutbox s) now e} = pending_ids s"
    by (auto simp: el pending_ids_def)
  with batch_complete [of limit now s]
  show "0 < limit \<and> int (length (batch now limit s)) = limit \<or> e_MessageID ` set (batch now limit s) = pending_ids s"
    by metis
  show "e_MessageID ` set (batch now limit s) \<subseteq> pending_ids s"
    using batch_props [of _ now limit s] by (auto simp: el pending_ids_def)
qed

lemma relay_drains:
  assumes "rl_Source r = MemoryStore_Outbox" "\<And>e b. \<exists>b'. rl_Publisher r e b = (Some (Inr ()), b')" "0 < batchSize"
    and "\<And>m. mapget (claimedOutbox s) m = None" "card (pending_ids s) < fuel"
  shows "\<exists>s' b'. relay_until_pause fuel r walls batchSize s b = Some (s', b') \<and>
    outbox s' = outbox s \<and> pending_ids s' = {}"
  using assms(4,5)
proof (induction fuel arbitrary: walls s b)
  case (Suc fuel)
  let ?B = "batch (walls 0 0) batchSize s"
  from run_once_healthy [OF assms(1,2) Suc.prems(1), of "walls 0" batchSize b] obtain s1 b1 where
    run: "Relay_RunOnce r (walls 0) batchSize s b = (Some (length ?B, None), s1, b1)" "outbox s1 = outbox s"
    and pub: "ms_published s1 = ms_published s \<union> e_MessageID ` set ?B" and c: "\<And>m. mapget (claimedOutbox s1) m = None"
    by blast
  have left: "pending_ids s1 = pending_ids s - e_MessageID ` set ?B" using run(2) pub by (auto simp: pending_ids_def)
  note B = batch_pending [OF Suc.prems(1), where now = "walls 0 0" and limit = batchSize]
  show ?case
  proof (cases "int (length ?B) = batchSize")
    case True
    have "card (e_MessageID ` set ?B) = length ?B"
      using batch_distinct [of "walls 0 0" batchSize s] distinct_card [of "map e_MessageID ?B"] by simp
    then have "card (pending_ids s1) < fuel"
      using left B(1) True assms(3) Suc.prems(2) card_Diff_subset [of "e_MessageID ` set ?B" "pending_ids s"]
        card_mono [OF finite_pending_ids B(1)] by simp
    from Suc.IH [OF c this, of "\<lambda>i. walls (i + 1)" b1] show ?thesis using run True by auto
  next
    case False
    then show ?thesis using run B(2) left by auto
  qed
qed simp

subsection \<open>Properties\<close>

text \<open>
  C13. The relay publishes at least once and never drops an event: whatever the broker and the
  clock do, also when a publication fails or never returns, a message is marked as published
  only after it was handed to the broker, only messages of the outbox that were not marked
  before are marked, and the outbox itself is not changed.
\<close>

theorem relay_at_least_once:
  assumes "rl_Source r = MemoryStore_Outbox" "rl_Publisher r = RabbitPublisher_Publish marshal inject"
    and "Relay_RunOnce r wall limit s ch = (res, s', ch')"
  shows "\<exists>ids. ms_published s' = ms_published s \<union> ids \<and> ids \<subseteq> e_MessageID ` set (outbox s) \<and>
    ids \<inter> ms_published s = {} \<and> ids \<subseteq> rabbit_sent ch' \<and> rabbit_sent ch \<subseteq> rabbit_sent ch' \<and>
    outbox s' = outbox s"
  using ms_rabbit.run_once [OF assms(1,2) TrueI assms(3)] by simp

definition sample_relay :: "(MemoryStore, amqp_channel) Relay" where
  "sample_relay = \<lparr>rl_Source = MemoryStore_Outbox, rl_Publisher = RabbitPublisher_Publish sample_marshal id,
     rl_Clock = None\<rparr>"

theorem relay_at_least_once_witness:
  "\<exists>res s' ch'. Relay_RunOnce sample_relay (\<lambda>_. 5) 10 sample_store sample_channel = (res, s', ch') \<and>
     ms_published s' - ms_published sample_store \<subseteq> rabbit_sent ch' \<and> outbox s' = outbox sample_store"
proof -
  obtain res s' ch' where run: "Relay_RunOnce sample_relay (\<lambda>_. 5) 10 sample_store sample_channel = (res, s', ch')"
    by (metis prod.exhaust)
  from relay_at_least_once [OF _ _ this, of sample_marshal id]
  have "ms_published s' - ms_published sample_store \<subseteq> rabbit_sent ch' \<and> outbox s' = outbox sample_store"
    by (auto simp: sample_relay_def)
  with run show ?thesis by blast
qed

text \<open>
  C33. The relay drains the outbox: with a publisher that accepts every message, no lease of
  another relay outstanding and a positive batch size, the relay process reaches its pause
  after at most one run per pending message and one more, and then every message of the
  outbox is marked as published.
\<close>

theorem relay_drains_outbox:
  assumes "rl_Source r = MemoryStore_Outbox" "\<And>e b. \<exists>b'. rl_Publisher r e b = (Some (Inr ()), b')"
    and "0 < batchSize" "\<And>m. mapget (claimedOutbox s) m = None"
  shows "\<exists>s' b'. relay_until_pause (card (pending_ids s) + 1) r walls batchSize s b = Some (s', b') \<and>
    outbox s' = outbox s \<and> e_MessageID ` set (outbox s) \<subseteq> ms_published s'"
proof -
  have "card (pending_ids s) < card (pending_ids s) + 1" by simp
  from relay_drains [OF assms this, of walls b] obtain s' b' where
    "relay_until_pause (card (pending_ids s) + 1) r walls batchSize s b = Some (s', b')" "outbox s' = outbox s"
    "pending_ids s' = {}" by blast
  then show ?thesis by (intro exI conjI) (auto simp: pending_ids_def)
qed

theorem relay_drains_outbox_witness:
  "\<exists>s' b'. relay_until_pause (card (pending_ids sample_store) + 1)
     \<lparr>rl_Source = MemoryStore_Outbox, rl_Publisher = (\<lambda>e b. (Some (Inr ()), b @ [e])), rl_Clock = None\<rparr>
     (\<lambda>_ _. 5) 1 sample_store [] = Some (s', b') \<and> e_MessageID ` set (outbox sample_store) \<subseteq> ms_published s' \<and>
     outbox sample_store \<noteq> []"
proof -
  let ?r = "\<lparr>rl_Source = MemoryStore_Outbox, rl_Publisher = (\<lambda>e b. (Some (Inr ()), b @ [e])), rl_Clock = None\<rparr>"
  have c: "\<And>m. mapget (claimedOutbox sample_store) m = None"
    by (simp add: sample_store_eq inserted_def NewMemoryStore_def)
  have ne: "outbox sample_store \<noteq> []" by (simp add: sample_store_eq inserted_def)
  obtain s' b' where "relay_until_pause (card (pending_ids sample_store) + 1) ?r (\<lambda>_ _. 5) 1 sample_store [] = Some (s', b')"
    "e_MessageID ` set (outbox sample_store) \<subseteq> ms_published s'"
    using relay_drains_outbox [of ?r 1 sample_store "\<lambda>_ _. 5" "[]", OF _ _ _ c]
    by (simp del: relay_until_pause.simps) blast
  with ne show ?thesis by blast
qed

end
