(* ===== verification/Sha256.thy ===== *)
theory Sha256
  imports Go_Lib
begin

unbundle bit_operations_syntax

text \<open>
  SHA-256 and HMAC-SHA-256 as Go's \<open>crypto/sha256\<close> and \<open>crypto/hmac\<close> compute them
  (FIPS 180-4, RFC 2104), on strings as lists of bytes. The service derives its opaque
  references from the first, the provider webhooks are signed with the second.
\<close>

text \<open>
  The standard's constants are the first 32 bits of the fractional parts of the cube roots
  (round constants) and square roots (initial state) of the first primes, computed here by
  an integer root that finds its bits from the top. Roots of primes up to 311 have at most
  three bits before the point.
\<close>

fun root_bits :: "nat \<Rightarrow> nat \<Rightarrow> nat \<Rightarrow> nat \<Rightarrow> nat" where
  "root_bits k n 0 r = r"
| "root_bits k n (Suc b) r =
     (if (r + 2 ^ b) ^ k \<le> n then root_bits k n b (r + 2 ^ b) else root_bits k n b r)"

definition root_fraction :: "nat \<Rightarrow> nat \<Rightarrow> 32 word" where
  "root_fraction k p = word_of_nat (root_bits k (p * 2 ^ (32 * k)) 35 0)"

definition small_primes :: "nat list" where
  "small_primes = filter (\<lambda>p. list_all (\<lambda>d. p mod d \<noteq> 0) [2..<p]) [2..<312]"

definition sha_k :: "32 word list" where
  "sha_k = map (root_fraction 3) small_primes"

type_synonym sha_state = "32 word \<times> 32 word \<times> 32 word \<times> 32 word \<times> 32 word \<times> 32 word \<times> 32 word \<times> 32 word"

definition sha_init :: sha_state where
  "sha_init = (let f = root_fraction 2 in (f 2, f 3, f 5, f 7, f 11, f 13, f 17, f 19))"

text \<open>Big-endian bytes of a number, and the number a byte list spells.\<close>

fun be_bytes :: "nat \<Rightarrow> nat \<Rightarrow> string" where
  "be_bytes 0 n = []"
| "be_bytes (Suc k) n = be_bytes k (n div 256) @ [char_of (n mod 256)]"

definition be_value :: "string \<Rightarrow> nat" where
  "be_value bs = foldl (\<lambda>n b. n * 256 + of_char b) 0 bs"

definition sha_pad :: "string \<Rightarrow> string" where
  "sha_pad msg = msg @ [char_of (128 :: nat)] @
     replicate (nat ((55 - int (length msg)) mod 64)) (char_of (0 :: nat)) @
     be_bytes 8 (8 * length msg)"

function sha_blocks :: "nat \<Rightarrow> string \<Rightarrow> string list" where
  "sha_blocks n bs = (if bs = [] \<or> n = 0 then [] else take n bs # sha_blocks n (drop n bs))"
  by pat_completeness auto
termination by (relation "measure (\<lambda>(n, bs). length bs)") auto

declare sha_blocks.simps [simp del]

definition sha_schedule :: "string \<Rightarrow> 32 word list" where
  "sha_schedule block = foldl (\<lambda>w i.
     (let x = w ! (i - 15); y = w ! (i - 2);
          s0 = word_rotr 7 x XOR word_rotr 18 x XOR drop_bit 3 x;
          s1 = word_rotr 17 y XOR word_rotr 19 y XOR drop_bit 10 y
      in w @ [w ! (i - 16) + s0 + w ! (i - 7) + s1]))
     (map (\<lambda>b. word_of_nat (be_value b)) (sha_blocks 4 block)) [16..<64]"

fun sha_round :: "sha_state \<Rightarrow> 32 word \<times> 32 word \<Rightarrow> sha_state" where
  "sha_round (a, b, c, d, e, f, g, h) (k, w) =
     (let t1 = h + (word_rotr 6 e XOR word_rotr 11 e XOR word_rotr 25 e)
                 + ((e AND f) XOR (NOT e AND g)) + k + w;
          t2 = (word_rotr 2 a XOR word_rotr 13 a XOR word_rotr 22 a)
                 + ((a AND b) XOR (a AND c) XOR (b AND c))
      in (t1 + t2, a, b, c, d + t1, e, f, g))"

fun sha_add :: "sha_state \<Rightarrow> sha_state \<Rightarrow> sha_state" where
  "sha_add (a, b, c, d, e, f, g, h) (a', b', c', d', e', f', g', h') =
     (a + a', b + b', c + c', d + d', e + e', f + f', g + g', h + h')"

definition sha_compress :: "sha_state \<Rightarrow> string \<Rightarrow> sha_state" where
  "sha_compress s block = sha_add s (foldl sha_round s (zip sha_k (sha_schedule block)))"

fun sha_digest :: "sha_state \<Rightarrow> string" where
  "sha_digest (a, b, c, d, e, f, g, h) =
     concat (map (\<lambda>w. be_bytes 4 (unat w)) [a, b, c, d, e, f, g, h])"

definition Sum256 :: "string \<Rightarrow> string" where
  "Sum256 msg = sha_digest (foldl sha_compress sha_init (sha_blocks 64 (sha_pad msg)))"

definition xor_pad :: "nat \<Rightarrow> string \<Rightarrow> string" where
  "xor_pad v key = map (\<lambda>c. char_of ((of_char c :: nat) XOR v)) key"

definition hmac_key :: "string \<Rightarrow> string" where
  "hmac_key key =
     (let k = (if 64 < length key then Sum256 key else key)
      in k @ replicate (64 - length k) (char_of (0 :: nat)))"

definition hmac_Sum :: "string \<Rightarrow> string \<Rightarrow> string" where
  "hmac_Sum key msg =
     Sum256 (xor_pad 0x5c (hmac_key key) @ Sum256 (xor_pad 0x36 (hmac_key key) @ msg))"

lemma length_be_bytes [simp]: "length (be_bytes k n) = k"
  by (induction k arbitrary: n) simp_all

lemma length_sha_digest [simp]: "length (sha_digest s) = 32"
  by (cases s rule: sha_digest.cases) simp

lemma length_Sum256 [simp]: "length (Sum256 msg) = 32"
  by (simp add: Sum256_def)

lemma length_hmac_Sum [simp]: "length (hmac_Sum key msg) = 32"
  by (simp add: hmac_Sum_def)

lemma length_hmac_key: "length (hmac_key key) = 64"
  by (simp add: hmac_key_def Let_def)

end
