(* ===== verification/Webhook.thy ===== *)
theory Webhook
  imports Order_Model Sha256
begin

text \<open>
  Signed provider webhooks, \<open>internal/providers/webhook.go\<close>: the digest (HMAC-SHA-256 over
  timestamp, event id and payload), the signature header, the verifier and the in-memory
  replay store. Byte slices are strings. A timestamp outside the range that \<open>time.Unix\<close> can
  represent is outside every tolerance, wrapped or not.
\<close>

definition defaultWebhookTolerance :: duration where "defaultWebhookTolerance = 5 * Minute"
definition defaultWebhookReplayTTL :: duration where "defaultWebhookReplayTTL = 24 * Hour"

datatype webhook_error =
    ErrWebhookProviderMissing
  | ErrWebhookSecretMissing
  | ErrWebhookEventIDMissing
  | ErrWebhookTimestampMissing
  | ErrWebhookSignatureMissing
  | ErrWebhookTimestampInvalid
  | ErrWebhookTimestampOutOfWindow
  | ErrWebhookSignatureInvalid
  | ErrWebhookReplay
  | ErrWebhookReplayStoreUnavailable error

record WebhookRequest =
  wr_EventID :: string
  wr_Timestamp :: string
  wr_Signature :: string
  wr_Payload :: string

record VerifiedWebhook =
  vw_Provider :: string
  vw_EventID :: string
  vw_Timestamp :: time
  vw_ReceivedAt :: time
  vw_ReplayExpiresAt :: time

type_synonym 's WebhookReplayStore = "string \<Rightarrow> string \<Rightarrow> time \<Rightarrow> time \<Rightarrow> ('s, error, bool) op"

record 's WebhookVerifier =
  wv_Provider :: string
  wv_CurrentSecret :: string
  wv_PreviousSecrets :: "string list"
  wv_ReplayStore :: "'s WebhookReplayStore option"
  wv_Clock :: "(time \<Rightarrow> time) option"
  wv_Tolerance :: duration
  wv_ReplayTTL :: duration

subsection \<open>Digests and signatures\<close>

definition webhookDigest :: "string \<Rightarrow> string \<Rightarrow> int \<Rightarrow> string \<Rightarrow> string" where
  "webhookDigest secret eventID timestamp payload =
     hmac_Sum secret (FormatInt timestamp @ ''.'' @ eventID @ ''.'' @ payload)"

definition SignWebhook :: "string \<Rightarrow> string \<Rightarrow> time \<Rightarrow> string \<Rightarrow> string" where
  "SignWebhook secret eventID timestamp payload =
     ''v1='' @ hex_EncodeToString (webhookDigest secret eventID (Unix_seconds timestamp) payload)"

definition parse_signature :: "string \<Rightarrow> string option" where
  "parse_signature part =
     (case Cut (TrimSpace part) (CHR ''='') of
        (key, val, found) \<Rightarrow>
          if \<not> found \<or> key \<noteq> ''v1'' then None
          else case hex_DecodeString (TrimSpace val) of
            None \<Rightarrow> None
          | Some decoded \<Rightarrow> if length decoded \<noteq> 32 then None else Some decoded)"

definition parseWebhookSignatures :: "string \<Rightarrow> string list" where
  "parseWebhookSignatures header = List.map_filter parse_signature (Split header (CHR '',''))"

definition webhook_secrets :: "'s WebhookVerifier \<Rightarrow> string list" where
  "webhook_secrets v = filter (\<lambda>secret. secret \<noteq> []) (map TrimSpace (wv_CurrentSecret v # wv_PreviousSecrets v))"

definition matchesSignature :: "string list \<Rightarrow> string \<Rightarrow> int \<Rightarrow> string \<Rightarrow> string list \<Rightarrow> bool" where
  "matchesSignature secrets eventID timestamp payload signatures =
     list_ex (\<lambda>secret. let expected = webhookDigest secret eventID timestamp payload
                       in list_ex (\<lambda>got. got = expected) signatures) secrets"

subsection \<open>Verification\<close>

text \<open>\<open>wall\<close> is the reading of the system clock; a configured clock reads it its own way.\<close>

definition webhook_now :: "'s WebhookVerifier \<Rightarrow> time \<Rightarrow> time" where
  "webhook_now v wall = (case wv_Clock v of None \<Rightarrow> wall | Some clock \<Rightarrow> clock wall)"

definition webhook_tolerance :: "'s WebhookVerifier \<Rightarrow> duration" where
  "webhook_tolerance v = (if wv_Tolerance v = 0 then defaultWebhookTolerance else wv_Tolerance v)"

definition webhook_ttl :: "'s WebhookVerifier \<Rightarrow> duration" where
  "webhook_ttl v = (if wv_ReplayTTL v = 0 then defaultWebhookReplayTTL else wv_ReplayTTL v)"

definition record_replay :: "'s WebhookVerifier \<Rightarrow> string \<Rightarrow> string \<Rightarrow> time \<Rightarrow> time \<Rightarrow> ('s, webhook_error, unit) op" where
  "record_replay v provider eventID now expiresAt s =
     (case wv_ReplayStore v of
        None \<Rightarrow> (Inr (), s)
      | Some RecordWebhook \<Rightarrow>
        (case RecordWebhook provider eventID now expiresAt s of
           (Inl err, s) \<Rightarrow> (Inl (ErrWebhookReplayStoreUnavailable err), s)
         | (Inr accepted, s) \<Rightarrow> if \<not> accepted then (Inl ErrWebhookReplay, s) else (Inr (), s)))"

definition WebhookVerifier_Verify :: "time \<Rightarrow> 's WebhookVerifier \<Rightarrow> WebhookRequest
    \<Rightarrow> ('s, webhook_error, VerifiedWebhook) op" where
  "WebhookVerifier_Verify wall v request s =
     (let provider = TrimSpace (wv_Provider v); secrets = webhook_secrets v;
          eventID = TrimSpace (wr_EventID request) in
      if provider = [] then (Inl ErrWebhookProviderMissing, s)
      else if secrets = [] then (Inl ErrWebhookSecretMissing, s)
      else if eventID = [] then (Inl ErrWebhookEventIDMissing, s)
      else if TrimSpace (wr_Timestamp request) = [] then (Inl ErrWebhookTimestampMissing, s)
      else if TrimSpace (wr_Signature request) = [] then (Inl ErrWebhookSignatureMissing, s)
      else case ParseInt (TrimSpace (wr_Timestamp request)) of
        None \<Rightarrow> (Inl ErrWebhookTimestampInvalid, s)
      | Some timestampUnix \<Rightarrow>
        (let timestamp = time_Unix timestampUnix; now = webhook_now v wall; tolerance = webhook_tolerance v in
         if timestamp < now - tolerance \<or> now + tolerance < timestamp then (Inl ErrWebhookTimestampOutOfWindow, s)
         else
           let signatures = parseWebhookSignatures (wr_Signature request) in
           if signatures = [] then (Inl ErrWebhookSignatureInvalid, s)
           else if \<not> matchesSignature secrets eventID timestampUnix (wr_Payload request) signatures
           then (Inl ErrWebhookSignatureInvalid, s)
           else
             let expiresAt = now + webhook_ttl v in
             case record_replay v provider eventID now expiresAt s of
               (Inl err, s) \<Rightarrow> (Inl err, s)
             | (Inr _, s) \<Rightarrow>
               (Inr \<lparr>vw_Provider = provider, vw_EventID = eventID, vw_Timestamp = timestamp,
                     vw_ReceivedAt = now, vw_ReplayExpiresAt = expiresAt\<rparr>, s)))"

subsection \<open>The in-memory replay store\<close>

text \<open>None is the nil pointer; the map is made on first use.\<close>

record MemoryWebhookReplayStore =
  rs_seen :: "time gomap option"

definition NewMemoryWebhookReplayStore :: MemoryWebhookReplayStore where
  "NewMemoryWebhookReplayStore = \<lparr>rs_seen = Some []\<rparr>"

definition replay_key :: "string \<Rightarrow> string \<Rightarrow> string" where
  "replay_key provider eventID = provider @ CHR 0x00 # eventID"

definition prune_seen :: "time \<Rightarrow> time gomap \<Rightarrow> time gomap" where
  "prune_seen receivedAt seen =
     foldl (\<lambda>m (key, expiresAt). if \<not> receivedAt < expiresAt then mapdel key m else m) seen seen"

definition MemoryWebhookReplayStore_RecordWebhook :: "MemoryWebhookReplayStore option WebhookReplayStore" where
  "MemoryWebhookReplayStore_RecordWebhook provider eventID receivedAt expiresAt store =
     (case store of
        None \<Rightarrow> (Inl (ErrorString ''nil memory webhook replay store''), None)
      | Some s \<Rightarrow>
        (let seen = (case rs_seen s of None \<Rightarrow> [] | Some m \<Rightarrow> m);
             seen = prune_seen receivedAt seen;
             key = replay_key provider eventID in
         case mapget seen key of
           Some existing \<Rightarrow>
             if receivedAt < existing then (Inr False, Some (s\<lparr>rs_seen := Some seen\<rparr>))
             else (Inr True, Some (s\<lparr>rs_seen := Some (mapset key expiresAt seen)\<rparr>))
         | None \<Rightarrow> (Inr True, Some (s\<lparr>rs_seen := Some (mapset key expiresAt seen)\<rparr>))))"

subsection \<open>Facts\<close>

lemma prune_entries:
  assumes "\<forall>(k, e)\<in>set xs. mapget seen k = Some e"
  shows "mapget (foldl (\<lambda>m (k, e). if \<not> t < e then mapdel k m else m) m xs) key =
    (if \<exists>e. (key, e) \<in> set xs \<and> \<not> t < e then None else mapget m key)"
  using assms
proof (induction xs arbitrary: m)
  case (Cons x xs)
  obtain k e where "x = (k, e)" by fastforce
  with Cons show ?case by auto
qed simp

lemma mapget_prune:
  assumes "distinct (map fst seen)"
  shows "mapget (prune_seen t seen) key =
    (case mapget seen key of Some e \<Rightarrow> if t < e then Some e else None | None \<Rightarrow> None)"
proof -
  have "\<forall>(k, e)\<in>set seen. mapget seen k = Some e" using mapget_entry [OF assms] by auto
  from prune_entries [OF this, of t seen key] show ?thesis
    by (auto simp: prune_seen_def mapget_entry [OF assms] split: option.splits)
qed

lemma distinct_prune: "distinct (map fst seen) \<Longrightarrow> distinct (map fst (prune_seen t seen))"
proof -
  have "distinct (map fst m) \<Longrightarrow>
      distinct (map fst (foldl (\<lambda>m (k, e). if \<not> t < e then mapdel k m else m) m xs))" for m xs :: "time gomap"
    by (induction xs arbitrary: m) (auto simp: distinct_delete)
  then show "distinct (map fst seen) \<Longrightarrow> distinct (map fst (prune_seen t seen))"
    by (simp add: prune_seen_def)
qed

lemma replay_key_inject [simp]: "replay_key p e = replay_key p e' \<longleftrightarrow> e = e'"
  by (simp add: replay_key_def)

text \<open>What an accepted request has been checked for.\<close>

lemma Verify_Inr:
  assumes "WebhookVerifier_Verify wall v req s = (Inr x, s')"
  defines "now \<equiv> webhook_now v wall"
  obtains ts where "ParseInt (TrimSpace (wr_Timestamp req)) = Some ts"
    "x = \<lparr>vw_Provider = TrimSpace (wv_Provider v), vw_EventID = TrimSpace (wr_EventID req),
      vw_Timestamp = time_Unix ts, vw_ReceivedAt = now, vw_ReplayExpiresAt = now + webhook_ttl v\<rparr>"
    "now - webhook_tolerance v \<le> time_Unix ts" "time_Unix ts \<le> now + webhook_tolerance v"
    "vw_Provider x \<noteq> []" "vw_EventID x \<noteq> []" "webhook_secrets v \<noteq> []"
    "TrimSpace (wr_Timestamp req) \<noteq> []" "TrimSpace (wr_Signature req) \<noteq> []"
    "parseWebhookSignatures (wr_Signature req) \<noteq> []"
    "matchesSignature (webhook_secrets v) (vw_EventID x) ts (wr_Payload req)
       (parseWebhookSignatures (wr_Signature req))"
    "record_replay v (vw_Provider x) (vw_EventID x) now (now + webhook_ttl v) s = (Inr (), s')"
  using assms by (auto simp: WebhookVerifier_Verify_def Let_def split: if_splits option.splits prod.splits sum.splits)

lemma Verify_accepts:
  assumes "ParseInt (TrimSpace (wr_Timestamp req)) = Some ts" "TrimSpace (wv_Provider v) \<noteq> []"
    "TrimSpace (wr_EventID req) \<noteq> []" "webhook_secrets v \<noteq> []"
    "TrimSpace (wr_Timestamp req) \<noteq> []" "TrimSpace (wr_Signature req) \<noteq> []"
    "webhook_now v wall - webhook_tolerance v \<le> time_Unix ts"
    "time_Unix ts \<le> webhook_now v wall + webhook_tolerance v"
    "parseWebhookSignatures (wr_Signature req) \<noteq> []"
    "matchesSignature (webhook_secrets v) (TrimSpace (wr_EventID req)) ts (wr_Payload req)
       (parseWebhookSignatures (wr_Signature req))"
    "record_replay v (TrimSpace (wv_Provider v)) (TrimSpace (wr_EventID req)) (webhook_now v wall)
       (webhook_now v wall + webhook_ttl v) s = (Inr (), s')"
  shows "WebhookVerifier_Verify wall v req s =
    (Inr \<lparr>vw_Provider = TrimSpace (wv_Provider v), vw_EventID = TrimSpace (wr_EventID req),
       vw_Timestamp = time_Unix ts, vw_ReceivedAt = webhook_now v wall,
       vw_ReplayExpiresAt = webhook_now v wall + webhook_ttl v\<rparr>, s')"
  using assms by (simp add: WebhookVerifier_Verify_def Let_def not_less)

lemma Verify_Inl:
  assumes "WebhookVerifier_Verify wall v req s = (Inl err, s')"
  shows "s' = s \<or> (\<exists>r. record_replay v (TrimSpace (wv_Provider v)) (TrimSpace (wr_EventID req))
     (webhook_now v wall) (webhook_now v wall + webhook_ttl v) s = (r, s'))"
  using assms by (auto simp: WebhookVerifier_Verify_def Let_def split: if_splits option.splits prod.splits sum.splits)

subsection \<open>The contract of a replay store\<close>

text \<open>\<open>live s p e t\<close>: the store \<open>s\<close> refuses event \<open>e\<close> of provider \<open>p\<close> at time \<open>t\<close>.\<close>

locale replay_store =
  fixes RecordWebhook :: "'s WebhookReplayStore" and inv :: "'s \<Rightarrow> bool"
    and live :: "'s \<Rightarrow> string \<Rightarrow> string \<Rightarrow> time \<Rightarrow> bool"
  assumes rec_inv: "inv s \<Longrightarrow> RecordWebhook p e now expiry s = (r, s') \<Longrightarrow> inv s'"
    and rec_keeps: "inv s \<Longrightarrow> RecordWebhook p e now expiry s = (r, s') \<Longrightarrow>
      live s p' e' t \<Longrightarrow> now \<le> t \<Longrightarrow> live s' p' e' t"
    and rec_fresh: "inv s \<Longrightarrow> RecordWebhook p e now expiry s = (Inr True, s') \<Longrightarrow>
      \<not> live s p e now \<and> (t < expiry \<longrightarrow> live s' p e t)"
    and rec_accepts: "inv s \<Longrightarrow> \<not> live s p e now \<Longrightarrow> \<exists>s'. RecordWebhook p e now expiry s = (Inr True, s')"

fun verify_all :: "'s WebhookVerifier \<Rightarrow> (time \<times> WebhookRequest) list \<Rightarrow> 's \<Rightarrow> VerifiedWebhook list" where
  "verify_all v [] s = []"
| "verify_all v ((wall, req) # reqs) s =
     (case WebhookVerifier_Verify wall v req s of
        (Inr x, s') \<Rightarrow> x # verify_all v reqs s'
      | (Inl _, s') \<Rightarrow> verify_all v reqs s')"

context replay_store
begin

lemma replay_effect:
  assumes "wv_ReplayStore v = Some RecordWebhook" "inv s" "record_replay v p e now expiry s = (r, s')"
  shows "inv s' \<and> (live s p' e' t \<longrightarrow> now \<le> t \<longrightarrow> live s' p' e' t) \<and>
    (r = Inr () \<longrightarrow> \<not> live s p e now \<and> (t < expiry \<longrightarrow> live s' p e t))"
proof -
  obtain r1 s1 where rec: "RecordWebhook p e now expiry s = (r1, s1)" by fastforce
  then have "s' = s1" "r = Inr () \<longrightarrow> r1 = Inr True"
    using assms(1,3) by (auto simp: record_replay_def split: sum.splits if_splits)
  with rec_inv [OF assms(2) rec] rec_keeps [OF assms(2) rec] rec_fresh [OF assms(2), of p e now expiry s1] rec
  show ?thesis by auto
qed

lemma verify_effect:
  assumes "wv_ReplayStore v = Some RecordWebhook" "inv s" "WebhookVerifier_Verify wall v req s = (r, s')"
  shows "inv s' \<and> (live s p' e' t \<longrightarrow> webhook_now v wall \<le> t \<longrightarrow> live s' p' e' t)"
proof (cases r)
  case (Inl err)
  then show ?thesis using Verify_Inl [of wall v req s err s'] assms replay_effect [OF assms(1,2)] by blast
next
  case (Inr x)
  then show ?thesis using assms(3) replay_effect [OF assms(1,2)] by (auto elim!: Verify_Inr)
qed

lemma live_never_verified:
  assumes "wv_ReplayStore v = Some RecordWebhook" "inv s" "sorted (now # map (\<lambda>q. webhook_now v (fst q)) reqs)"
    and "\<And>t. now \<le> t \<Longrightarrow> t \<le> ts + webhook_tolerance v \<Longrightarrow> live s (TrimSpace (wv_Provider v)) e t"
  shows "(e, ts) \<notin> (\<lambda>x. (vw_EventID x, vw_Timestamp x)) ` set (verify_all v reqs s)"
  using assms(2-)
proof (induction reqs arbitrary: s now)
  case (Cons q reqs)
  obtain wall req where q: "q = (wall, req)" by fastforce
  obtain r s' where run: "WebhookVerifier_Verify wall v req s = (r, s')" by fastforce
  let ?n = "webhook_now v wall"
  have le: "now \<le> ?n" "sorted (?n # map (\<lambda>q. webhook_now v (fst q)) reqs)" using Cons.prems(2) q by auto
  have "live s' (TrimSpace (wv_Provider v)) e t" if "?n \<le> t" "t \<le> ts + webhook_tolerance v" for t
    using verify_effect [OF assms(1) Cons.prems(1) run] Cons.prems(3) [of t] that le(1) by simp
  moreover have "inv s'" using verify_effect [OF assms(1) Cons.prems(1) run] by blast
  ultimately have rest: "(e, ts) \<notin> (\<lambda>x. (vw_EventID x, vw_Timestamp x)) ` set (verify_all v reqs s')"
    using Cons.IH [of s' ?n] le(2) by blast
  have "(vw_EventID x, vw_Timestamp x) \<noteq> (e, ts)" if r: "r = Inr x" for x
  proof
    assume eq: "(vw_EventID x, vw_Timestamp x) = (e, ts)"
    from run r obtain tsu where x: "x = \<lparr>vw_Provider = TrimSpace (wv_Provider v), vw_EventID = TrimSpace (wr_EventID req),
        vw_Timestamp = time_Unix tsu, vw_ReceivedAt = ?n, vw_ReplayExpiresAt = ?n + webhook_ttl v\<rparr>"
      "?n - webhook_tolerance v \<le> time_Unix tsu"
      "record_replay v (vw_Provider x) (vw_EventID x) ?n (?n + webhook_ttl v) s = (Inr (), s')"
      by (auto elim!: Verify_Inr)
    with eq Cons.prems(3) [of ?n] le(1) replay_effect [OF assms(1) Cons.prems(1) x(3)] show False by auto
  qed
  with rest run q show ?case by (cases r) auto
qed simp

lemma verified_once:
  assumes "wv_ReplayStore v = Some RecordWebhook" "inv s" "sorted (map (\<lambda>q. webhook_now v (fst q)) reqs)"
    and "2 * webhook_tolerance v < webhook_ttl v"
  shows "distinct (map (\<lambda>x. (vw_EventID x, vw_Timestamp x)) (verify_all v reqs s))"
  using assms(2,3)
proof (induction reqs arbitrary: s)
  case (Cons q reqs)
  obtain wall req where q: "q = (wall, req)" by fastforce
  obtain r s' where run: "WebhookVerifier_Verify wall v req s = (r, s')" by fastforce
  let ?n = "webhook_now v wall"
  have inv': "inv s'" using verify_effect [OF assms(1) Cons.prems(1) run] by blast
  have le: "sorted (?n # map (\<lambda>q. webhook_now v (fst q)) reqs)" using Cons.prems(2) q by auto
  have "(vw_EventID x, vw_Timestamp x) \<notin> (\<lambda>x. (vw_EventID x, vw_Timestamp x)) ` set (verify_all v reqs s')"
    if r: "r = Inr x" for x
  proof (rule live_never_verified [OF assms(1) inv' le])
    fix t assume t: "?n \<le> t" "t \<le> vw_Timestamp x + webhook_tolerance v"
    from run r obtain tsu where x: "x = \<lparr>vw_Provider = TrimSpace (wv_Provider v), vw_EventID = TrimSpace (wr_EventID req),
        vw_Timestamp = time_Unix tsu, vw_ReceivedAt = ?n, vw_ReplayExpiresAt = ?n + webhook_ttl v\<rparr>"
      "time_Unix tsu \<le> ?n + webhook_tolerance v"
      "record_replay v (vw_Provider x) (vw_EventID x) ?n (?n + webhook_ttl v) s = (Inr (), s')"
      by (auto elim!: Verify_Inr)
    then have "t < ?n + webhook_ttl v" using t assms(4) by simp
    with replay_effect [OF assms(1) Cons.prems(1) x(3)] x(1)
    show "live s' (TrimSpace (wv_Provider v)) (vw_EventID x) t" by auto
  qed
  with Cons.IH [OF inv'] le run q show ?case by (cases r) auto
qed simp

end

definition rs_inv :: "MemoryWebhookReplayStore option \<Rightarrow> bool" where
  "rs_inv st = (case st of None \<Rightarrow> False
     | Some s \<Rightarrow> (case rs_seen s of None \<Rightarrow> True | Some seen \<Rightarrow> distinct (map fst seen)))"

definition rs_live :: "MemoryWebhookReplayStore option \<Rightarrow> string \<Rightarrow> string \<Rightarrow> time \<Rightarrow> bool" where
  "rs_live st p e t = (case st of None \<Rightarrow> False
     | Some s \<Rightarrow> (case rs_seen s of None \<Rightarrow> False
       | Some seen \<Rightarrow> (case mapget seen (replay_key p e) of None \<Rightarrow> False | Some expiry \<Rightarrow> t < expiry)))"

lemma RecordWebhook_effect:
  assumes "rs_inv st"
  shows "\<exists>seen. distinct (map fst seen) \<and>
    (\<forall>p' e' t. (case mapget seen (replay_key p' e') of None \<Rightarrow> False | Some x \<Rightarrow> t < x) \<and> now \<le> t \<longleftrightarrow>
       rs_live st p' e' t \<and> now \<le> t) \<and>
    MemoryWebhookReplayStore_RecordWebhook p e now expiry st =
      (if rs_live st p e now then (Inr False, Some \<lparr>rs_seen = Some seen\<rparr>)
       else (Inr True, Some \<lparr>rs_seen = Some (mapset (replay_key p e) expiry seen)\<rparr>))"
proof -
  obtain s where s: "st = Some s" using assms by (auto simp: rs_inv_def split: option.splits)
  define old where "old = (case rs_seen s of None \<Rightarrow> [] | Some m \<Rightarrow> m)"
  have d: "distinct (map fst old)" using assms s by (auto simp: old_def rs_inv_def split: option.splits)
  have l: "rs_live st p' e' t \<longleftrightarrow> (case mapget old (replay_key p' e') of None \<Rightarrow> False | Some x \<Rightarrow> t < x)" for p' e' t
    by (auto simp: rs_live_def s old_def split: option.splits)
  have "MemoryWebhookReplayStore_RecordWebhook p e now expiry st =
      (if rs_live st p e now then (Inr False, Some \<lparr>rs_seen = Some (prune_seen now old)\<rparr>)
       else (Inr True, Some \<lparr>rs_seen = Some (mapset (replay_key p e) expiry (prune_seen now old))\<rparr>))"
    by (auto simp: MemoryWebhookReplayStore_RecordWebhook_def s old_def [symmetric] l [unfolded s]
        mapget_prune [OF d] Let_def split: option.splits)
  with distinct_prune [OF d, of now] show ?thesis
    by (intro exI [of _ "prune_seen now old"]) (auto simp: l mapget_prune [OF d] split: option.splits)
qed

interpretation rs: replay_store MemoryWebhookReplayStore_RecordWebhook rs_inv rs_live
proof
  fix st p e now expiry r st' p' e' t
  assume inv: "rs_inv st"
  obtain seen where seen: "distinct (map fst seen)"
    "\<And>p' e' t. now \<le> t \<Longrightarrow> (case mapget seen (replay_key p' e') of None \<Rightarrow> False | Some x \<Rightarrow> t < x) \<longleftrightarrow> rs_live st p' e' t"
    and run: "MemoryWebhookReplayStore_RecordWebhook p e now expiry st =
      (if rs_live st p e now then (Inr False, Some \<lparr>rs_seen = Some seen\<rparr>)
       else (Inr True, Some \<lparr>rs_seen = Some (mapset (replay_key p e) expiry seen)\<rparr>))"
    using RecordWebhook_effect [OF inv, of now p e expiry] by blast
  show "\<not> rs_live st p e now \<Longrightarrow>
      \<exists>st'. MemoryWebhookReplayStore_RecordWebhook p e now expiry st = (Inr True, st')" using run by simp
  show "MemoryWebhookReplayStore_RecordWebhook p e now expiry st = (Inr True, st') \<Longrightarrow>
      \<not> rs_live st p e now \<and> (t < expiry \<longrightarrow> rs_live st' p e t)"
    using run by (auto simp: rs_live_def [of "Some _"] split: if_splits)
  assume "MemoryWebhookReplayStore_RecordWebhook p e now expiry st = (r, st')"
  then have st': "st' = Some \<lparr>rs_seen = Some (if rs_live st p e now then seen
      else mapset (replay_key p e) expiry seen)\<rparr>" using run by (auto split: if_splits)
  show "rs_inv st'" using st' seen(1) by (simp add: rs_inv_def)
  assume live: "rs_live st p' e' t" "now \<le> t"
  have "rs_live st p e now" if "replay_key p e = replay_key p' e'"
    using live seen(2) [of t p' e'] seen(2) [of now p e] that by (auto split: option.splits)
  with live seen(2) [OF live(2), of p' e'] st' show "rs_live st' p' e' t"
    by (auto simp: rs_live_def [of "Some _"] split: option.splits)
qed

subsection \<open>Signing\<close>

lemma parse_signature_hex:
  assumes "length digest = 32"
  shows "parse_signature (''v1='' @ hex_EncodeToString digest) = Some digest"
proof -
  have "list_all visible ''v1=''" by (simp add: visible_def)
  then have "list_all visible (''v1='' @ hex_EncodeToString digest)"
    by (simp only: list_all_append hex_Encode_visible)
  then have "TrimSpace (''v1='' @ hex_EncodeToString digest) = ''v1='' @ hex_EncodeToString digest"
    by (rule TrimSpace_visible)
  moreover have "Cut (''v1='' @ hex_EncodeToString digest) (CHR ''='') = (''v1'', hex_EncodeToString digest, True)"
    using Cut_append [of "CHR ''=''" "''v1''" "hex_EncodeToString digest"] by simp
  ultimately show ?thesis
    using assms hex_Encode_visible [of digest] by (simp add: parse_signature_def TrimSpace_visible)
qed

lemma comma_not_hex: "CHR '','' \<notin> set (hex_EncodeToString bs)"
proof
  have "\<not> lower_hex (CHR '','')" by (simp add: lower_hex_def)
  moreover assume "CHR '','' \<in> set (hex_EncodeToString bs)"
  then have "lower_hex (CHR '','')" using hex_Encode_chars [of bs] by (simp only: list_all_iff)
  ultimately show False by contradiction
qed

lemma parse_SignWebhook [simp]:
  "parseWebhookSignatures (SignWebhook secret e t payload) = [webhookDigest secret e (Unix_seconds t) payload]"
proof -
  have "Split (SignWebhook secret e t payload) (CHR '','') = [SignWebhook secret e t payload]"
    by (rule Split_single) (simp add: SignWebhook_def comma_not_hex)
  then show ?thesis
    using parse_signature_hex [of "webhookDigest secret e (Unix_seconds t) payload"]
    by (simp add: parseWebhookSignatures_def List.map_filter_def SignWebhook_def webhookDigest_def)
qed

lemma SignWebhook_trimmed [simp]: "TrimSpace (SignWebhook secret e t payload) = SignWebhook secret e t payload"
proof (rule TrimSpace_visible)
  have "list_all visible ''v1=''" by (simp add: visible_def)
  then show "list_all visible (SignWebhook secret e t payload)"
    by (simp only: SignWebhook_def list_all_append hex_Encode_visible)
qed

lemma SignWebhook_nonempty [simp]: "SignWebhook secret e t payload \<noteq> []"
  by (simp add: SignWebhook_def)

lemma matches_iff:
  "matchesSignature secrets e ts payload sigs \<longleftrightarrow>
   (\<exists>secret\<in>set secrets. webhookDigest secret e ts payload \<in> set sigs)"
  by (auto simp: matchesSignature_def list_ex_iff Let_def)

definition signed_request :: "string \<Rightarrow> string \<Rightarrow> int \<Rightarrow> string \<Rightarrow> WebhookRequest" where
  "signed_request secret e ts payload =
     \<lparr>wr_EventID = e, wr_Timestamp = FormatInt ts, wr_Signature = SignWebhook secret e (time_Unix ts) payload,
      wr_Payload = payload\<rparr>"

lemma FormatInt_nonempty [simp]: "FormatInt i \<noteq> []"
  by (simp add: FormatInt_def)

lemma signed_request_verifies:
  assumes "wv_ReplayStore v = Some MemoryWebhookReplayStore_RecordWebhook" "rs_inv st"
    and "TrimSpace (wv_Provider v) \<noteq> []" "secret \<in> set (webhook_secrets v)"
    and "TrimSpace e = e" "e \<noteq> []" "- (2 ^ 63) \<le> ts" "ts < 2 ^ 63"
    and "\<bar>time_Unix ts - webhook_now v wall\<bar> \<le> webhook_tolerance v"
    and "\<not> rs_live st (TrimSpace (wv_Provider v)) e (webhook_now v wall)"
  shows "\<exists>st'. WebhookVerifier_Verify wall v (signed_request secret e ts payload) st =
    (Inr \<lparr>vw_Provider = TrimSpace (wv_Provider v), vw_EventID = e, vw_Timestamp = time_Unix ts,
       vw_ReceivedAt = webhook_now v wall, vw_ReplayExpiresAt = webhook_now v wall + webhook_ttl v\<rparr>, st')"
proof -
  let ?req = "signed_request secret e ts payload" and ?p = "TrimSpace (wv_Provider v)"
  from rs.rec_accepts [OF assms(2,10)] obtain st' where
    "MemoryWebhookReplayStore_RecordWebhook ?p e (webhook_now v wall) (webhook_now v wall + webhook_ttl v) st =
      (Inr True, st')" by blast
  then have rec: "record_replay v ?p (TrimSpace (wr_EventID ?req)) (webhook_now v wall)
      (webhook_now v wall + webhook_ttl v) st = (Inr (), st')"
    using assms(1,5) by (simp add: record_replay_def signed_request_def)
  have ts: "TrimSpace (wr_Timestamp ?req) = FormatInt ts"
    by (simp add: signed_request_def TrimSpace_visible FormatInt_visible)
  have m: "matchesSignature (webhook_secrets v) (TrimSpace (wr_EventID ?req)) ts (wr_Payload ?req)
      (parseWebhookSignatures (wr_Signature ?req))"
    using assms(4,5) by (auto simp: matches_iff signed_request_def)
  have "webhook_secrets v \<noteq> []" using assms(4) by auto
  from Verify_accepts [OF _ assms(3) _ this _ _ _ _ _ m rec] ts assms(5-9) show ?thesis
    by (auto simp: ParseInt_FormatInt signed_request_def)
qed

subsection \<open>Properties\<close>

definition sample_verifier :: "MemoryWebhookReplayStore option WebhookVerifier" where
  "sample_verifier = \<lparr>wv_Provider = ''stripe'', wv_CurrentSecret = ''new'', wv_PreviousSecrets = [''old''],
     wv_ReplayStore = Some MemoryWebhookReplayStore_RecordWebhook, wv_Clock = None, wv_Tolerance = 0, wv_ReplayTTL = 0\<rparr>"

abbreviation sample_replay :: "MemoryWebhookReplayStore option" where
  "sample_replay \<equiv> Some NewMemoryWebhookReplayStore"

lemma sample_verifier_facts:
  "TrimSpace (wv_Provider sample_verifier) = ''stripe''" "webhook_secrets sample_verifier = [''new'', ''old'']"
  "wv_ReplayStore sample_verifier = Some MemoryWebhookReplayStore_RecordWebhook"
  "webhook_tolerance sample_verifier = 5 * Minute" "webhook_ttl sample_verifier = 24 * Hour"
  "webhook_now sample_verifier t = t" "rs_inv sample_replay" "\<not> rs_live sample_replay p e t"
  by (simp_all add: sample_verifier_def webhook_secrets_def TrimSpace_visible visible_def webhook_tolerance_def
      defaultWebhookTolerance_def webhook_ttl_def defaultWebhookReplayTTL_def webhook_now_def rs_inv_def rs_live_def
      NewMemoryWebhookReplayStore_def)

lemma sample_signed:
  assumes "TrimSpace e = e" "e \<noteq> []" "rs_inv st" "\<not> rs_live st ''stripe'' e (time_Unix 7)"
  shows "\<exists>st'. WebhookVerifier_Verify (time_Unix 7) sample_verifier (signed_request ''old'' e 7 payload) st =
    (Inr \<lparr>vw_Provider = ''stripe'', vw_EventID = e, vw_Timestamp = time_Unix 7, vw_ReceivedAt = time_Unix 7,
       vw_ReplayExpiresAt = time_Unix 7 + 24 * Hour\<rparr>, st')"
  using signed_request_verifies [of sample_verifier st "''old''" e 7 "time_Unix 7" payload] assms
  by (simp add: sample_verifier_facts)

text \<open>
  C7. A webhook is accepted only if it carries, among its signatures, the HMAC-SHA-256 of its
  timestamp, event id and payload under one of the configured secrets, its timestamp is
  within the tolerance of the clock, and provider and event id are not blank.
\<close>

theorem webhook_accept_sound:
  assumes "WebhookVerifier_Verify wall v req s = (Inr x, s')"
  shows "\<exists>ts secret. ParseInt (TrimSpace (wr_Timestamp req)) = Some ts \<and> vw_Timestamp x = time_Unix ts \<and>
    \<bar>vw_Timestamp x - webhook_now v wall\<bar> \<le> webhook_tolerance v \<and>
    secret \<in> TrimSpace ` set (wv_CurrentSecret v # wv_PreviousSecrets v) \<and> secret \<noteq> [] \<and>
    hmac_Sum secret (FormatInt ts @ ''.'' @ vw_EventID x @ ''.'' @ wr_Payload req)
      \<in> set (parseWebhookSignatures (wr_Signature req)) \<and>
    vw_EventID x = TrimSpace (wr_EventID req) \<and> vw_EventID x \<noteq> [] \<and> vw_Provider x \<noteq> []"
proof -
  from assms obtain ts where ts: "ParseInt (TrimSpace (wr_Timestamp req)) = Some ts"
    "vw_Timestamp x = time_Unix ts" "\<bar>time_Unix ts - webhook_now v wall\<bar> \<le> webhook_tolerance v"
    "vw_EventID x = TrimSpace (wr_EventID req)" "vw_EventID x \<noteq> []" "vw_Provider x \<noteq> []"
    and "matchesSignature (webhook_secrets v) (vw_EventID x) ts (wr_Payload req)
       (parseWebhookSignatures (wr_Signature req))"
    by (rule Verify_Inr) simp
  then obtain secret where "secret \<in> set (webhook_secrets v)"
    "webhookDigest secret (vw_EventID x) ts (wr_Payload req) \<in> set (parseWebhookSignatures (wr_Signature req))"
    by (auto simp: matches_iff)
  with ts show ?thesis
    by (intro exI [of _ ts] exI [of _ secret]) (auto simp: webhook_secrets_def webhookDigest_def split: if_splits)
qed

theorem webhook_accept_sound_witness:
  "\<exists>x st'. WebhookVerifier_Verify (time_Unix 7) sample_verifier (signed_request ''old'' ''evt'' 7 ''{}'') sample_replay =
      (Inr x, st') \<and> \<bar>vw_Timestamp x - time_Unix 7\<bar> \<le> 5 * Minute"
proof -
  obtain x st' where run: "WebhookVerifier_Verify (time_Unix 7) sample_verifier
      (signed_request ''old'' ''evt'' 7 ''{}'') sample_replay = (Inr x, st')"
    using sample_signed [of "''evt''" sample_replay "''{}''"] sample_verifier_facts(7,8)
    by (fastforce simp: TrimSpace_visible visible_def)
  from webhook_accept_sound [OF run] have "\<bar>vw_Timestamp x - time_Unix 7\<bar> \<le> 5 * Minute"
    by (auto simp: sample_verifier_facts)
  with run show ?thesis by blast
qed

text \<open>
  Signing and verification agree, also during a rotation of secrets: a request signed by
  \<open>SignWebhook\<close> with the current or a previous secret, within the tolerance and with an event
  id that the replay store has not seen, is accepted, and what is reported is what was
  signed.
\<close>

theorem signed_webhook_accepted:
  assumes "wv_ReplayStore v = Some MemoryWebhookReplayStore_RecordWebhook" "rs_inv st"
    and "TrimSpace (wv_Provider v) \<noteq> []" "secret \<in> set (webhook_secrets v)"
    and "TrimSpace e = e" "e \<noteq> []" "- (2 ^ 63) \<le> ts" "ts < 2 ^ 63"
    and "\<bar>time_Unix ts - webhook_now v wall\<bar> \<le> webhook_tolerance v"
    and "\<not> rs_live st (TrimSpace (wv_Provider v)) e (webhook_now v wall)"
  shows "\<exists>st'. WebhookVerifier_Verify wall v
      \<lparr>wr_EventID = e, wr_Timestamp = FormatInt ts, wr_Signature = SignWebhook secret e (time_Unix ts) payload,
       wr_Payload = payload\<rparr> st =
    (Inr \<lparr>vw_Provider = TrimSpace (wv_Provider v), vw_EventID = e, vw_Timestamp = time_Unix ts,
       vw_ReceivedAt = webhook_now v wall, vw_ReplayExpiresAt = webhook_now v wall + webhook_ttl v\<rparr>, st')"
  using signed_request_verifies [OF assms, of payload] by (simp only: signed_request_def)

text \<open>
  C14. Replay protection: if the replay entries outlive twice the tolerance (as the defaults
  do), then over any sequence of requests at times that do not go back, no pair of event id
  and timestamp is accepted twice, although entries of the store expire and are pruned.
\<close>

theorem webhook_accepted_once:
  assumes "wv_ReplayStore v = Some MemoryWebhookReplayStore_RecordWebhook" "rs_inv st"
    and "sorted (map (\<lambda>q. webhook_now v (fst q)) reqs)" "2 * webhook_tolerance v < webhook_ttl v"
  shows "distinct (map (\<lambda>x. (vw_EventID x, vw_Timestamp x)) (verify_all v reqs st))"
  by (fact rs.verified_once [OF assms])

theorem webhook_accepted_once_witness:
  "verify_all sample_verifier [(time_Unix 7, signed_request ''old'' ''evt'' 7 ''{}''),
      (time_Unix 9, signed_request ''old'' ''evt'' 7 ''{}'')] sample_replay \<noteq> [] \<and>
   distinct (map (\<lambda>x. (vw_EventID x, vw_Timestamp x)) (verify_all sample_verifier
     [(time_Unix 7, signed_request ''old'' ''evt'' 7 ''{}''),
      (time_Unix 9, signed_request ''old'' ''evt'' 7 ''{}'')] sample_replay))"
proof
  show "verify_all sample_verifier [(time_Unix 7, signed_request ''old'' ''evt'' 7 ''{}''),
      (time_Unix 9, signed_request ''old'' ''evt'' 7 ''{}'')] sample_replay \<noteq> []"
    using sample_signed [of "''evt''" sample_replay "''{}''"] sample_verifier_facts(7,8)
    by (auto simp: TrimSpace_visible visible_def)
  show "distinct (map (\<lambda>x. (vw_EventID x, vw_Timestamp x)) (verify_all sample_verifier
     [(time_Unix 7, signed_request ''old'' ''evt'' 7 ''{}''),
      (time_Unix 9, signed_request ''old'' ''evt'' 7 ''{}'')] sample_replay))"
    by (rule webhook_accepted_once) (simp_all add: sample_verifier_facts time_Unix_def)
qed

text \<open>
  The digest does not separate its parts. A request whose payload contains a dot verifies
  under the same signature with the text before the dot moved from the payload to the event
  id: a captured request is accepted a second time, as another event, and the replay store
  does not notice.
\<close>

theorem webhook_payload_shift:
  assumes "WebhookVerifier_Verify wall v req st = (Inr x, st')" "wr_Payload req = a @ ''.'' @ b"
    and "wv_ReplayStore v = Some MemoryWebhookReplayStore_RecordWebhook" "rs_inv st'"
    and "e = TrimSpace (wr_EventID req) @ ''.'' @ a" "TrimSpace e = e"
    and "\<not> rs_live st' (TrimSpace (wv_Provider v)) e (webhook_now v wall)"
  shows "\<exists>st''. WebhookVerifier_Verify wall v (req\<lparr>wr_EventID := e, wr_Payload := b\<rparr>) st' =
    (Inr (x\<lparr>vw_EventID := e\<rparr>), st'')"
proof -
  let ?p = "TrimSpace (wv_Provider v)" and ?now = "webhook_now v wall"
  from assms(1) obtain ts where ts: "ParseInt (TrimSpace (wr_Timestamp req)) = Some ts"
    "x = \<lparr>vw_Provider = ?p, vw_EventID = TrimSpace (wr_EventID req), vw_Timestamp = time_Unix ts,
      vw_ReceivedAt = ?now, vw_ReplayExpiresAt = ?now + webhook_ttl v\<rparr>"
    and c: "?now - webhook_tolerance v \<le> time_Unix ts" "time_Unix ts \<le> ?now + webhook_tolerance v"
    "vw_Provider x \<noteq> []" "webhook_secrets v \<noteq> []" "TrimSpace (wr_Timestamp req) \<noteq> []"
    "TrimSpace (wr_Signature req) \<noteq> []" "parseWebhookSignatures (wr_Signature req) \<noteq> []"
    "matchesSignature (webhook_secrets v) (vw_EventID x) ts (wr_Payload req)
       (parseWebhookSignatures (wr_Signature req))"
    by (rule Verify_Inr) blast
  from rs.rec_accepts [OF assms(4,7)] obtain st'' where
    "MemoryWebhookReplayStore_RecordWebhook ?p e ?now (?now + webhook_ttl v) st' = (Inr True, st'')" by blast
  then have rec: "record_replay v ?p (TrimSpace (wr_EventID (req\<lparr>wr_EventID := e, wr_Payload := b\<rparr>))) ?now
      (?now + webhook_ttl v) st' = (Inr (), st'')"
    using assms(3,6) by (simp add: record_replay_def)
  have "webhookDigest secret e ts b = webhookDigest secret (vw_EventID x) ts (wr_Payload req)" for secret
    using assms(2,5) ts(2) by (simp add: webhookDigest_def)
  then have m: "matchesSignature (webhook_secrets v) (TrimSpace (wr_EventID (req\<lparr>wr_EventID := e, wr_Payload := b\<rparr>))) ts
      (wr_Payload (req\<lparr>wr_EventID := e, wr_Payload := b\<rparr>))
      (parseWebhookSignatures (wr_Signature (req\<lparr>wr_EventID := e, wr_Payload := b\<rparr>)))"
    using c(8) assms(6) by (simp add: matches_iff)
  have "e \<noteq> []" using assms(5) by simp
  with Verify_accepts [OF _ _ _ c(4) _ _ c(1,2) _ m rec] ts c(3,5-7) assms(6) show ?thesis by simp
qed

end
