(* ===== verification/Pg_Tables.thy ===== *)
theory Pg_Tables
  imports Store_Interface
begin

text \<open>
  The PostgreSQL schema of \<open>internal/postgres/migrations\<close>: one record per table row, the
  database as the lists of its rows in insertion order (which is the order of the serial
  keys), and the effect of inserting into or updating a table under its constraints: primary
  and unique keys, foreign keys, checks and column types. A statement yields the new database
  or an error, and an erroneous statement changes nothing. Columns that no statement of the
  program reads or writes are left out, as are indexes.

  Texts must be valid in the encoding of the database: \<open>text_ok\<close> decides that.
\<close>

subsection \<open>Errors and column types\<close>

datatype pg_error =
    PgError string string
  | DriverError string

fun pg_message :: "pg_error \<Rightarrow> error" where
  "pg_message (PgError code message) = ErrorString (message @ '' (SQLSTATE '' @ code @ '')'')"
| "pg_message (DriverError message) = ErrorString message"

definition isUniqueViolation :: "pg_error \<Rightarrow> bool" where
  "isUniqueViolation err = (case err of PgError code _ \<Rightarrow> code = ''23505'' | DriverError _ \<Rightarrow> False)"

definition unique_violation :: pg_error where
  "unique_violation = PgError ''23505'' ''duplicate key value violates unique constraint''"

definition foreign_key_violation :: pg_error where
  "foreign_key_violation = PgError ''23503'' ''insert or update violates foreign key constraint''"

definition check_violation :: pg_error where
  "check_violation = PgError ''23514'' ''new row violates check constraint''"

definition out_of_range :: pg_error where
  "out_of_range = PgError ''22003'' ''integer out of range''"

definition too_long :: pg_error where
  "too_long = PgError ''22001'' ''value too long for type character(3)''"

definition bad_encoding :: pg_error where
  "bad_encoding = PgError ''22021'' ''invalid byte sequence for encoding''"

text \<open>The first violated condition of a list decides the error.\<close>

fun demand :: "(bool \<times> pg_error) list \<Rightarrow> 'a \<Rightarrow> pg_error + 'a" where
  "demand [] x = Inr x"
| "demand ((holds, err) # rest) x = (if holds then demand rest x else Inl err)"

lemma demand_Inr [simp]: "demand cs x = Inr y \<longleftrightarrow> list_all fst cs \<and> y = x"
  by (induction cs) (auto split: if_splits)

lemma demand_all: "list_all fst cs \<Longrightarrow> demand cs x = Inr x"
  by simp

lemma demand_append: "list_all fst cs \<Longrightarrow> demand (cs @ ds) x = demand ds x"
  by (induction cs) auto

declare demand.simps [simp del]

text \<open>INTEGER columns; TIMESTAMPTZ columns hold microseconds; CHAR(3) pads with blanks.\<close>

definition int4 :: "int \<Rightarrow> bool" where
  "int4 n \<longleftrightarrow> - (2 ^ 31) \<le> n \<and> n < 2 ^ 31"

definition timestamptz :: "time \<Rightarrow> time" where
  "timestamptz t = t div 1000 * 1000"

definition char_count :: "string \<Rightarrow> nat" where
  "char_count s = length (filter (\<lambda>c. (of_char c :: nat) < 128 \<or> 192 \<le> (of_char c :: nat)) s)"

fun drop_blanks :: "nat \<Rightarrow> string \<Rightarrow> string" where
  "drop_blanks n s = (if s \<noteq> [] \<and> n < char_count s \<and> last s = CHR '' '' then drop_blanks n (butlast s) else s)"

declare drop_blanks.simps [simp del]

definition bpchar3 :: "string \<Rightarrow> string" where
  "bpchar3 s = (let t = drop_blanks 3 s in t @ replicate (3 - char_count t) (CHR '' ''))"

definition fits3 :: "string \<Rightarrow> bool" where
  "fits3 s \<longleftrightarrow> char_count (drop_blanks 3 s) \<le> 3"

text \<open>\<open>sql.NullString\<close>: an empty Go string is stored as NULL, and NULL reads as empty.\<close>

definition nullableString :: "string \<Rightarrow> string option" where
  "nullableString value = (if value = [] then None else Some value)"

definition null_string :: "string option \<Rightarrow> string" where
  "null_string column = (case column of None \<Rightarrow> [] | Some value \<Rightarrow> value)"

lemma null_string_nullable [simp]: "null_string (nullableString v) = v"
  by (simp add: null_string_def nullableString_def)

subsection \<open>Rows\<close>

record order_row =
  ow_order_id :: string
  ow_merchant_id :: string
  ow_external_order_id :: string
  ow_status :: string
  ow_currency :: string
  ow_subtotal_amount :: int64
  ow_shipping_amount :: int64
  ow_total_amount :: int64
  ow_payment_provider :: "string option"
  ow_payment_status :: "string option"
  ow_payment_authorization_id :: "string option"
  ow_payment_credential_ref :: "string option"
  ow_shipping_address_ref :: "string option"
  ow_created_at :: time
  ow_updated_at :: time
  ow_version :: int

record item_row =
  it_order_id :: string
  it_sku :: string
  it_quantity :: int
  it_unit_price_amount :: int64
  it_unit_price_currency :: string
  it_reservation_status :: string

record key_row =
  ik_merchant_id :: string
  ik_idempotency_key :: string
  ik_order_id :: string

record outbox_row =
  xb_message_id :: string
  xb_correlation_id :: string
  xb_causation_id :: string
  xb_event_type :: string
  xb_order_id :: string
  xb_merchant_id :: string
  xb_payload :: string
  xb_occurred_at :: time
  xb_published_at :: "time option"
  xb_claimed_by :: "string option"
  xb_claimed_until :: "time option"

record inbox_row =
  in_consumer_name :: string
  in_message_id :: string
  in_correlation_id :: string

record audit_row =
  al_merchant_id :: string
  al_order_id :: "string option"
  al_actor_type :: string
  al_actor_id :: string
  al_action :: string
  al_correlation_id :: string
  al_created_at :: time
  al_details :: string

record reservation_row =
  rv_order_id :: string
  rv_warehouse_id :: "string option"
  rv_sku :: string
  rv_quantity :: int
  rv_status :: string
  rv_reserved_at :: time
  rv_released_at :: "time option"

record authorization_row =
  au_authorization_id :: string
  au_order_id :: string
  au_merchant_id :: string
  au_provider :: string
  au_status :: string
  au_amount :: int64
  au_currency :: string
  au_authorized_at :: time
  au_voided_at :: "time option"

record shipment_row =
  sw_shipment_id :: string
  sw_order_id :: string
  sw_merchant_id :: string
  sw_carrier :: string
  sw_tracking_number :: string
  sw_status :: string
  sw_created_at :: time
  sw_updated_at :: time

record notification_row =
  nt_order_id :: string
  nt_merchant_id :: string
  nt_source_message_id :: string
  nt_source_event_type :: string
  nt_channel :: string
  nt_status :: string
  nt_correlation_id :: string
  nt_created_at :: time

record compensation_row =
  cp_order_id :: string
  cp_merchant_id :: string
  cp_source_message_id :: string
  cp_source_event_type :: string
  cp_action :: string
  cp_target_order_status :: string
  cp_status :: string
  cp_correlation_id :: string
  cp_created_at :: time

record warehouse_row =
  wh_id :: string
  wh_merchant_id :: string
  wh_status :: string

record inventory_row =
  iv_warehouse_id :: string
  iv_sku :: string
  iv_available_quantity :: int
  iv_reserved_quantity :: int
  iv_updated_at :: time

record database =
  merchants :: "string list"
  orders_t :: "order_row list"
  order_items :: "item_row list"
  idempotency_keys :: "key_row list"
  outbox_events :: "outbox_row list"
  inbox_messages :: "inbox_row list"
  audit_logs :: "audit_row list"
  stock_reservations :: "reservation_row list"
  payment_authorizations :: "authorization_row list"
  shipments :: "shipment_row list"
  notification_events :: "notification_row list"
  compensation_events :: "compensation_row list"
  warehouses :: "warehouse_row list"
  inventory_items :: "inventory_row list"

text \<open>
  The parameters: the encoding test, \<open>encoding/json\<close> on events and details, the normalisation of a
  document in a JSONB column, and the freedom of the planner on rows that compare equal.
\<close>

record pg_params =
  text_ok :: "string \<Rightarrow> bool"
  event_out :: "OutboxEvent \<Rightarrow> error + string"
  event_in :: "string \<Rightarrow> error + OutboxEvent"
  details_out :: "string gomap \<Rightarrow> error + string"
  details_in :: "string \<Rightarrow> error + string gomap"
  jsonb :: "string \<Rightarrow> pg_error + string"
  by_occurred_at :: "outbox_row list \<Rightarrow> outbox_row list"
  returning :: "outbox_row list \<Rightarrow> outbox_row list"

definition texts_ok :: "pg_params \<Rightarrow> string list \<Rightarrow> bool \<times> pg_error" where
  "texts_ok p values = (list_all (text_ok p) values, bad_encoding)"

subsection \<open>Inserting and updating under the constraints\<close>

definition order_status_check :: "string \<Rightarrow> bool" where
  "order_status_check status \<longleftrightarrow> status \<in> set [''pending_fulfillment'', ''inventory_reserved'',
     ''payment_authorized'', ''shipment_created'', ''cancellation_pending'', ''manual_review'', ''cancelled'',
     ''completed'', ''failed'']"

lemmas status_defs = StatusPendingFulfillment_def StatusInventoryReserved_def StatusPaymentAuthorized_def
  StatusShipmentCreated_def StatusCancellationPending_def StatusManualReview_def StatusCancelled_def
  StatusCompleted_def StatusFailed_def

lemma order_status_check_valid: "order_status_check status \<longleftrightarrow> IsValidOrderStatus status"
  unfolding order_status_check_def IsValidOrderStatus_def by (simp add: ValidOrderStatuses_def status_defs)

definition payment_status_check :: "string option \<Rightarrow> bool" where
  "payment_status_check status \<longleftrightarrow> status \<in> set (None # map Some
     [''pending_authorization'', ''authorized'', ''failed'', ''voided''])"

definition order_checks :: "pg_params \<Rightarrow> order_row \<Rightarrow> (bool \<times> pg_error) list" where
  "order_checks p r =
     [texts_ok p ([ow_order_id r, ow_merchant_id r, ow_external_order_id r, ow_status r] @
        concat (map (\<lambda>c. case c of None \<Rightarrow> [] | Some v \<Rightarrow> [v]) [ow_payment_provider r, ow_payment_status r,
          ow_payment_authorization_id r, ow_payment_credential_ref r, ow_shipping_address_ref r])),
      (order_status_check (ow_status r), check_violation),
      (payment_status_check (ow_payment_status r), check_violation)]"

definition insert_order_row :: "pg_params \<Rightarrow> order_row \<Rightarrow> database \<Rightarrow> pg_error + unit \<times> database" where
  "insert_order_row p r db =
     demand ([texts_ok p [ow_currency r], (fits3 (ow_currency r), too_long)] @ order_checks p r @
         [(\<not> list_ex (\<lambda>q. ow_order_id q = ow_order_id r) (orders_t db), unique_violation),
          (\<not> list_ex (\<lambda>q. ow_merchant_id q = ow_merchant_id r \<and>
              ow_external_order_id q = ow_external_order_id r) (orders_t db), unique_violation),
          (ow_merchant_id r \<in> set (merchants db), foreign_key_violation)])
       ((), db\<lparr>orders_t := orders_t db @ [r\<lparr>ow_currency := bpchar3 (ow_currency r)\<rparr>]\<rparr>)"

text \<open>An update reports the number of affected rows.\<close>

definition update_orders :: "pg_params \<Rightarrow> (order_row \<Rightarrow> bool) \<Rightarrow> (order_row \<Rightarrow> order_row) \<Rightarrow> database
    \<Rightarrow> pg_error + nat \<times> database" where
  "update_orders p P f db =
     demand (concat (map (\<lambda>r. order_checks p (f r)) (filter P (orders_t db))))
       (length (filter P (orders_t db)), db\<lparr>orders_t := map (\<lambda>r. if P r then f r else r) (orders_t db)\<rparr>)"

definition reservation_status_check :: "string \<Rightarrow> bool" where
  "reservation_status_check status \<longleftrightarrow> status \<in> set [''pending'', ''reserved'', ''rejected'', ''released'']"

definition insert_item_row :: "pg_params \<Rightarrow> item_row \<Rightarrow> database \<Rightarrow> pg_error + unit \<times> database" where
  "insert_item_row p r db =
     demand [(int4 (it_quantity r), out_of_range), (fits3 (it_unit_price_currency r), too_long),
         texts_ok p [it_order_id r, it_sku r, it_unit_price_currency r, it_reservation_status r],
         (0 < it_quantity r, check_violation), (0 \<le> sint (it_unit_price_amount r), check_violation),
         (reservation_status_check (it_reservation_status r), check_violation),
         (\<not> list_ex (\<lambda>q. it_order_id q = it_order_id r \<and> it_sku q = it_sku r) (order_items db), unique_violation),
         (list_ex (\<lambda>q. ow_order_id q = it_order_id r) (orders_t db), foreign_key_violation)]
       ((), db\<lparr>order_items := order_items db @
         [r\<lparr>it_unit_price_currency := bpchar3 (it_unit_price_currency r)\<rparr>]\<rparr>)"

text \<open>The statements set constants of the program, so the check of the column always holds for them.\<close>

definition update_items :: "(item_row \<Rightarrow> bool) \<Rightarrow> string \<Rightarrow> database \<Rightarrow> pg_error + nat \<times> database" where
  "update_items P status db =
     demand [(reservation_status_check status \<or> \<not> list_ex P (order_items db), check_violation)]
       (length (filter P (order_items db)),
        db\<lparr>order_items := map (\<lambda>r. if P r then r\<lparr>it_reservation_status := status\<rparr> else r) (order_items db)\<rparr>)"

definition insert_key_row :: "pg_params \<Rightarrow> key_row \<Rightarrow> database \<Rightarrow> pg_error + unit \<times> database" where
  "insert_key_row p r db =
     demand [texts_ok p [ik_merchant_id r, ik_idempotency_key r, ik_order_id r],
         (\<not> list_ex (\<lambda>k. ik_merchant_id k = ik_merchant_id r \<and> ik_idempotency_key k = ik_idempotency_key r)
            (idempotency_keys db), unique_violation),
         (list_ex (\<lambda>q. ow_order_id q = ik_order_id r) (orders_t db), foreign_key_violation)]
       ((), db\<lparr>idempotency_keys := idempotency_keys db @ [r]\<rparr>)"

definition insert_outbox_row :: "pg_params \<Rightarrow> outbox_row \<Rightarrow> database \<Rightarrow> pg_error + unit \<times> database" where
  "insert_outbox_row p r db =
     (case jsonb p (xb_payload r) of Inl err \<Rightarrow> Inl err | Inr document \<Rightarrow>
     demand [texts_ok p [xb_message_id r, xb_correlation_id r, xb_causation_id r, xb_event_type r, xb_order_id r,
           xb_merchant_id r],
         (\<not> list_ex (\<lambda>q. xb_message_id q = xb_message_id r) (outbox_events db), unique_violation),
         (list_ex (\<lambda>q. ow_order_id q = xb_order_id r) (orders_t db), foreign_key_violation)]
       ((), db\<lparr>outbox_events := outbox_events db @ [r\<lparr>xb_payload := document\<rparr>]\<rparr>))"

definition insert_audit_row :: "pg_params \<Rightarrow> audit_row \<Rightarrow> database \<Rightarrow> pg_error + unit \<times> database" where
  "insert_audit_row p r db =
     (case jsonb p (al_details r) of Inl err \<Rightarrow> Inl err | Inr document \<Rightarrow>
     demand [texts_ok p ([al_merchant_id r, al_actor_type r, al_actor_id r, al_action r, al_correlation_id r] @
         (case al_order_id r of None \<Rightarrow> [] | Some v \<Rightarrow> [v]))]
       ((), db\<lparr>audit_logs := audit_logs db @ [r\<lparr>al_details := document\<rparr>]\<rparr>))"

text \<open>\<open>ON CONFLICT DO NOTHING\<close>: the number of inserted rows is returned.\<close>

definition insert_merchant :: "pg_params \<Rightarrow> string \<Rightarrow> database \<Rightarrow> pg_error + nat \<times> database" where
  "insert_merchant p merchantID db =
     demand [texts_ok p [merchantID]]
       (if merchantID \<in> set (merchants db) then (0, db) else (1, db\<lparr>merchants := merchants db @ [merchantID]\<rparr>))"

definition insert_inbox_row :: "pg_params \<Rightarrow> inbox_row \<Rightarrow> database \<Rightarrow> pg_error + nat \<times> database" where
  "insert_inbox_row p r db =
     demand [texts_ok p [in_consumer_name r, in_message_id r, in_correlation_id r]]
       (if list_ex (\<lambda>i. in_consumer_name i = in_consumer_name r \<and> in_message_id i = in_message_id r) (inbox_messages db)
        then (0, db) else (1, db\<lparr>inbox_messages := inbox_messages db @ [r]\<rparr>))"

text \<open>
  \<open>ON CONFLICT (key) DO UPDATE\<close>: \<open>upsert same f r rows\<close> rewrites the row that agrees with \<open>r\<close> on
  the key, or appends \<open>r\<close>.
\<close>

definition upsert :: "('r \<Rightarrow> bool) \<Rightarrow> ('r \<Rightarrow> 'r) \<Rightarrow> 'r \<Rightarrow> 'r list \<Rightarrow> 'r list" where
  "upsert same f r rows = (if list_ex same rows then map (\<lambda>q. if same q then f q else q) rows else rows @ [r])"

definition upsert_reservation :: "pg_params \<Rightarrow> reservation_row \<Rightarrow> database \<Rightarrow> pg_error + unit \<times> database" where
  "upsert_reservation p r db =
     demand [(int4 (rv_quantity r), out_of_range), (0 < rv_quantity r, check_violation),
         (rv_status r \<in> set [''reserved'', ''released''], check_violation),
         texts_ok p ([rv_order_id r, rv_sku r] @ (case rv_warehouse_id r of None \<Rightarrow> [] | Some v \<Rightarrow> [v])),
         (list_ex (\<lambda>i. it_order_id i = rv_order_id r \<and> it_sku i = rv_sku r) (order_items db), foreign_key_violation),
         (case rv_warehouse_id r of None \<Rightarrow> True | Some w \<Rightarrow> list_ex (\<lambda>h. wh_id h = w) (warehouses db),
          foreign_key_violation)]
       ((), db\<lparr>stock_reservations :=
          upsert (\<lambda>q. rv_order_id q = rv_order_id r \<and> rv_sku q = rv_sku r)
            (\<lambda>q. q\<lparr>rv_warehouse_id := (case rv_warehouse_id r of Some w \<Rightarrow> Some w | None \<Rightarrow> rv_warehouse_id q),
                   rv_quantity := rv_quantity r, rv_status := rv_status r, rv_reserved_at := rv_reserved_at r,
                   rv_released_at := None\<rparr>) r (stock_reservations db)\<rparr>)"

definition upsert_authorization :: "pg_params \<Rightarrow> authorization_row \<Rightarrow> database \<Rightarrow> pg_error + unit \<times> database" where
  "upsert_authorization p r db =
     demand [(fits3 (au_currency r), too_long),
         texts_ok p [au_authorization_id r, au_order_id r, au_merchant_id r, au_provider r, au_status r, au_currency r],
         (0 \<le> sint (au_amount r), check_violation),
         (au_status r \<in> set [''authorized'', ''voided''], check_violation),
         (\<not> list_ex (\<lambda>q. au_authorization_id q = au_authorization_id r \<and> au_order_id q \<noteq> au_order_id r)
            (payment_authorizations db), unique_violation),
         (list_ex (\<lambda>q. ow_order_id q = au_order_id r) (orders_t db), foreign_key_violation)]
       ((), db\<lparr>payment_authorizations :=
          upsert (\<lambda>q. au_order_id q = au_order_id r)
            (\<lambda>q. q\<lparr>au_authorization_id := au_authorization_id r, au_provider := au_provider r, au_status := au_status r,
                   au_amount := au_amount r, au_currency := bpchar3 (au_currency r),
                   au_authorized_at := au_authorized_at r, au_voided_at := None\<rparr>)
            (r\<lparr>au_currency := bpchar3 (au_currency r)\<rparr>) (payment_authorizations db)\<rparr>)"

definition upsert_shipment :: "pg_params \<Rightarrow> shipment_row \<Rightarrow> database \<Rightarrow> pg_error + unit \<times> database" where
  "upsert_shipment p r db =
     demand [texts_ok p [sw_shipment_id r, sw_order_id r, sw_merchant_id r, sw_carrier r, sw_tracking_number r,
           sw_status r],
         (sw_status r \<in> set [''created'', ''failed''], check_violation),
         (\<not> list_ex (\<lambda>q. sw_order_id q \<noteq> sw_order_id r \<and>
             (sw_shipment_id q = sw_shipment_id r \<or> sw_tracking_number q = sw_tracking_number r))
            (shipments db), unique_violation),
         (list_ex (\<lambda>q. ow_order_id q = sw_order_id r) (orders_t db), foreign_key_violation)]
       ((), db\<lparr>shipments :=
          upsert (\<lambda>q. sw_order_id q = sw_order_id r)
            (\<lambda>q. q\<lparr>sw_shipment_id := sw_shipment_id r, sw_carrier := sw_carrier r,
                   sw_tracking_number := sw_tracking_number r, sw_status := sw_status r,
                   sw_updated_at := sw_updated_at r\<rparr>) r (shipments db)\<rparr>)"

definition upsert_notification :: "pg_params \<Rightarrow> notification_row \<Rightarrow> database \<Rightarrow> pg_error + unit \<times> database" where
  "upsert_notification p r db =
     demand [texts_ok p [nt_order_id r, nt_merchant_id r, nt_source_message_id r, nt_source_event_type r,
           nt_correlation_id r],
         (nt_status r \<in> set [''queued'', ''sent'', ''failed''], check_violation),
         (list_ex (\<lambda>q. ow_order_id q = nt_order_id r) (orders_t db), foreign_key_violation)]
       ((), db\<lparr>notification_events :=
          upsert (\<lambda>q. nt_source_message_id q = nt_source_message_id r)
            (\<lambda>q. q\<lparr>nt_status := nt_status r, nt_correlation_id := nt_correlation_id r,
                   nt_created_at := nt_created_at r\<rparr>) r (notification_events db)\<rparr>)"

definition upsert_compensation :: "pg_params \<Rightarrow> compensation_row \<Rightarrow> database \<Rightarrow> pg_error + unit \<times> database" where
  "upsert_compensation p r db =
     demand [texts_ok p [cp_order_id r, cp_merchant_id r, cp_source_message_id r, cp_source_event_type r, cp_action r,
           cp_target_order_status r, cp_correlation_id r],
         (order_status_check (cp_target_order_status r), check_violation),
         (cp_status r \<in> set [''recorded'', ''succeeded'', ''failed''], check_violation),
         (list_ex (\<lambda>q. ow_order_id q = cp_order_id r) (orders_t db), foreign_key_violation)]
       ((), db\<lparr>compensation_events :=
          upsert (\<lambda>q. cp_source_message_id q = cp_source_message_id r)
            (\<lambda>q. q\<lparr>cp_target_order_status := cp_target_order_status r, cp_status := cp_status r,
                   cp_correlation_id := cp_correlation_id r, cp_created_at := cp_created_at r\<rparr>) r
            (compensation_events db)\<rparr>)"

end
