(* ===== verification/Pg_Session.thy ===== *)
theory Pg_Session
  imports Pg_Tables
begin

text \<open>
  What \<open>internal/postgres\<close> uses of \<open>database/sql\<close>: statements, transactions and the wrapping of
  their errors, as operations on a database and a fault script.

  Every statement first consumes one entry of the script: \<open>Some\<close> fault makes it fail (a lost
  connection, a cancelled context, any error of the server), \<open>None\<close> or the end of the script lets
  it run. A transaction works on the database and restores it on the deferred rollback. A failing
  commit, and a failing statement outside a transaction, may or may not have been applied, as the
  flag of the fault says.

  Three judgements carry the proofs on the store: \<open>triple\<close> (what a successful run ensures),
  \<open>honest\<close> (a successful run is the run without faults) and \<open>atomic\<close> (a run is all or nothing).
\<close>

subsection \<open>Statements and transactions\<close>

type_synonym fault = "pg_error \<times> bool"

record pg =
  pg_db :: database
  pg_faults :: "fault option list"

type_synonym 'a pg_op = "(pg, error, 'a) op"

definition ret_op :: "'a \<Rightarrow> ('s, 'e, 'a) op" where
  "ret_op x s = (Inr x, s)"

definition raise_op :: "'e \<Rightarrow> ('s, 'e, 'a) op" where
  "raise_op err s = (Inl err, s)"

definition bind_op :: "('s, 'e, 'a) op \<Rightarrow> ('a \<Rightarrow> ('s, 'e, 'b) op) \<Rightarrow> ('s, 'e, 'b) op" where
  "bind_op m f s = (case m s of (Inl err, s) \<Rightarrow> (Inl err, s) | (Inr x, s) \<Rightarrow> f x s)"

definition lift_error :: "('e + 'a) \<Rightarrow> ('s, 'e, 'a) op" where
  "lift_error r s = (r, s)"

fun fold_op :: "('a \<Rightarrow> ('s, 'e, 'b) op) \<Rightarrow> 'a list \<Rightarrow> ('s, 'e, 'b list) op" where
  "fold_op f [] = ret_op []"
| "fold_op f (x # xs) = bind_op (f x) (\<lambda>y. bind_op (fold_op f xs) (\<lambda>ys. ret_op (y # ys)))"

definition statement :: "(database \<Rightarrow> pg_error + 'a \<times> database) \<Rightarrow> (pg, pg_error, 'a) op" where
  "statement f s =
     (case pg_faults s of
        Some (err, _) # rest \<Rightarrow> (Inl err, s\<lparr>pg_faults := rest\<rparr>)
      | _ \<Rightarrow>
        (case f (pg_db s) of
           Inl err \<Rightarrow> (Inl err, s\<lparr>pg_faults := tl (pg_faults s)\<rparr>)
         | Inr (x, db) \<Rightarrow> (Inr x, s\<lparr>pg_db := db, pg_faults := tl (pg_faults s)\<rparr>)))"

definition query :: "(database \<Rightarrow> 'a) \<Rightarrow> (pg, pg_error, 'a) op" where
  "query f = statement (\<lambda>db. Inr (f db, db))"

definition catching :: "(pg_error \<Rightarrow> error) \<Rightarrow> (pg, pg_error, 'a) op \<Rightarrow> 'a pg_op" where
  "catching handle m s = (case m s of (Inl err, s) \<Rightarrow> (Inl (handle err), s) | (Inr x, s) \<Rightarrow> (Inr x, s))"

definition wrapped :: "string \<Rightarrow> (pg, pg_error, 'a) op \<Rightarrow> 'a pg_op" where
  "wrapped message = catching (\<lambda>err. wrap_error message (pg_message err))"

definition transaction :: "string \<Rightarrow> ('a \<Rightarrow> string) \<Rightarrow> 'a pg_op \<Rightarrow> 'a pg_op" where
  "transaction begin_message commit_message body s =
     (case wrapped begin_message (query (\<lambda>_. ())) s of
        (Inl err, s') \<Rightarrow> (Inl err, s')
      | (Inr _, s') \<Rightarrow>
        (case body s' of
           (Inl err, s') \<Rightarrow> (Inl err, s'\<lparr>pg_db := pg_db s\<rparr>)
         | (Inr x, s') \<Rightarrow>
           (case pg_faults s' of
              Some (err, applied) # rest \<Rightarrow>
                (Inl (wrap_error (commit_message x) (pg_message err)),
                 s'\<lparr>pg_db := (if applied then pg_db s' else pg_db s), pg_faults := rest\<rparr>)
            | _ \<Rightarrow> (Inr x, s'\<lparr>pg_faults := tl (pg_faults s')\<rparr>))))"

text \<open>A single statement on the connection pool commits by itself.\<close>

definition autocommit :: "(database \<Rightarrow> pg_error + 'a \<times> database) \<Rightarrow> (pg, pg_error, 'a) op" where
  "autocommit f s =
     (case pg_faults s of
        Some (err, applied) # rest \<Rightarrow>
          (Inl err, s\<lparr>pg_db := (case f (pg_db s) of Inr (_, db) \<Rightarrow> if applied then db else pg_db s | Inl _ \<Rightarrow> pg_db s),
             pg_faults := rest\<rparr>)
      | _ \<Rightarrow> statement f s)"

subsection \<open>Successful runs\<close>

definition triple :: "(database \<Rightarrow> bool) \<Rightarrow> (pg, 'e, 'a) op \<Rightarrow> ('a \<Rightarrow> database \<Rightarrow> bool) \<Rightarrow> bool" where
  "triple P m Q \<longleftrightarrow> (\<forall>s x s'. P (pg_db s) \<longrightarrow> m s = (Inr x, s') \<longrightarrow> Q x (pg_db s'))"

lemma tripleD: "triple P m Q \<Longrightarrow> P (pg_db s) \<Longrightarrow> m s = (Inr x, s') \<Longrightarrow> Q x (pg_db s')"
  unfolding triple_def by blast

lemma triple_ret: "(\<And>db. P db \<Longrightarrow> Q x db) \<Longrightarrow> triple P (ret_op x) Q"
  by (simp add: triple_def ret_op_def)

lemma triple_raise: "triple P (raise_op e) Q"
  by (simp add: triple_def raise_op_def)

lemma triple_lift: "(\<And>x db. r = Inr x \<Longrightarrow> P db \<Longrightarrow> Q x db) \<Longrightarrow> triple P (lift_error r) Q"
  by (simp add: triple_def lift_error_def)

lemma triple_bind:
  assumes "triple P m R" "\<And>x. triple (R x) (f x) Q"
  shows "triple P (bind_op m f) Q"
  unfolding triple_def
proof (intro allI impI)
  fix s y s'
  assume P: "P (pg_db s)" and run: "bind_op m f s = (Inr y, s')"
  from run obtain x s1 where "m s = (Inr x, s1)" "f x s1 = (Inr y, s')"
    by (auto simp: bind_op_def split: prod.splits sum.splits)
  with tripleD [OF assms(1) P] tripleD [OF assms(2)] show "Q y (pg_db s')" by blast
qed

lemma triple_statement: "(\<And>db x db'. P db \<Longrightarrow> f db = Inr (x, db') \<Longrightarrow> Q x db') \<Longrightarrow> triple P (statement f) Q"
  by (auto simp: triple_def statement_def split: list.splits option.splits sum.splits)

lemma triple_autocommit: "(\<And>db x db'. P db \<Longrightarrow> f db = Inr (x, db') \<Longrightarrow> Q x db') \<Longrightarrow> triple P (autocommit f) Q"
  using triple_statement [of P f Q]
  by (auto simp: triple_def autocommit_def split: list.splits option.splits)

lemma triple_query: "(\<And>db. P db \<Longrightarrow> Q (f db) db) \<Longrightarrow> triple P (query f) Q"
  unfolding query_def by (rule triple_statement) auto

lemma catching_eq: "catching handle m s = (r, s') \<longleftrightarrow> (\<exists>q. m s = (q, s') \<and> r = map_sum handle id q)"
  by (cases "m s") (auto simp: catching_def split: sum.splits)

lemma map_result_Inr: "Inr x = map_sum handle id q \<longleftrightarrow> q = Inr x"
  by (cases q) auto

lemma triple_catching: "triple P m Q \<Longrightarrow> triple P (catching handle m) Q"
  unfolding triple_def catching_eq by (auto simp: map_result_Inr)

lemma triple_wrapped: "triple P m Q \<Longrightarrow> triple P (wrapped message m) Q"
  unfolding wrapped_def by (rule triple_catching)

text \<open>What a query read is known afterwards.\<close>

lemma triple_read:
  "(\<And>x. triple (\<lambda>db. P db \<and> f db = x) (k x) Q) \<Longrightarrow> triple P (bind_op (wrapped message (query f)) k) Q"
  by (rule triple_bind [where R = "\<lambda>x db. P db \<and> f db = x"], intro triple_wrapped triple_query) auto

lemma triple_conseq:
  "triple P m Q \<Longrightarrow> (\<And>db. P' db \<Longrightarrow> P db) \<Longrightarrow> (\<And>x db. Q x db \<Longrightarrow> Q' x db) \<Longrightarrow> triple P' m Q'"
  unfolding triple_def by blast

lemma triple_pre: "triple P m Q \<Longrightarrow> (\<And>db. P' db \<Longrightarrow> P db) \<Longrightarrow> triple P' m Q"
  unfolding triple_def by blast

lemma triple_if: "triple P m Q \<Longrightarrow> triple P n Q \<Longrightarrow> triple P (if b then m else n) Q"
  by simp

text \<open>A loop: \<open>I done\<close> holds when the items of \<open>done\<close> have been handled.\<close>

lemma triple_fold_from:
  assumes "\<And>xs x. triple (I xs) (f x) (\<lambda>_. I (xs @ [x]))"
  shows "triple (I before) (fold_op f xs) (\<lambda>_. I (before @ xs))"
proof (induction xs arbitrary: before)
  case (Cons x xs)
  show ?case unfolding fold_op.simps
    by (intro triple_bind [OF assms] triple_bind [OF Cons.IH] triple_ret) simp
qed (simp add: triple_ret)

lemma triple_fold: "(\<And>xs x. triple (I xs) (f x) (\<lambda>_. I (xs @ [x]))) \<Longrightarrow> triple (I []) (fold_op f xs) (\<lambda>_. I xs)"
  using triple_fold_from [of I f "[]" xs] by simp

text \<open>An assertion that every step keeps.\<close>

abbreviation preserves :: "(database \<Rightarrow> bool) \<Rightarrow> (pg, 'e, 'a) op \<Rightarrow> bool" where
  "preserves I m \<equiv> triple I m (\<lambda>_. I)"

lemma preserves_bind: "preserves I m \<Longrightarrow> (\<And>x. preserves I (f x)) \<Longrightarrow> preserves I (bind_op m f)"
  by (rule triple_bind)

lemma preserves_query: "preserves I (query f)"
  by (rule triple_query)

lemma preserves_ret: "preserves I (ret_op x)"
  by (rule triple_ret)

lemma preserves_fold: "(\<And>x. preserves I (f x)) \<Longrightarrow> preserves I (fold_op f xs)"
  using triple_fold_from [of "\<lambda>_. I" f "[]" xs] by simp

lemma preserves_if: "preserves I m \<Longrightarrow> preserves I n \<Longrightarrow> preserves I (if b then m else n)"
  by simp

lemma preserves_option:
  "preserves I m \<Longrightarrow> (\<And>x. preserves I (f x)) \<Longrightarrow> preserves I (case v of None \<Rightarrow> m | Some x \<Rightarrow> f x)"
  by (cases v) simp_all

lemma preserves_pair: "(\<And>x y. preserves I (f x y)) \<Longrightarrow> preserves I (case v of (x, y) \<Rightarrow> f x y)"
  by (cases v) simp

lemma preserves_lift: "preserves I (lift_error r)"
  by (rule triple_lift)

lemmas preserves_intros = preserves_bind preserves_ret preserves_query preserves_fold preserves_if preserves_option
  preserves_pair preserves_lift triple_raise triple_wrapped triple_catching

subsection \<open>Faults\<close>

abbreviation quiet :: "database \<Rightarrow> pg" where
  "quiet db \<equiv> \<lparr>pg_db = db, pg_faults = []\<rparr>"

lemma quiet_pg_db: "pg_faults s = [] \<Longrightarrow> quiet (pg_db s) = s"
  by simp

lemma statement_quiet [simp]:
  "statement f (quiet db) = (case f db of Inl err \<Rightarrow> (Inl err, quiet db) | Inr (x, db') \<Rightarrow> (Inr x, quiet db'))"
  by (simp add: statement_def split: sum.splits prod.splits)

lemma autocommit_quiet [simp]: "autocommit f (quiet db) = statement f (quiet db)"
  by (simp add: autocommit_def)

lemma query_quiet [simp]: "query f (quiet db) = (Inr (f db), quiet db)"
  by (simp add: query_def)

lemma catching_quiet: "m (quiet db) = (Inr x, s') \<Longrightarrow> catching handle m (quiet db) = (Inr x, s')"
  by (simp add: catching_def)

lemma wrapped_quiet: "m (quiet db) = (Inr x, s') \<Longrightarrow> wrapped message m (quiet db) = (Inr x, s')"
  by (simp add: wrapped_def catching_quiet)

lemma wrapped_query_quiet [simp]: "wrapped message (query f) (quiet db) = (Inr (f db), quiet db)"
  by (rule wrapped_quiet) simp

lemma bind_op_Inr: "m s = (Inr x, s') \<Longrightarrow> bind_op m f s = f x s'"
  by (simp add: bind_op_def)

lemma bind_op_Inl: "m s = (Inl e, s') \<Longrightarrow> bind_op m f s = (Inl e, s')"
  by (simp add: bind_op_def)

lemma ret_op_simp: "ret_op x s = (Inr x, s)"
  by (simp add: ret_op_def)

lemma raise_op_simp: "raise_op e s = (Inl e, s)"
  by (simp add: raise_op_def)

lemma lift_error_simp: "lift_error r s = (r, s)"
  by (simp add: lift_error_def)

lemmas op_simps = ret_op_simp raise_op_simp lift_error_simp

text \<open>An honest operation that succeeds does what it does without faults.\<close>

definition honest :: "(pg, 'e, 'a) op \<Rightarrow> bool" where
  "honest m \<longleftrightarrow> (\<forall>s r s'. m s = (r, s') \<longrightarrow>
     (ok r \<longrightarrow> m (quiet (pg_db s)) = (r, quiet (pg_db s'))) \<and> (pg_faults s = [] \<longrightarrow> pg_faults s' = []))"

lemma honestD: "honest m \<Longrightarrow> m s = (Inr x, s') \<Longrightarrow> m (quiet (pg_db s)) = (Inr x, quiet (pg_db s'))"
  unfolding honest_def by fastforce

lemma honest_quiet: "honest m \<Longrightarrow> m s = (r, s') \<Longrightarrow> pg_faults s = [] \<Longrightarrow> pg_faults s' = []"
  unfolding honest_def by blast

lemma honest_ret [intro!]: "honest (ret_op x)"
  by (simp add: honest_def op_simps)

lemma honest_raise [intro!]: "honest (raise_op e)"
  by (simp add: honest_def op_simps)

lemma honest_lift [intro!]: "honest (lift_error r)"
  by (simp add: honest_def op_simps)

lemma honest_statement [intro!]: "honest (statement f)"
  by (auto simp: honest_def statement_def split: list.splits option.splits sum.splits prod.splits)

lemma honest_query [intro!]: "honest (query f)"
  unfolding query_def by (rule honest_statement)

lemma ok_map_result: "ok (map_sum f g r) = ok r"
  by (cases r) simp_all

lemma honest_catching [intro!]:
  assumes "honest m"
  shows "honest (catching handle m)"
  unfolding honest_def catching_eq
proof (intro allI impI, elim exE conjE)
  fix s r s' q
  assume q: "m s = (q, s')" and r: "r = map_sum handle id q"
  with assms have "(ok q \<longrightarrow> m (quiet (pg_db s)) = (q, quiet (pg_db s'))) \<and> (pg_faults s = [] \<longrightarrow> pg_faults s' = [])"
    unfolding honest_def by blast
  with r show "(ok r \<longrightarrow> (\<exists>q. m (quiet (pg_db s)) = (q, quiet (pg_db s')) \<and> r = map_sum handle id q)) \<and>
      (pg_faults s = [] \<longrightarrow> pg_faults s' = [])"
    by (auto simp: ok_map_result)
qed

lemma honest_wrapped [intro!]: "honest m \<Longrightarrow> honest (wrapped message m)"
  unfolding wrapped_def by (rule honest_catching)

lemma honest_bind [intro!]:
  assumes "honest m" "\<And>x. honest (f x)"
  shows "honest (bind_op m f)"
  unfolding honest_def
proof (intro allI impI)
  fix s r s'
  assume run: "bind_op m f s = (r, s')"
  obtain q s1 where m: "m s = (q, s1)" by fastforce
  show "(ok r \<longrightarrow> bind_op m f (quiet (pg_db s)) = (r, quiet (pg_db s'))) \<and> (pg_faults s = [] \<longrightarrow> pg_faults s' = [])"
  proof (cases q)
    case (Inl e)
    with run m honest_quiet [OF assms(1) m] show ?thesis by (auto simp: bind_op_def)
  next
    case (Inr x)
    with run m have f: "f x s1 = (r, s')" by (simp add: bind_op_def)
    have "bind_op m f (quiet (pg_db s)) = f x (quiet (pg_db s1))"
      using honestD [OF assms(1)] m Inr by (auto intro: bind_op_Inr)
    with f assms(2) [of x] honest_quiet [OF assms(1) m] show ?thesis by (auto simp: honest_def)
  qed
qed

lemma honest_fold [intro!]: "(\<And>x. honest (f x)) \<Longrightarrow> honest (fold_op f xs)"
  by (induction xs) (simp_all add: honest_bind honest_ret)

text \<open>
  An atomic operation leaves either the database of the run without faults or, when it
  reports an error, the database it found; and a reported success is that of the run without faults.
\<close>

definition atomic :: "(pg, 'e, 'a) op \<Rightarrow> bool" where
  "atomic m \<longleftrightarrow> (\<forall>s r s' r0 s0. m s = (r, s') \<longrightarrow> m (quiet (pg_db s)) = (r0, s0) \<longrightarrow>
     pg_faults s0 = [] \<and> (ok r \<longrightarrow> r0 = r \<and> pg_db s' = pg_db s0) \<and> pg_db s' \<in> {pg_db s, pg_db s0})"

lemma atomicD:
  assumes "atomic m" "m s = (r, s')" "m (quiet (pg_db s)) = (r0, s0)"
  shows "pg_faults s0 = []" "ok r \<Longrightarrow> r0 = r \<and> pg_db s' = pg_db s0" "pg_db s' = pg_db s \<or> pg_db s' = pg_db s0"
proof -
  have "pg_faults s0 = [] \<and> (ok r \<longrightarrow> r0 = r \<and> pg_db s' = pg_db s0) \<and> pg_db s' \<in> {pg_db s, pg_db s0}"
    using assms(1) [unfolded atomic_def, rule_format, OF assms(2,3)] .
  then show "pg_faults s0 = []" "ok r \<Longrightarrow> r0 = r \<and> pg_db s' = pg_db s0" "pg_db s' = pg_db s \<or> pg_db s' = pg_db s0"
    by auto
qed

lemma transaction_quiet:
  assumes "honest body"
  shows "transaction b c body (quiet db) = (case body (quiet db) of (Inl e, _) \<Rightarrow> (Inl e, quiet db) | (Inr x, s) \<Rightarrow> (Inr x, s))"
proof -
  obtain r s where b: "body (quiet db) = (r, s)" by fastforce
  then have "pg_faults s = []" by (rule honest_quiet [OF assms]) simp
  with b show ?thesis by (cases s) (simp add: transaction_def split: sum.splits)
qed

lemma transaction_begun:
  assumes "transaction b c body s = (r, s')"
  obtains (refused) e where "r = Inl e" "pg_db s' = pg_db s"
  | (failed) s0 e s1 where "pg_db s0 = pg_db s" "body s0 = (Inl e, s1)" "r = Inl e" "pg_db s' = pg_db s"
  | (ran) s0 x s1 where "pg_db s0 = pg_db s" "body s0 = (Inr x, s1)" "r = Inr x" "pg_db s' = pg_db s1"
  | (broken) s0 x s1 e where "pg_db s0 = pg_db s" "body s0 = (Inr x, s1)" "r = Inl e" "pg_db s' \<in> {pg_db s, pg_db s1}"
proof -
  obtain q s0 where q: "wrapped b (query (\<lambda>_. ())) s = (q, s0)" by fastforce
  have db: "pg_db s0 = pg_db s"
    using q by (auto simp: wrapped_def catching_def query_def statement_def split: list.splits option.splits prod.splits)
  obtain t s1 where t: "body s0 = (t, s1)" by fastforce
  show thesis
  proof (cases q)
    case (Inl e)
    with assms q db show thesis by (intro refused) (auto simp: transaction_def)
  next
    case q': (Inr u)
    show thesis
    proof (cases t)
      case (Inl e)
      with assms q q' db t show thesis by (intro failed [OF db t [unfolded Inl]]) (auto simp: transaction_def)
    next
      case (Inr x)
      show thesis
      proof (cases "\<exists>e applied rest. pg_faults s1 = Some (e, applied) # rest")
        case True
        then obtain e applied rest where f: "pg_faults s1 = Some (e, applied) # rest" by blast
        show thesis
          by (rule broken [OF db t [unfolded Inr], of "wrap_error (c x) (pg_message e)"])
            (use assms q q' t Inr f in \<open>auto simp: transaction_def\<close>)
      next
        case False
        then have "transaction b c body s = (Inr x, s1\<lparr>pg_faults := tl (pg_faults s1)\<rparr>)"
          using q q' t Inr by (auto simp: transaction_def split: list.splits option.splits)
        with assms show thesis by (intro ran [OF db t [unfolded Inr]]) auto
      qed
    qed
  qed
qed

lemma atomic_transaction:
  assumes "honest body"
  shows "atomic (transaction b c body)"
  unfolding atomic_def
proof (intro allI impI)
  fix s r s' r0 s0
  assume run: "transaction b c body s = (r, s')" and calm: "transaction b c body (quiet (pg_db s)) = (r0, s0)"
  have s0: "pg_faults s0 = []" "\<not> ok r0 \<Longrightarrow> pg_db s0 = pg_db s"
    using calm honest_quiet [OF assms, of "quiet (pg_db s)"] unfolding transaction_quiet [OF assms]
    by (auto split: prod.splits sum.splits)
  have ok: "r0 = Inr x \<and> pg_db s0 = pg_db s2" if "body s1 = (Inr x, s2)" "pg_db s1 = pg_db s" for s1 x s2
    using honestD [OF assms that(1)] that(2) calm unfolding transaction_quiet [OF assms] by auto
  from run show "pg_faults s0 = [] \<and> (ok r \<longrightarrow> r0 = r \<and> pg_db s' = pg_db s0) \<and> pg_db s' \<in> {pg_db s, pg_db s0}"
    by (cases rule: transaction_begun) (use s0 ok in auto)
qed

lemma atomic_autocommit: "atomic (autocommit f)"
  unfolding atomic_def
proof (intro allI impI)
  fix s r s' r0 s0
  assume run: "autocommit f s = (r, s')" and calm: "autocommit f (quiet (pg_db s)) = (r0, s0)"
  show "pg_faults s0 = [] \<and> (ok r \<longrightarrow> r0 = r \<and> pg_db s' = pg_db s0) \<and> pg_db s' \<in> {pg_db s, pg_db s0}"
  proof (cases "f (pg_db s)")
    case (Inl err)
    with run calm show ?thesis by (auto simp: autocommit_def statement_def split: list.splits option.splits)
  next
    case (Inr y)
    with run calm show ?thesis
      by (cases y) (auto simp: autocommit_def statement_def split: list.splits option.splits)
  qed
qed

lemma atomic_catching:
  assumes "atomic m"
  shows "atomic (catching handle m)"
  unfolding atomic_def catching_eq
proof (intro allI impI, elim exE conjE)
  fix s r s' r0 s0 q q0
  assume "m s = (q, s')" "m (quiet (pg_db s)) = (q0, s0)" "r = map_sum handle id q" "r0 = map_sum handle id q0"
  with atomicD [OF assms, of s q s' q0 s0]
  show "pg_faults s0 = [] \<and> (ok r \<longrightarrow> r0 = r \<and> pg_db s' = pg_db s0) \<and> pg_db s' \<in> {pg_db s, pg_db s0}"
    by (simp add: ok_map_result)
qed

lemma atomic_wrapped: "atomic m \<Longrightarrow> atomic (wrapped message m)"
  unfolding wrapped_def by (rule atomic_catching)

text \<open>What follows a single statement only inspects its result.\<close>

lemma atomic_then:
  assumes "atomic m" "\<And>x. \<exists>g. f x = lift_error g"
  shows "atomic (bind_op m f)"
proof -
  from assms(2) obtain g where f: "f = (\<lambda>x. lift_error (g x))" by metis
  show ?thesis
    unfolding atomic_def f bind_op_def
  proof (intro allI impI)
    fix s r s' r0 s0
    assume run: "(case m s of (Inl err, s) \<Rightarrow> (Inl err, s) | (Inr x, s) \<Rightarrow> lift_error (g x) s) = (r, s')"
      and calm: "(case m (quiet (pg_db s)) of (Inl err, s) \<Rightarrow> (Inl err, s) | (Inr x, s) \<Rightarrow> lift_error (g x) s) = (r0, s0)"
    obtain q q0 where q: "m s = (q, s')" "m (quiet (pg_db s)) = (q0, s0)"
      using run calm by (auto simp: op_simps split: prod.splits sum.splits)
    from atomicD [OF assms(1) q] run calm q
    show "pg_faults s0 = [] \<and> (ok r \<longrightarrow> r0 = r \<and> pg_db s' = pg_db s0) \<and> pg_db s' \<in> {pg_db s, pg_db s0}"
      by (auto simp: op_simps split: sum.splits)
  qed
qed

text \<open>A transaction under faults, and without them.\<close>

lemma transaction_triple:
  assumes "triple (\<lambda>db. db = pg_db s) body Q" "transaction b c body s = (r, s')"
  shows "(\<not> ok r \<and> pg_db s' = pg_db s) \<or> (\<exists>x. Q x (pg_db s'))"
  using assms(2)
proof (cases rule: transaction_begun)
  case (broken s0 x s1 e)
  with tripleD [OF assms(1), of s0 x s1] show ?thesis by auto
qed (use tripleD [OF assms(1)] in auto)

lemma transaction_run:
  assumes "honest body" "triple (\<lambda>db. db = pg_db s) body Q" "transaction b c body s = (r, s')" "pg_faults s = []"
  shows "pg_faults s' = [] \<and> (case r of Inl _ \<Rightarrow> s' = s | Inr x \<Rightarrow> Q x (pg_db s'))"
proof -
  have s: "s = quiet (pg_db s)" using assms(4) by simp
  obtain q s1 where q: "body (quiet (pg_db s)) = (q, s1)" by fastforce
  have f: "pg_faults s1 = []" by (rule honest_quiet [OF assms(1) q]) simp
  have run: "(case q of Inl e \<Rightarrow> (Inl e, quiet (pg_db s)) | Inr x \<Rightarrow> (Inr x, s1)) = (r, s')"
    using assms(3) transaction_quiet [OF assms(1), of b c "pg_db s"] q s by (auto split: sum.splits)
  show ?thesis
  proof (cases q)
    case (Inl e)
    with run have "r = Inl e" "s' = quiet (pg_db s)" by simp_all
    with s assms(4) show ?thesis by simp
  next
    case (Inr x)
    with run have "r = Inr x" "s' = s1" by simp_all
    with f tripleD [OF assms(2) _ q [unfolded Inr]] show ?thesis by simp
  qed
qed

end
