(* ===== verification/Pg_Store.thy ===== *)
theory Pg_Store
  imports Pg_Session Memory_Store Inbox
begin

text \<open>
  The PostgreSQL store of \<open>internal/postgres/store.go\<close>: its queries and transactions, method by
  method, over the tables of \<open>Pg_Tables\<close> and the sessions of \<open>Pg_Session\<close>. Transactions are executed
  one after the other; what another transaction may do between two statements of \<open>InsertOrder\<close>
  is treated by a property of its own.
\<close>

subsection \<open>Reading orders, shipments and events\<close>

definition lockOrderStatusForUpdate :: "string \<Rightarrow> OrderStatus pg_op" where
  "lockOrderStatusForUpdate orderID =
     bind_op (wrapped ''lock order status''
         (query (\<lambda>db. find (\<lambda>q. ow_order_id q = orderID) (orders_t db))))
       (\<lambda>row. case row of None \<Rightarrow> raise_op ErrNotFound | Some q \<Rightarrow> ret_op (ow_status q))"

definition item_of_row :: "item_row \<Rightarrow> OrderItem" where
  "item_of_row r = \<lparr>i_SKU = it_sku r, i_Quantity = word_of_int (it_quantity r),
     i_UnitPrice = \<lparr>m_Amount = it_unit_price_amount r, m_Currency = it_unit_price_currency r\<rparr>,
     i_ReservationStatus = it_reservation_status r\<rparr>"

definition projection_events :: "time \<Rightarrow> string \<Rightarrow> ShipmentEvent list" where
  "projection_events createdAt status =
     [\<lparr>se_OccurredAt = createdAt, se_Status = status, se_Description = ''Shipment projection created.''\<rparr>]"

definition shipment_of_row :: "shipment_row \<Rightarrow> Shipment" where
  "shipment_of_row r = \<lparr>s_ShipmentID = sw_shipment_id r, s_Status = sw_status r, s_Carrier = sw_carrier r,
     s_TrackingNumber = sw_tracking_number r, s_Events = projection_events (sw_created_at r) (sw_status r)\<rparr>"

definition payment_of_row :: "order_row \<Rightarrow> Payment option" where
  "payment_of_row r =
     (if ow_payment_provider r \<noteq> None \<or> ow_payment_status r \<noteq> None \<or> ow_payment_authorization_id r \<noteq> None
      then Some \<lparr>p_Provider = null_string (ow_payment_provider r), p_Status = null_string (ow_payment_status r),
        p_AuthorizationID = null_string (ow_payment_authorization_id r),
        p_CredentialRef = null_string (ow_payment_credential_ref r)\<rparr>
      else None)"

definition order_of_rows :: "order_row \<Rightarrow> item_row list \<Rightarrow> shipment_row option \<Rightarrow> Order" where
  "order_of_rows r items shipment =
     \<lparr>o_OrderID = ow_order_id r, o_MerchantID = ow_merchant_id r, o_ExternalOrderID = ow_external_order_id r,
      o_Status = ow_status r, o_Currency = ow_currency r,
      o_Totals = \<lparr>t_Subtotal = \<lparr>m_Amount = ow_subtotal_amount r, m_Currency = ow_currency r\<rparr>,
        t_Shipping = \<lparr>m_Amount = ow_shipping_amount r, m_Currency = ow_currency r\<rparr>,
        t_Total = \<lparr>m_Amount = ow_total_amount r, m_Currency = ow_currency r\<rparr>\<rparr>,
      o_Items = map item_of_row items, o_Payment = payment_of_row r,
      o_Shipment = map_option shipment_of_row shipment, o_ShippingAddressRef = null_string (ow_shipping_address_ref r),
      o_CreatedAt = ow_created_at r, o_UpdatedAt = ow_updated_at r\<rparr>"

text \<open>\<open>order_id\<close> is unique in \<open>shipments\<close>, so its \<open>ORDER BY ... LIMIT 1\<close> has one row to choose from.\<close>

definition getOrderTx :: "string \<Rightarrow> Order pg_op" where
  "getOrderTx orderID =
     bind_op (wrapped ''get order'' (query (\<lambda>db. find (\<lambda>q. ow_order_id q = orderID) (orders_t db))))
       (\<lambda>row. case row of
          None \<Rightarrow> raise_op ErrNotFound
        | Some r \<Rightarrow>
          bind_op (wrapped ''get order items'' (query (\<lambda>db. filter (\<lambda>i. it_order_id i = orderID) (order_items db))))
            (\<lambda>items. bind_op (wrapped ''get shipment'' (query (\<lambda>db. find (\<lambda>h. sw_order_id h = orderID) (shipments db))))
              (\<lambda>shipment. ret_op (order_of_rows r items shipment))))"

definition getShipmentTx :: "string \<Rightarrow> ShipmentRecord pg_op" where
  "getShipmentTx shipmentID =
     bind_op (wrapped ''get shipment'' (query (\<lambda>db. find (\<lambda>h. sw_shipment_id h = shipmentID) (shipments db))))
       (\<lambda>row. case row of
          None \<Rightarrow> raise_op ErrNotFound
        | Some r \<Rightarrow> ret_op \<lparr>sr_ShipmentID = sw_shipment_id r, sr_OrderID = sw_order_id r,
            sr_MerchantID = sw_merchant_id r, sr_Carrier = sw_carrier r, sr_TrackingNumber = sw_tracking_number r,
            sr_Status = sw_status r, sr_Events = projection_events (sw_created_at r) (sw_status r)\<rparr>)"

definition orderByIdempotency :: "string \<Rightarrow> string \<Rightarrow> string option pg_op" where
  "orderByIdempotency merchantID idempotencyKey =
     wrapped ''lookup idempotency key'' (query (\<lambda>db. map_option ik_order_id
       (find (\<lambda>k. ik_merchant_id k = merchantID \<and> ik_idempotency_key k = idempotencyKey) (idempotency_keys db))))"

definition scanOutboxEvent :: "pg_params \<Rightarrow> outbox_row \<Rightarrow> error + OutboxEvent" where
  "scanOutboxEvent p r =
     (if xb_payload r \<noteq> []
      then (case event_in p (xb_payload r) of
              Inl err \<Rightarrow> Inl err
            | Inr envelope \<Rightarrow>
              (let envelope = (if e_MessageID envelope = [] then envelope\<lparr>e_MessageID := xb_message_id r\<rparr> else envelope);
                   envelope = (if e_CorrelationID envelope = []
                     then envelope\<lparr>e_CorrelationID := xb_correlation_id r\<rparr> else envelope);
                   envelope = (if e_CausationID envelope = []
                     then envelope\<lparr>e_CausationID := xb_causation_id r\<rparr> else envelope);
                   envelope = (if e_EventType envelope = [] then envelope\<lparr>e_EventType := xb_event_type r\<rparr> else envelope);
                   envelope = (if e_OrderID envelope = [] then envelope\<lparr>e_OrderID := xb_order_id r\<rparr> else envelope);
                   envelope = (if e_MerchantID envelope = []
                     then envelope\<lparr>e_MerchantID := xb_merchant_id r\<rparr> else envelope);
                   envelope = (if IsZero (e_OccurredAt envelope)
                     then envelope\<lparr>e_OccurredAt := xb_occurred_at r\<rparr> else envelope)
               in Inr (WithEnvelopeDefaults envelope)))
      else Inr (WithEnvelopeDefaults (zero_event\<lparr>e_MessageID := xb_message_id r, e_CorrelationID := xb_correlation_id r,
        e_CausationID := xb_causation_id r, e_EventType := xb_event_type r, e_OrderID := xb_order_id r,
        e_MerchantID := xb_merchant_id r, e_OccurredAt := xb_occurred_at r\<rparr>)))"

subsection \<open>Appending events and audit logs\<close>

definition row_of_event :: "OutboxEvent \<Rightarrow> string \<Rightarrow> outbox_row" where
  "row_of_event event payload =
     \<lparr>xb_message_id = e_MessageID event, xb_correlation_id = e_CorrelationID event,
      xb_causation_id = e_CausationID event, xb_event_type = e_EventType event, xb_order_id = e_OrderID event,
      xb_merchant_id = e_MerchantID event, xb_payload = payload, xb_occurred_at = timestamptz (e_OccurredAt event),
      xb_published_at = None, xb_claimed_by = None, xb_claimed_until = None\<rparr>"

definition insertOutboxEvent :: "pg_params \<Rightarrow> OutboxEvent \<Rightarrow> unit pg_op" where
  "insertOutboxEvent p event =
     (let event = WithEnvelopeDefaults event in
      bind_op (lift_error (map_sum (wrap_error ''marshal outbox event'') id (event_out p event)))
        (\<lambda>payload. wrapped ''insert outbox event'' (statement (insert_outbox_row p (row_of_event event payload)))))"

definition row_of_audit :: "AuditLog \<Rightarrow> string \<Rightarrow> audit_row" where
  "row_of_audit audit details =
     \<lparr>al_merchant_id = a_MerchantID audit, al_order_id = nullableString (a_OrderID audit),
      al_actor_type = a_ActorType audit, al_actor_id = a_ActorID audit, al_action = a_Action audit,
      al_correlation_id = a_CorrelationID audit, al_created_at = timestamptz (a_CreatedAt audit),
      al_details = details\<rparr>"

definition insertAuditLog :: "pg_params \<Rightarrow> AuditLog \<Rightarrow> unit pg_op" where
  "insertAuditLog p audit =
     bind_op (lift_error (map_sum (wrap_error ''marshal audit details'') id (details_out p (a_Details audit))))
       (\<lambda>details. wrapped ''insert audit log'' (statement (insert_audit_row p (row_of_audit audit details))))"

text \<open>The two appends that end most transactions.\<close>

definition append_logs :: "pg_params \<Rightarrow> OutboxEvent \<Rightarrow> AuditLog \<Rightarrow> unit pg_op" where
  "append_logs p event audit = bind_op (insertOutboxEvent p event) (\<lambda>_. insertAuditLog p audit)"

subsection \<open>Orders\<close>

definition nullablePayment :: "(Payment \<Rightarrow> string) \<Rightarrow> Order \<Rightarrow> string option" where
  "nullablePayment field order = (case o_Payment order of None \<Rightarrow> None | Some payment \<Rightarrow> nullableString (field payment))"

definition row_of_order :: "string \<Rightarrow> Order \<Rightarrow> order_row" where
  "row_of_order merchantID order =
     \<lparr>ow_order_id = o_OrderID order, ow_merchant_id = merchantID, ow_external_order_id = o_ExternalOrderID order,
      ow_status = o_Status order, ow_currency = o_Currency order,
      ow_subtotal_amount = m_Amount (t_Subtotal (o_Totals order)),
      ow_shipping_amount = m_Amount (t_Shipping (o_Totals order)), ow_total_amount = m_Amount (t_Total (o_Totals order)),
      ow_payment_provider = nullablePayment p_Provider order, ow_payment_status = nullablePayment p_Status order,
      ow_payment_authorization_id = nullablePayment p_AuthorizationID order,
      ow_payment_credential_ref = nullablePayment p_CredentialRef order,
      ow_shipping_address_ref = nullableString (o_ShippingAddressRef order),
      ow_created_at = timestamptz (o_CreatedAt order), ow_updated_at = timestamptz (o_UpdatedAt order), ow_version = 1\<rparr>"

definition row_of_item :: "string \<Rightarrow> OrderItem \<Rightarrow> item_row" where
  "row_of_item orderID item =
     \<lparr>it_order_id = orderID, it_sku = i_SKU item, it_quantity = sint (i_Quantity item),
      it_unit_price_amount = m_Amount (i_UnitPrice item), it_unit_price_currency = m_Currency (i_UnitPrice item),
      it_reservation_status = i_ReservationStatus item\<rparr>"

definition upsertMerchant :: "pg_params \<Rightarrow> string \<Rightarrow> unit pg_op" where
  "upsertMerchant p merchantID =
     bind_op (wrapped ''upsert merchant'' (statement (insert_merchant p merchantID))) (\<lambda>_. ret_op ())"

text \<open>The statements of \<open>InsertOrder\<close> after the look-up of the idempotency key.\<close>

definition insert_new_order :: "pg_params \<Rightarrow> string \<Rightarrow> string \<Rightarrow> Order \<Rightarrow> OutboxEvent \<Rightarrow> AuditLog \<Rightarrow> unit pg_op" where
  "insert_new_order p merchantID idempotencyKey order event audit =
     bind_op (upsertMerchant p merchantID) (\<lambda>_.
     bind_op (catching (\<lambda>err. if isUniqueViolation err then ErrDuplicateOrder else wrap_error ''insert order'' (pg_message err))
        (statement (insert_order_row p (row_of_order merchantID order)))) (\<lambda>_.
     bind_op (fold_op (\<lambda>item. wrapped ''insert order item'' (statement (insert_item_row p
        (row_of_item (o_OrderID order) item)))) (o_Items order)) (\<lambda>_.
     bind_op (wrapped ''insert idempotency key'' (statement (insert_key_row p \<lparr>ik_merchant_id = merchantID,
        ik_idempotency_key = idempotencyKey, ik_order_id = o_OrderID order\<rparr>))) (\<lambda>_.
     append_logs p event audit))))"

definition pg_InsertOrder :: "pg_params \<Rightarrow> string \<Rightarrow> string \<Rightarrow> Order \<Rightarrow> OutboxEvent \<Rightarrow> AuditLog
    \<Rightarrow> (Order option \<times> bool) pg_op" where
  "pg_InsertOrder p merchantID idempotencyKey order event audit =
     transaction ''begin insert order''
       (\<lambda>(_, replayed). if replayed then ''commit idempotent order lookup'' else ''commit insert order'')
       (bind_op (orderByIdempotency merchantID idempotencyKey) (\<lambda>existing. case existing of
          Some existing \<Rightarrow> bind_op (getOrderTx existing) (\<lambda>order. ret_op (Some order, True))
        | None \<Rightarrow> bind_op (insert_new_order p merchantID idempotencyKey order event audit) (\<lambda>_.
            ret_op (cloneOrder (Some order), False))))"

definition pg_GetOrder :: "string \<Rightarrow> Order pg_op" where
  "pg_GetOrder orderID = getOrderTx orderID"

definition pg_GetShipment :: "string \<Rightarrow> ShipmentRecord pg_op" where
  "pg_GetShipment shipmentID = getShipmentTx shipmentID"

text \<open>A validated transition, and the update of one order row.\<close>

definition check_transition :: "OrderStatus \<Rightarrow> OrderStatus \<Rightarrow> unit pg_op" where
  "check_transition current status =
     (case ValidateOrderTransition current status of None \<Rightarrow> ret_op () | Some err \<Rightarrow> raise_op err)"

definition update_order :: "pg_params \<Rightarrow> string \<Rightarrow> string \<Rightarrow> (order_row \<Rightarrow> order_row) \<Rightarrow> nat pg_op" where
  "update_order p message orderID f =
     wrapped message (statement (update_orders p (\<lambda>r. ow_order_id r = orderID) f))"

definition with_status :: "OrderStatus \<Rightarrow> time \<Rightarrow> order_row \<Rightarrow> order_row" where
  "with_status status at r = r\<lparr>ow_status := status, ow_updated_at := timestamptz at, ow_version := ow_version r + 1\<rparr>"

definition touched :: "time \<Rightarrow> order_row \<Rightarrow> order_row" where
  "touched at r = r\<lparr>ow_updated_at := timestamptz at, ow_version := ow_version r + 1\<rparr>"

definition pg_UpdateOrderStatus :: "pg_params \<Rightarrow> string \<Rightarrow> OrderStatus \<Rightarrow> time \<Rightarrow> OutboxEvent \<Rightarrow> AuditLog \<Rightarrow> Order pg_op" where
  "pg_UpdateOrderStatus p orderID status now event audit =
     transaction ''begin update order status'' (\<lambda>_. ''commit update order status'')
       (bind_op (lockOrderStatusForUpdate orderID) (\<lambda>currentStatus.
        bind_op (check_transition currentStatus status) (\<lambda>_.
        bind_op (update_order p ''update order status'' orderID (with_status status now)) (\<lambda>rows.
        if rows = 0 then raise_op ErrNotFound else
        bind_op (append_logs p (event\<lparr>e_Payload := OrderStatusEventPayload status now audit (e_Payload event)\<rparr>) audit) (\<lambda>_.
        getOrderTx orderID)))))"

subsection \<open>Inventory\<close>

definition orderItemsForReservation :: "string \<Rightarrow> (string \<times> int) list pg_op" where
  "orderItemsForReservation orderID =
     bind_op (wrapped ''load order items for reservation'' (query (\<lambda>db.
         map (\<lambda>i. (it_sku i, it_quantity i)) (filter (\<lambda>i. it_order_id i = orderID) (order_items db)))))
       (\<lambda>items. if items = [] then raise_op ErrNotFound else ret_op items)"

text \<open>
  The candidate: among the inventory rows of the merchant's active warehouses with enough of
  the SKU, the first one with the largest available quantity. Rows are numbered by position.
\<close>

definition is_candidate :: "string \<Rightarrow> string \<Rightarrow> int \<Rightarrow> database \<Rightarrow> inventory_row \<Rightarrow> bool" where
  "is_candidate merchantID sku quantity db i \<longleftrightarrow>
     list_ex (\<lambda>w. wh_id w = iv_warehouse_id i \<and> wh_merchant_id w = merchantID \<and> wh_status w = ''active'') (warehouses db) \<and>
     iv_sku i = sku \<and> quantity \<le> iv_available_quantity i"

fun best_row :: "(inventory_row \<Rightarrow> bool) \<Rightarrow> nat \<Rightarrow> inventory_row list \<Rightarrow> (nat \<times> inventory_row) option" where
  "best_row P n [] = None"
| "best_row P n (i # rest) =
     (case best_row P (Suc n) rest of
        None \<Rightarrow> if P i then Some (n, i) else None
      | Some (m, j) \<Rightarrow>
          if P i \<and> iv_available_quantity j \<le> iv_available_quantity i then Some (n, i) else Some (m, j))"

definition take_stock :: "string \<Rightarrow> string \<Rightarrow> int \<Rightarrow> time \<Rightarrow> database \<Rightarrow> pg_error + string option \<times> database" where
  "take_stock merchantID sku quantity at db =
     (case best_row (is_candidate merchantID sku quantity db) 0 (inventory_items db) of
        None \<Rightarrow> Inr (None, db)
      | Some (n, i) \<Rightarrow>
          demand [(int4 (iv_reserved_quantity i + quantity), out_of_range),
              (0 \<le> iv_available_quantity i - quantity \<and> 0 \<le> iv_reserved_quantity i + quantity, check_violation)]
            (Some (iv_warehouse_id i), db\<lparr>inventory_items := (inventory_items db)[n :=
               i\<lparr>iv_available_quantity := iv_available_quantity i - quantity,
                 iv_reserved_quantity := iv_reserved_quantity i + quantity, iv_updated_at := timestamptz at\<rparr>]\<rparr>))"

definition reserveInventoryItem :: "string \<Rightarrow> string \<Rightarrow> string \<times> int \<Rightarrow> time \<Rightarrow> string pg_op" where
  "reserveInventoryItem merchantID orderID item at =
     (case item of (sku, quantity) \<Rightarrow>
        bind_op (wrapped ''lock existing stock reservation'' (query (\<lambda>db.
            find (\<lambda>r. rv_order_id r = orderID \<and> rv_sku r = sku) (stock_reservations db))))
          (\<lambda>existing. case existing of
             Some r \<Rightarrow>
               if rv_status r = ''reserved''
               then (if rv_quantity r \<noteq> quantity
                     then raise_op (ErrorString (''reservation quantity mismatch for sku '' @ sku))
                     else ret_op (null_string (rv_warehouse_id r)))
               else bind_op (wrapped ''reserve inventory item'' (statement (take_stock merchantID sku quantity at)))
                 (\<lambda>warehouse. case warehouse of
                    None \<Rightarrow> raise_op (ErrInsufficientStock ('' for sku '' @ sku)) | Some w \<Rightarrow> ret_op w)
           | None \<Rightarrow>
               bind_op (wrapped ''reserve inventory item'' (statement (take_stock merchantID sku quantity at)))
                 (\<lambda>warehouse. case warehouse of
                    None \<Rightarrow> raise_op (ErrInsufficientStock ('' for sku '' @ sku)) | Some w \<Rightarrow> ret_op w)))"

definition reserve_and_record :: "pg_params \<Rightarrow> OutboxEvent \<Rightarrow> time \<Rightarrow> string \<times> int \<Rightarrow> any pg_op" where
  "reserve_and_record p source at item =
     bind_op (reserveInventoryItem (e_MerchantID source) (e_OrderID source) item at) (\<lambda>warehouseID.
     bind_op (wrapped ''upsert stock reservation'' (statement (upsert_reservation p
        \<lparr>rv_order_id = e_OrderID source, rv_warehouse_id = nullableString warehouseID, rv_sku = fst item,
         rv_quantity = snd item, rv_status = ''reserved'', rv_reserved_at = timestamptz at, rv_released_at = None\<rparr>))) (\<lambda>_.
     ret_op (AMap [(''sku'', AStr (fst item)), (''quantity'', AInt (snd item)), (''warehouse_id'', AStr warehouseID)])))"

definition pg_RecordInventoryReserved :: "pg_params \<Rightarrow> OutboxEvent \<Rightarrow> OutboxEvent \<Rightarrow> AuditLog \<Rightarrow> unit pg_op" where
  "pg_RecordInventoryReserved p source nxt audit =
     transaction ''begin record inventory reservation'' (\<lambda>_. ''commit record inventory reservation'')
       (bind_op (lockOrderStatusForUpdate (e_OrderID source)) (\<lambda>currentStatus.
        bind_op (check_transition currentStatus StatusInventoryReserved) (\<lambda>_.
        bind_op (orderItemsForReservation (e_OrderID source)) (\<lambda>items.
        bind_op (fold_op (reserve_and_record p source (e_OccurredAt nxt)) items) (\<lambda>reservations.
        bind_op (wrapped ''mark order items reserved'' (statement (update_items
           (\<lambda>i. it_order_id i = e_OrderID source) ''reserved''))) (\<lambda>_.
        bind_op (update_order p ''touch order after inventory reservation'' (e_OrderID source)
           (with_status StatusInventoryReserved (e_OccurredAt nxt))) (\<lambda>_.
        append_logs p (nxt\<lparr>e_Payload := [(''order_status'', AStr StatusInventoryReserved),
           (''reservations'', AList reservations)]\<rparr>) audit)))))))"

definition pg_RecordInventoryRejected :: "pg_params \<Rightarrow> OutboxEvent \<Rightarrow> OutboxEvent \<Rightarrow> AuditLog \<Rightarrow> unit pg_op" where
  "pg_RecordInventoryRejected p source nxt audit =
     transaction ''begin record inventory rejection'' (\<lambda>_. ''commit record inventory rejection'')
       (bind_op (getOrderTx (e_OrderID source)) (\<lambda>_.
        bind_op (wrapped ''mark order items rejected'' (statement (update_items
           (\<lambda>i. it_order_id i = e_OrderID source) ''rejected''))) (\<lambda>_.
        bind_op (update_order p ''touch order after inventory rejection'' (e_OrderID source) (touched (e_OccurredAt nxt))) (\<lambda>_.
        append_logs p (nxt\<lparr>e_Payload := failurePayload ''inventory'' (mapstr (a_Details audit) ''error'')\<rparr>) audit))))"

text \<open>Releasing: every inventory row takes back what the order's reservation of its warehouse and SKU holds.\<close>

definition held_by :: "string \<Rightarrow> inventory_row \<Rightarrow> reservation_row \<Rightarrow> bool" where
  "held_by orderID i r \<longleftrightarrow> rv_order_id r = orderID \<and> rv_status r = ''reserved'' \<and>
     rv_warehouse_id r = Some (iv_warehouse_id i) \<and> rv_sku r = iv_sku i"

definition give_back :: "string \<Rightarrow> time \<Rightarrow> database \<Rightarrow> inventory_row \<Rightarrow> inventory_row" where
  "give_back orderID at db i =
     (case find (held_by orderID i) (stock_reservations db) of
        None \<Rightarrow> i
      | Some r \<Rightarrow> i\<lparr>iv_available_quantity := iv_available_quantity i + rv_quantity r,
          iv_reserved_quantity := max (iv_reserved_quantity i - rv_quantity r) 0, iv_updated_at := timestamptz at\<rparr>)"

definition return_stock :: "string \<Rightarrow> time \<Rightarrow> database \<Rightarrow> pg_error + unit \<times> database" where
  "return_stock orderID at db =
     demand (map (\<lambda>i. (int4 (iv_available_quantity (give_back orderID at db i)), out_of_range)) (inventory_items db))
       ((), db\<lparr>inventory_items := map (give_back orderID at db) (inventory_items db)\<rparr>)"

definition releaseInventoryItems :: "string \<Rightarrow> time \<Rightarrow> unit pg_op" where
  "releaseInventoryItems orderID at = wrapped ''release inventory items'' (statement (return_stock orderID at))"

definition release_reservations :: "string \<Rightarrow> time \<Rightarrow> database \<Rightarrow> pg_error + unit \<times> database" where
  "release_reservations orderID at db =
     Inr ((), db\<lparr>stock_reservations := map (\<lambda>r. if rv_order_id r = orderID \<and> rv_status r \<noteq> ''released''
        then r\<lparr>rv_status := ''released'', rv_released_at := Some (timestamptz at)\<rparr> else r) (stock_reservations db)\<rparr>)"

definition releaseReservedStock :: "string \<Rightarrow> time \<Rightarrow> unit pg_op" where
  "releaseReservedStock orderID at =
     bind_op (releaseInventoryItems orderID at) (\<lambda>_.
     bind_op (wrapped ''release stock reservations'' (statement (release_reservations orderID at))) (\<lambda>_.
     bind_op (wrapped ''release order items'' (statement (update_items
        (\<lambda>i. it_order_id i = orderID \<and> it_reservation_status i = ''reserved'') ''released''))) (\<lambda>_. ret_op ())))"

subsection \<open>Payments\<close>

definition void_authorizations :: "string \<Rightarrow> time \<Rightarrow> database \<Rightarrow> pg_error + unit \<times> database" where
  "void_authorizations orderID at db =
     Inr ((), db\<lparr>payment_authorizations := map (\<lambda>a. if au_order_id a = orderID \<and> au_status a = ''authorized''
        then a\<lparr>au_status := ''voided'', au_voided_at := Some (timestamptz at)\<rparr> else a) (payment_authorizations db)\<rparr>)"

definition voidAuthorizedPayment :: "pg_params \<Rightarrow> string \<Rightarrow> time \<Rightarrow> unit pg_op" where
  "voidAuthorizedPayment p orderID at =
     bind_op (wrapped ''void payment authorization'' (statement (void_authorizations orderID at))) (\<lambda>_.
     bind_op (wrapped ''void order payment'' (statement (update_orders p
        (\<lambda>r. ow_order_id r = orderID \<and> ow_payment_status r = Some ''authorized'')
        (\<lambda>r. r\<lparr>ow_payment_status := Some ''voided''\<rparr>)))) (\<lambda>_. ret_op ()))"

definition coalesce :: "string option list \<Rightarrow> string \<Rightarrow> string" where
  "coalesce columns otherwise = (case find (\<lambda>c. c \<noteq> None) columns of Some (Some v) \<Rightarrow> v | _ \<Rightarrow> otherwise)"

definition pg_RecordPaymentAuthorized :: "pg_params \<Rightarrow> OutboxEvent \<Rightarrow> OutboxEvent \<Rightarrow> Payment \<Rightarrow> AuditLog \<Rightarrow> unit pg_op" where
  "pg_RecordPaymentAuthorized p source nxt payment audit =
     transaction ''begin record payment authorization'' (\<lambda>_. ''commit record payment authorization'')
       (bind_op (lockOrderStatusForUpdate (e_OrderID source)) (\<lambda>currentStatus.
        bind_op (check_transition currentStatus StatusPaymentAuthorized) (\<lambda>_.
        bind_op (wrapped ''load order for payment authorization''
           (query (\<lambda>db. find (\<lambda>q. ow_order_id q = e_OrderID source) (orders_t db)))) (\<lambda>row. case row of
          None \<Rightarrow> raise_op ErrNotFound
        | Some r \<Rightarrow>
          (let provider = coalesce [nullableString (p_Provider payment), ow_payment_provider r] ''fake-payment'' in
           bind_op (wrapped ''upsert payment authorization'' (statement (upsert_authorization p
              \<lparr>au_authorization_id = p_AuthorizationID payment, au_order_id = e_OrderID source,
               au_merchant_id = e_MerchantID source, au_provider = provider, au_status = p_Status payment,
               au_amount = ow_total_amount r, au_currency = ow_currency r,
               au_authorized_at = timestamptz (e_OccurredAt nxt), au_voided_at = None\<rparr>))) (\<lambda>_.
           bind_op (update_order p ''update order payment authorization'' (e_OrderID source)
              (\<lambda>r. (with_status StatusPaymentAuthorized (e_OccurredAt nxt) r)\<lparr>ow_payment_provider := Some provider,
                 ow_payment_status := Some (p_Status payment),
                 ow_payment_authorization_id := Some (p_AuthorizationID payment)\<rparr>)) (\<lambda>_.
           append_logs p (nxt\<lparr>e_Payload := [(''order_status'', AStr StatusPaymentAuthorized),
              (''payment'', AMap [(''provider'', AStr provider), (''authorization_id'', AStr (p_AuthorizationID payment)),
                 (''amount'', AInt (sint (ow_total_amount r))), (''currency'', AStr (ow_currency r))])]\<rparr>) audit)))))))"

definition pg_RecordPaymentFailed :: "pg_params \<Rightarrow> OutboxEvent \<Rightarrow> OutboxEvent \<Rightarrow> AuditLog \<Rightarrow> unit pg_op" where
  "pg_RecordPaymentFailed p source nxt audit =
     transaction ''begin record payment failure'' (\<lambda>_. ''commit record payment failure'')
       (bind_op (wrapped ''load order for payment failure''
           (query (\<lambda>db. find (\<lambda>q. ow_order_id q = e_OrderID source) (orders_t db)))) (\<lambda>row. case row of
          None \<Rightarrow> raise_op ErrNotFound
        | Some r \<Rightarrow>
          (let provider = coalesce [ow_payment_provider r] ''fake-payment'' in
           bind_op (update_order p ''update order payment failure'' (e_OrderID source)
              (\<lambda>r. (touched (e_OccurredAt nxt) r)\<lparr>ow_payment_provider := Some provider,
                 ow_payment_status := Some ''failed'', ow_payment_authorization_id := None\<rparr>)) (\<lambda>_.
           append_logs p (nxt\<lparr>e_Payload := failurePayload ''payment'' (mapstr (a_Details audit) ''error'')\<rparr>) audit))))"

subsection \<open>Shipments, cancellation, notification, compensation\<close>

definition pg_RecordShipmentCreated :: "pg_params \<Rightarrow> OutboxEvent \<Rightarrow> OutboxEvent \<Rightarrow> Shipment \<Rightarrow> AuditLog \<Rightarrow> unit pg_op" where
  "pg_RecordShipmentCreated p source nxt shipment audit =
     transaction ''begin record shipment'' (\<lambda>_. ''commit record shipment'')
       (bind_op (lockOrderStatusForUpdate (e_OrderID source)) (\<lambda>currentStatus.
        bind_op (check_transition currentStatus StatusShipmentCreated) (\<lambda>_.
        bind_op (getOrderTx (e_OrderID source)) (\<lambda>_.
        bind_op (wrapped ''upsert shipment'' (statement (upsert_shipment p
           \<lparr>sw_shipment_id = s_ShipmentID shipment, sw_order_id = e_OrderID source, sw_merchant_id = e_MerchantID source,
            sw_carrier = s_Carrier shipment, sw_tracking_number = s_TrackingNumber shipment,
            sw_status = s_Status shipment, sw_created_at = timestamptz (e_OccurredAt nxt),
            sw_updated_at = timestamptz (e_OccurredAt nxt)\<rparr>))) (\<lambda>_.
        bind_op (update_order p ''touch order after shipment'' (e_OrderID source)
           (with_status StatusShipmentCreated (e_OccurredAt nxt))) (\<lambda>_.
        append_logs p (nxt\<lparr>e_Payload := [(''order_status'', AStr StatusShipmentCreated),
           (''shipment'', AMap [(''shipment_id'', AStr (s_ShipmentID shipment)),
              (''carrier'', AStr (s_Carrier shipment)),
              (''tracking_number'', AStr (s_TrackingNumber shipment))])]\<rparr>) audit))))))"

definition pg_RecordShipmentFailed :: "pg_params \<Rightarrow> OutboxEvent \<Rightarrow> OutboxEvent \<Rightarrow> AuditLog \<Rightarrow> unit pg_op" where
  "pg_RecordShipmentFailed p source nxt audit =
     transaction ''begin record shipment failure'' (\<lambda>_. ''commit record shipment failure'')
       (bind_op (getOrderTx (e_OrderID source)) (\<lambda>_.
        bind_op (update_order p ''touch order after shipment failure'' (e_OrderID source) (touched (e_OccurredAt nxt))) (\<lambda>_.
        append_logs p (nxt\<lparr>e_Payload := failurePayload ''shipment'' (mapstr (a_Details audit) ''error'')\<rparr>) audit)))"

definition pg_RecordOrderCancelled :: "pg_params \<Rightarrow> OutboxEvent \<Rightarrow> OutboxEvent \<Rightarrow> AuditLog \<Rightarrow> unit pg_op" where
  "pg_RecordOrderCancelled p source nxt audit =
     transaction ''begin record order cancellation'' (\<lambda>_. ''commit record order cancellation'')
       (bind_op (lockOrderStatusForUpdate (e_OrderID source)) (\<lambda>currentStatus.
        bind_op (check_transition currentStatus StatusCancelled) (\<lambda>_.
        bind_op (update_order p ''update cancelled order status'' (e_OrderID source)
           (with_status StatusCancelled (e_OccurredAt nxt))) (\<lambda>rows.
        if rows = 0 then raise_op ErrNotFound else
        bind_op (releaseReservedStock (e_OrderID source) (e_OccurredAt nxt)) (\<lambda>_.
        bind_op (voidAuthorizedPayment p (e_OrderID source) (e_OccurredAt nxt)) (\<lambda>_.
        append_logs p (nxt\<lparr>e_Payload := OrderStatusEventPayload StatusCancelled (e_OccurredAt nxt) audit
           (e_Payload nxt)\<rparr>) audit))))))"

definition pg_RecordNotificationQueued :: "pg_params \<Rightarrow> OutboxEvent \<Rightarrow> AuditLog \<Rightarrow> unit pg_op" where
  "pg_RecordNotificationQueued p source audit =
     transaction ''begin record notification'' (\<lambda>_. ''commit record notification'')
       (bind_op (getOrderTx (e_OrderID source)) (\<lambda>_.
        bind_op (wrapped ''upsert notification event'' (statement (upsert_notification p
           \<lparr>nt_order_id = e_OrderID source, nt_merchant_id = e_MerchantID source,
            nt_source_message_id = e_MessageID source, nt_source_event_type = e_EventType source,
            nt_channel = ''email'', nt_status = ''queued'', nt_correlation_id = e_CorrelationID source,
            nt_created_at = timestamptz (a_CreatedAt audit)\<rparr>))) (\<lambda>_.
        insertAuditLog p audit)))"

definition applyCompensationEffects :: "pg_params \<Rightarrow> OutboxEvent \<Rightarrow> time \<Rightarrow> unit pg_op" where
  "applyCompensationEffects p source at =
     bind_op (if e_EventType source \<in> set [''payment.failed'', ''shipment.failed'']
              then releaseReservedStock (e_OrderID source) at else ret_op ()) (\<lambda>_.
     if e_EventType source = ''shipment.failed'' then voidAuthorizedPayment p (e_OrderID source) at else ret_op ())"

definition pg_RecordCompensation :: "pg_params \<Rightarrow> OutboxEvent \<Rightarrow> OrderStatus \<Rightarrow> AuditLog \<Rightarrow> unit pg_op" where
  "pg_RecordCompensation p source status audit =
     transaction ''begin record compensation'' (\<lambda>_. ''commit record compensation'')
       (bind_op (lockOrderStatusForUpdate (e_OrderID source)) (\<lambda>currentStatus.
        bind_op (check_transition currentStatus status) (\<lambda>_.
        bind_op (update_order p ''update compensated order status'' (e_OrderID source)
           (with_status status (a_CreatedAt audit))) (\<lambda>rows.
        if rows = 0 then raise_op ErrNotFound else
        bind_op (applyCompensationEffects p source (a_CreatedAt audit)) (\<lambda>_.
        bind_op (wrapped ''upsert compensation event'' (statement (upsert_compensation p
           \<lparr>cp_order_id = e_OrderID source, cp_merchant_id = e_MerchantID source,
            cp_source_message_id = e_MessageID source, cp_source_event_type = e_EventType source,
            cp_action = a_Action audit, cp_target_order_status = status, cp_status = ''recorded'',
            cp_correlation_id = e_CorrelationID source, cp_created_at = timestamptz (a_CreatedAt audit)\<rparr>))) (\<lambda>_.
        insertAuditLog p audit))))))"

subsection \<open>Outbox, audit trail, inbox, metrics\<close>

text \<open>\<open>OutboxEvents\<close> and \<open>AuditLogs\<close> give nil on any error.\<close>

fun scan_all :: "('r \<Rightarrow> error + 'a) \<Rightarrow> 'r list \<Rightarrow> error + 'a list" where
  "scan_all f [] = Inr []"
| "scan_all f (r # rows) =
     (case f r of Inl err \<Rightarrow> Inl err | Inr x \<Rightarrow> map_sum id ((#) x) (scan_all f rows))"

definition pg_OutboxEvents :: "pg_params \<Rightarrow> pg \<Rightarrow> OutboxEvent list" where
  "pg_OutboxEvents p s =
     (case fst (query (\<lambda>db. by_occurred_at p (outbox_events db)) s) of
        Inl _ \<Rightarrow> []
      | Inr rows \<Rightarrow> (case scan_all (scanOutboxEvent p) rows of
            Inl _ \<Rightarrow> [] | Inr events \<Rightarrow> map WithEnvelopeDefaults events))"

definition scan_audit :: "pg_params \<Rightarrow> audit_row \<Rightarrow> error + AuditLog" where
  "scan_audit p r =
     (case (if al_details r = [] then Inr [] else details_in p (al_details r)) of
        Inl err \<Rightarrow> Inl err
      | Inr details \<Rightarrow> Inr \<lparr>a_MerchantID = al_merchant_id r, a_OrderID = null_string (al_order_id r),
          a_ActorType = al_actor_type r, a_ActorID = al_actor_id r, a_Action = al_action r,
          a_CorrelationID = al_correlation_id r, a_CreatedAt = al_created_at r, a_Details = details\<rparr>)"

definition pg_AuditLogs :: "pg_params \<Rightarrow> pg \<Rightarrow> AuditLog list" where
  "pg_AuditLogs p s =
     (case fst (query (\<lambda>db. sort_key al_created_at (audit_logs db)) s) of
        Inl _ \<Rightarrow> []
      | Inr rows \<Rightarrow> (case scan_all (scan_audit p) rows of Inl _ \<Rightarrow> [] | Inr logs \<Rightarrow> logs))"

definition pg_RecordAuditLog :: "pg_params \<Rightarrow> AuditLog \<Rightarrow> unit pg_op" where
  "pg_RecordAuditLog p audit =
     transaction ''begin record audit log'' (\<lambda>_. ''commit record audit log'') (insertAuditLog p audit)"

definition claimable :: "time \<Rightarrow> outbox_row \<Rightarrow> bool" where
  "claimable now r \<longleftrightarrow> xb_published_at r = None \<and>
     (case xb_claimed_until r of None \<Rightarrow> True | Some until \<Rightarrow> until \<le> now)"

definition claim_rows :: "pg_params \<Rightarrow> time \<Rightarrow> int \<Rightarrow> database \<Rightarrow> pg_error + outbox_row list \<times> database" where
  "claim_rows p now limit db =
     (let picked = map xb_message_id (take (nat limit) (by_occurred_at p (filter (claimable now) (outbox_events db))));
          claimed = (\<lambda>r. r\<lparr>xb_claimed_by := Some ''fulfillhub-outbox-relay'', xb_claimed_until := Some (now + 30 * Second)\<rparr>)
      in Inr (returning p (map claimed (filter (\<lambda>r. xb_message_id r \<in> set picked) (outbox_events db))),
           db\<lparr>outbox_events := map (\<lambda>r. if xb_message_id r \<in> set picked then claimed r else r) (outbox_events db)\<rparr>))"

definition pg_PendingOutboxEvents :: "pg_params \<Rightarrow> time \<Rightarrow> int \<Rightarrow> OutboxEvent list pg_op" where
  "pg_PendingOutboxEvents p now limit =
     (let limit = (if limit \<le> 0 then 100 else limit) in
      bind_op (wrapped ''claim pending outbox events'' (autocommit (claim_rows p now limit)))
        (\<lambda>rows. lift_error (map_sum (wrap_error ''scan pending outbox event'') (map WithEnvelopeDefaults)
           (scan_all (scanOutboxEvent p) rows))))"

definition pg_PendingOutboxCount :: "nat pg_op" where
  "pg_PendingOutboxCount = wrapped ''count pending outbox events''
     (query (\<lambda>db. length (filter (\<lambda>r. xb_published_at r = None) (outbox_events db))))"

text \<open>The age in nanoseconds; the source scans it as a number of seconds.\<close>

definition pg_OldestPendingOutboxAge :: "time \<Rightarrow> duration pg_op" where
  "pg_OldestPendingOutboxAge now = wrapped ''measure oldest pending outbox age''
     (query (\<lambda>db. case map xb_occurred_at (filter (\<lambda>r. xb_published_at r = None) (outbox_events db)) of
        [] \<Rightarrow> 0 | t # ts \<Rightarrow> now - fold min ts t))"

definition pg_OrderStatusCounts :: "(OrderStatus \<times> nat) list pg_op" where
  "pg_OrderStatusCounts =
     bind_op (wrapped ''count orders by status'' (query (\<lambda>db.
         map (\<lambda>st. (st, length (filter (\<lambda>q. ow_status q = st) (orders_t db)))) (remdups (map ow_status (orders_t db))))))
       (\<lambda>rows. ret_op (foldl (\<lambda>m (st, n). mapset st n m) (map (\<lambda>st. (st, 0)) ValidOrderStatuses) rows))"

definition publish_row :: "string \<Rightarrow> time \<Rightarrow> database \<Rightarrow> pg_error + nat \<times> database" where
  "publish_row messageID publishedAt db =
     (let P = (\<lambda>r. xb_message_id r = messageID \<and> xb_published_at r = None) in
      Inr (length (filter P (outbox_events db)), db\<lparr>outbox_events := map (\<lambda>r. if P r
        then r\<lparr>xb_published_at := Some (timestamptz publishedAt), xb_claimed_by := None, xb_claimed_until := None\<rparr>
        else r) (outbox_events db)\<rparr>))"

definition pg_MarkOutboxPublished :: "string \<Rightarrow> time \<Rightarrow> unit pg_op" where
  "pg_MarkOutboxPublished messageID publishedAt =
     bind_op (wrapped ''mark outbox event published'' (autocommit (publish_row messageID publishedAt)))
       (\<lambda>rows. if rows = 0 then raise_op ErrNotFound else ret_op ())"

definition pg_RecordInboxMessage :: "pg_params \<Rightarrow> string \<Rightarrow> OutboxEvent \<Rightarrow> bool pg_op" where
  "pg_RecordInboxMessage p consumerName event =
     bind_op (wrapped ''record inbox message'' (autocommit (insert_inbox_row p \<lparr>in_consumer_name = consumerName,
        in_message_id = e_MessageID event, in_correlation_id = e_CorrelationID event\<rparr>))) (\<lambda>rows. ret_op (rows = 1))"

definition pg_ReleaseInboxMessage :: "string \<Rightarrow> OutboxEvent \<Rightarrow> unit pg_op" where
  "pg_ReleaseInboxMessage consumerName event =
     wrapped ''release inbox message'' (autocommit (\<lambda>db. Inr ((), db\<lparr>inbox_messages :=
       filter (\<lambda>i. \<not> (in_consumer_name i = consumerName \<and> in_message_id i = e_MessageID event)) (inbox_messages db)\<rparr>)))"

subsection \<open>The interfaces it implements\<close>

definition pg_Store :: "pg_params \<Rightarrow> pg Store" where
  "pg_Store p = \<lparr>st_InsertOrder = pg_InsertOrder p, st_GetOrder = (\<lambda>oid s. fst (pg_GetOrder oid s)),
     st_GetShipment = (\<lambda>sid s. fst (pg_GetShipment sid s)), st_UpdateOrderStatus = pg_UpdateOrderStatus p,
     st_OutboxEvents = pg_OutboxEvents p, st_AuditLogs = pg_AuditLogs p\<rparr>"

definition pg_Projector :: "pg_params \<Rightarrow> pg Projector" where
  "pg_Projector p = \<lparr>pj_RecordInventoryReserved = pg_RecordInventoryReserved p,
     pj_RecordInventoryRejected = pg_RecordInventoryRejected p, pj_RecordPaymentAuthorized = pg_RecordPaymentAuthorized p,
     pj_RecordPaymentFailed = pg_RecordPaymentFailed p, pj_RecordShipmentCreated = pg_RecordShipmentCreated p,
     pj_RecordShipmentFailed = pg_RecordShipmentFailed p, pj_RecordOrderCancelled = pg_RecordOrderCancelled p,
     pj_RecordNotificationQueued = pg_RecordNotificationQueued p, pj_RecordCompensation = pg_RecordCompensation p\<rparr>"

definition pg_Outbox :: "pg_params \<Rightarrow> pg OutboxSource" where
  "pg_Outbox p = \<lparr>os_PendingOutboxEvents = pg_PendingOutboxEvents p, os_MarkOutboxPublished = pg_MarkOutboxPublished\<rparr>"

definition pg_Recorder :: "pg_params \<Rightarrow> pg InboxRecorder" where
  "pg_Recorder p = \<lparr>ir_RecordInboxMessage = pg_RecordInboxMessage p,
     ir_ReleaseInboxMessage = Some pg_ReleaseInboxMessage\<rparr>"

end
