(* ===== verification/Pg_Atomic.thy ===== *)
theory Pg_Atomic
  imports Pg_Store Store_Lifecycle
begin

text \<open>
  Every method of the PostgreSQL store is all or nothing, whatever faults the connection has:
  the bodies of its transactions are honest and each method is atomic.
\<close>

lemma honest_if [intro!]: "honest m \<Longrightarrow> honest n \<Longrightarrow> honest (if b then m else n)"
  by simp

lemma honest_option [intro!]: "honest m \<Longrightarrow> (\<And>x. honest (f x)) \<Longrightarrow> honest (case v of None \<Rightarrow> m | Some x \<Rightarrow> f x)"
  by (cases v) simp_all

lemma honest_pair [intro!]: "(\<And>x y. honest (f x y)) \<Longrightarrow> honest (case v of (x, y) \<Rightarrow> f x y)"
  by (cases v) simp

lemma honest_Let [intro!]: "honest (f v) \<Longrightarrow> honest (Let v f)"
  by simp

lemma honest_reads [intro!]:
  "honest (lockOrderStatusForUpdate oid)" "honest (getOrderTx oid)" "honest (getShipmentTx sid)"
  "honest (orderByIdempotency m k)" "honest (orderItemsForReservation oid)" "honest (check_transition a b)"
  unfolding lockOrderStatusForUpdate_def getOrderTx_def getShipmentTx_def orderByIdempotency_def
    orderItemsForReservation_def check_transition_def by auto

lemma honest_writes [intro!]:
  "honest (insertOutboxEvent p e)" "honest (insertAuditLog p a)" "honest (upsertMerchant p m)"
  "honest (update_order p msg oid f)" "honest (reserveInventoryItem m oid item at)"
  "honest (releaseInventoryItems oid at)" "honest (voidAuthorizedPayment p oid at)"
  unfolding insertOutboxEvent_def insertAuditLog_def upsertMerchant_def update_order_def reserveInventoryItem_def
    releaseInventoryItems_def voidAuthorizedPayment_def by auto

lemma honest_groups [intro!]:
  "honest (append_logs p e a)" "honest (releaseReservedStock oid at)" "honest (reserve_and_record p src at item)"
  "honest (insert_new_order p m k order e a)" "honest (applyCompensationEffects p src at)"
  unfolding append_logs_def releaseReservedStock_def reserve_and_record_def insert_new_order_def
    applyCompensationEffects_def by auto

lemmas pg_method_defs = pg_InsertOrder_def pg_UpdateOrderStatus_def pg_RecordInventoryReserved_def
  pg_RecordInventoryRejected_def pg_RecordPaymentAuthorized_def pg_RecordPaymentFailed_def
  pg_RecordShipmentCreated_def pg_RecordShipmentFailed_def pg_RecordOrderCancelled_def
  pg_RecordNotificationQueued_def pg_RecordCompensation_def pg_RecordAuditLog_def

lemma atomic_methods:
  "atomic (pg_InsertOrder p m k order e a)" "atomic (pg_UpdateOrderStatus p oid st now e a)"
  "atomic (pg_RecordInventoryReserved p src e a)" "atomic (pg_RecordInventoryRejected p src e a)"
  "atomic (pg_RecordPaymentAuthorized p src e pay a)" "atomic (pg_RecordPaymentFailed p src e a)"
  "atomic (pg_RecordShipmentCreated p src e sh a)" "atomic (pg_RecordShipmentFailed p src e a)"
  "atomic (pg_RecordOrderCancelled p src e a)" "atomic (pg_RecordNotificationQueued p src a)"
  "atomic (pg_RecordCompensation p src st a)" "atomic (pg_RecordAuditLog p a)"
  unfolding pg_method_defs by (auto intro!: atomic_transaction)

lemma single_tails:
  "\<exists>g. ret_op x = lift_error g" "\<exists>g. raise_op e = lift_error g" "\<exists>g. lift_error r = lift_error g"
  by (auto simp: fun_eq_iff op_simps intro: exI [of _ "Inr x"] exI [of _ "Inl e"])

lemma atomic_singles:
  "atomic (pg_PendingOutboxEvents p now limit)" "atomic (pg_MarkOutboxPublished mid at)"
  "atomic (pg_RecordInboxMessage p c e)" "atomic (pg_ReleaseInboxMessage c e)"
  unfolding pg_PendingOutboxEvents_def pg_MarkOutboxPublished_def pg_RecordInboxMessage_def pg_ReleaseInboxMessage_def
    Let_def
  by (auto intro!: atomic_then atomic_wrapped atomic_autocommit single_tails)

lemma atomic_drop: "atomic m \<Longrightarrow> atomic (\<lambda>s. drop_result (m s))"
proof -
  assume m: "atomic m"
  have "(\<lambda>s. drop_result (m s)) = bind_op m (\<lambda>_. lift_error (Inr ()))"
    by (auto simp: fun_eq_iff drop_result_def bind_op_def op_simps split: prod.splits sum.splits)
  then show ?thesis using atomic_then [OF m, of "\<lambda>_. lift_error (Inr ())"] by auto
qed

abbreviation pg_exec :: "pg_params \<Rightarrow> store_call \<Rightarrow> unit pg_op" where
  "pg_exec p \<equiv> exec_call (pg_Store p) (pg_Projector p) (pg_Outbox p)"

abbreviation pg_run :: "pg_params \<Rightarrow> store_call list \<Rightarrow> pg \<Rightarrow> pg" where
  "pg_run p \<equiv> run_calls (pg_Store p) (pg_Projector p) (pg_Outbox p)"

lemmas pg_records = pg_Store_def pg_Projector_def pg_Outbox_def

lemma pg_exec_method:
  "pg_exec p (CInsertOrder m k order e a) = (\<lambda>s. drop_result (pg_InsertOrder p m k order e a s))"
  "pg_exec p (CUpdateOrderStatus oid st now e a) = (\<lambda>s. drop_result (pg_UpdateOrderStatus p oid st now e a s))"
  "pg_exec p (CInventoryReserved src e a) = pg_RecordInventoryReserved p src e a"
  "pg_exec p (CInventoryRejected src e a) = pg_RecordInventoryRejected p src e a"
  "pg_exec p (CPaymentAuthorized src e pay a) = pg_RecordPaymentAuthorized p src e pay a"
  "pg_exec p (CPaymentFailed src e a) = pg_RecordPaymentFailed p src e a"
  "pg_exec p (CShipmentCreated src e sh a) = pg_RecordShipmentCreated p src e sh a"
  "pg_exec p (CShipmentFailed src e a) = pg_RecordShipmentFailed p src e a"
  "pg_exec p (COrderCancelled src e a) = pg_RecordOrderCancelled p src e a"
  "pg_exec p (CNotificationQueued src a) = pg_RecordNotificationQueued p src a"
  "pg_exec p (CCompensation src st a) = pg_RecordCompensation p src st a"
  "pg_exec p (CPendingOutboxEvents now limit) = (\<lambda>s. drop_result (pg_PendingOutboxEvents p now limit s))"
  "pg_exec p (CMarkOutboxPublished mid at) = pg_MarkOutboxPublished mid at"
  by (simp_all add: fun_eq_iff pg_records)

lemma atomic_exec: "atomic (pg_exec p c)"
  by (cases c) (simp_all only: pg_exec_method atomic_methods atomic_singles atomic_drop)

end
