(* ===== verification/Pg_Ledger.thy ===== *)
theory Pg_Ledger
  imports Pg_Atomic
begin

text \<open>
  The ledger of a database, in the sense of \<open>Store_Interface\<close>, read from the rows: orders joined with
  their items and shipments, the envelope columns of the outbox and the audit trail. The invariant
  is the referential integrity that the constraints of the schema maintain. \<open>edits\<close> follows what the
  statements of one transaction do to one order.
\<close>

subsection \<open>The ledger of a database\<close>

definition order_at :: "database \<Rightarrow> string \<Rightarrow> Order option" where
  "order_at db oid = map_option (\<lambda>r. order_of_rows r (filter (\<lambda>i. it_order_id i = oid) (order_items db))
     (find (\<lambda>h. sw_order_id h = oid) (shipments db))) (find (\<lambda>q. ow_order_id q = oid) (orders_t db))"

definition event_of_row :: "pg_params \<Rightarrow> outbox_row \<Rightarrow> OutboxEvent" where
  "event_of_row p r = WithEnvelopeDefaults (zero_event\<lparr>e_MessageID := xb_message_id r,
     e_CorrelationID := xb_correlation_id r, e_CausationID := xb_causation_id r, e_EventType := xb_event_type r,
     e_OrderID := xb_order_id r, e_MerchantID := xb_merchant_id r, e_OccurredAt := xb_occurred_at r,
     e_Payload := (case event_in p (xb_payload r) of Inl _ \<Rightarrow> [] | Inr envelope \<Rightarrow> e_Payload envelope)\<rparr>)"

definition audit_of_row :: "pg_params \<Rightarrow> audit_row \<Rightarrow> AuditLog" where
  "audit_of_row p r = \<lparr>a_MerchantID = al_merchant_id r, a_OrderID = null_string (al_order_id r),
     a_ActorType = al_actor_type r, a_ActorID = al_actor_id r, a_Action = al_action r,
     a_CorrelationID = al_correlation_id r, a_CreatedAt = al_created_at r,
     a_Details = (case details_in p (al_details r) of Inl _ \<Rightarrow> [] | Inr details \<Rightarrow> details)\<rparr>"

definition db_view :: "pg_params \<Rightarrow> database \<Rightarrow> ledger" where
  "db_view p db = \<lparr>lg_orders = order_at db, lg_events = map (event_of_row p) (outbox_events db),
     lg_audits = map (audit_of_row p) (audit_logs db)\<rparr>"

definition order_ids :: "database \<Rightarrow> string set" where
  "order_ids db = ow_order_id ` set (orders_t db)"

definition wf_db :: "pg_params \<Rightarrow> database \<Rightarrow> bool" where
  "wf_db p db \<longleftrightarrow> distinct (map ow_order_id (orders_t db)) \<and>
     (\<forall>r\<in>set (orders_t db). list_all fst (order_checks p r)) \<and>
     (\<forall>i\<in>set (order_items db). it_order_id i \<in> order_ids db) \<and>
     (\<forall>h\<in>set (shipments db). sw_order_id h \<in> order_ids db) \<and>
     (\<forall>k\<in>set (idempotency_keys db). ik_order_id k \<in> order_ids db)"

definition pg_inv :: "pg_params \<Rightarrow> pg \<Rightarrow> bool" where
  "pg_inv p s \<longleftrightarrow> pg_faults s = [] \<and> wf_db p (pg_db s)"

definition pg_view :: "pg_params \<Rightarrow> pg \<Rightarrow> ledger" where
  "pg_view p s = db_view p (pg_db s)"

definition pg_key_ref :: "pg \<Rightarrow> string \<Rightarrow> string \<Rightarrow> string option" where
  "pg_key_ref s m k = map_option ik_order_id
     (find (\<lambda>r. ik_merchant_id r = m \<and> ik_idempotency_key r = k) (idempotency_keys (pg_db s)))"

definition pg_ext_ref :: "pg \<Rightarrow> string \<Rightarrow> string \<Rightarrow> string option" where
  "pg_ext_ref s m x = map_option ow_order_id
     (find (\<lambda>q. ow_merchant_id q = m \<and> ow_external_order_id q = x) (orders_t (pg_db s)))"

lemma find_map_same: "(\<And>x. P (f x) = P x) \<Longrightarrow> find P (map f xs) = map_option f (find P xs)"
  by (induction xs) auto

lemma find_map_other:
  "(\<And>x. S x \<Longrightarrow> \<not> P x \<and> \<not> P (f x)) \<Longrightarrow> find P (map (\<lambda>x. if S x then f x else x) xs) = find P xs"
  by (induction xs) auto

lemma find_append: "find P (xs @ ys) = (case find P xs of None \<Rightarrow> find P ys | Some x \<Rightarrow> Some x)"
  by (induction xs) auto

lemma find_None_all: "(\<And>x. x \<in> set xs \<Longrightarrow> \<not> P x) \<Longrightarrow> find P xs = None"
  by (induction xs) auto

lemma find_SomeD: "find P xs = Some x \<Longrightarrow> x \<in> set xs \<and> P x"
  by (induction xs) (auto split: if_splits)

lemma order_of_rows_simps [simp]:
  "o_OrderID (order_of_rows r items sh) = ow_order_id r" "o_MerchantID (order_of_rows r items sh) = ow_merchant_id r"
  "o_ExternalOrderID (order_of_rows r items sh) = ow_external_order_id r"
  "o_Status (order_of_rows r items sh) = ow_status r"
  by (simp_all add: order_of_rows_def)

lemma order_at_None: "order_at db oid = None \<longleftrightarrow> oid \<notin> order_ids db"
  by (auto simp: order_at_def order_ids_def find_None_iff)

lemma order_at_status: "order_at db oid = Some order \<Longrightarrow>
  \<exists>r. find (\<lambda>q. ow_order_id q = oid) (orders_t db) = Some r \<and> o_Status order = ow_status r \<and> o_OrderID order = oid \<and>
    o_MerchantID order = ow_merchant_id r"
  by (auto simp: order_at_def order_of_rows_def dest: find_SomeD)

lemma db_view_orders [simp]: "lg_orders (db_view p db) = order_at db"
  by (simp add: db_view_def)

lemma wf_db_status:
  assumes "wf_db p db" "order_at db oid = Some order"
  shows "IsValidOrderStatus (o_Status order)"
proof -
  from order_at_status [OF assms(2)] obtain r where "r \<in> set (orders_t db)" "o_Status order = ow_status r"
    by (auto dest: find_SomeD)
  with assms(1) show ?thesis by (auto simp: wf_db_def order_checks_def order_status_check_valid)
qed

subsection \<open>Editing one order\<close>

text \<open>
  Within a transaction that started in \<open>db0\<close>: order \<open>oid\<close> is edited with its terms kept, its
  status being related to the one it had by \<open>T\<close>, and nothing else of the ledger has changed.
\<close>

definition edits :: "pg_params \<Rightarrow> string \<Rightarrow> (OrderStatus \<Rightarrow> OrderStatus \<Rightarrow> bool) \<Rightarrow> database \<Rightarrow> database \<Rightarrow> bool" where
  "edits p oid T db0 db \<longleftrightarrow> wf_db p db \<and> outbox_events db = outbox_events db0 \<and> audit_logs db = audit_logs db0 \<and>
     idempotency_keys db = idempotency_keys db0 \<and>
     (\<exists>order order'. order_at db0 oid = Some order \<and> order_at db oid = Some order' \<and> same_terms order order' \<and>
        T (o_Status order) (o_Status order')) \<and>
     (\<forall>x. x \<noteq> oid \<longrightarrow> order_at db x = order_at db0 x)"

text \<open>Tables outside the ledger.\<close>

definition same_ledger :: "database \<Rightarrow> database \<Rightarrow> bool" where
  "same_ledger db db' \<longleftrightarrow> orders_t db' = orders_t db \<and> order_items db' = order_items db \<and>
     shipments db' = shipments db \<and> outbox_events db' = outbox_events db \<and> audit_logs db' = audit_logs db \<and>
     idempotency_keys db' = idempotency_keys db"

lemma same_ledger_wf: "same_ledger db db' \<Longrightarrow> wf_db p db' = wf_db p db"
  by (simp add: same_ledger_def wf_db_def order_ids_def)

lemma same_ledger_view: "same_ledger db db' \<Longrightarrow> db_view p db' = db_view p db"
  by (simp add: same_ledger_def db_view_def order_at_def fun_eq_iff)

lemma edits_same_ledger: "edits p oid T db0 db \<Longrightarrow> same_ledger db db' \<Longrightarrow> edits p oid T db0 db'"
  using same_ledger_wf [of db db' p] by (simp add: edits_def same_ledger_def order_at_def)

text \<open>Updates of the order row.\<close>

definition same_columns :: "order_row \<Rightarrow> order_row \<Rightarrow> bool" where
  "same_columns r q \<longleftrightarrow> ow_order_id q = ow_order_id r \<and> ow_merchant_id q = ow_merchant_id r \<and>
     ow_external_order_id q = ow_external_order_id r \<and> ow_currency q = ow_currency r \<and>
     ow_subtotal_amount q = ow_subtotal_amount r \<and> ow_shipping_amount q = ow_shipping_amount r \<and>
     ow_total_amount q = ow_total_amount r \<and> ow_shipping_address_ref q = ow_shipping_address_ref r \<and>
     ow_created_at q = ow_created_at r"

lemma same_terms_rows:
  "same_columns r q \<Longrightarrow> map (item_terms \<circ> item_of_row) items = map (item_terms \<circ> item_of_row) items' \<Longrightarrow>
   same_terms (order_of_rows r items sh) (order_of_rows q items' sh')"
  by (simp add: same_terms_def order_of_rows_def same_columns_def)

lemma edits_update_orders:
  assumes e: "edits p oid T db0 db" and u: "update_orders p P f db = Inr (n, db')"
    and P: "\<And>r. P r \<Longrightarrow> ow_order_id r = oid" and f: "\<And>r. same_columns r (f r)"
    and T: "\<And>a r. T a (ow_status r) \<Longrightarrow> ow_order_id r = oid \<Longrightarrow> T' a (ow_status (if P r then f r else r))"
  shows "edits p oid T' db0 db'"
proof -
  let ?g = "\<lambda>r. if P r then f r else r"
  from u have checks: "\<And>r. r \<in> set (orders_t db) \<Longrightarrow> P r \<Longrightarrow> list_all fst (order_checks p (f r))"
    and db': "db' = db\<lparr>orders_t := map ?g (orders_t db)\<rparr>"
    by (auto simp: update_orders_def list_all_iff)
  have id: "ow_order_id (?g r) = ow_order_id r" for r using f [of r] by (simp add: same_columns_def)
  have at: "order_at db' x = map_option (\<lambda>r. order_of_rows (?g r) (filter (\<lambda>i. it_order_id i = x) (order_items db))
      (find (\<lambda>h. sw_order_id h = x) (shipments db))) (find (\<lambda>q. ow_order_id q = x) (orders_t db))" for x
    by (simp add: order_at_def db' find_map_same id option.map_comp comp_def)
  have other: "order_at db' x = order_at db x" if "x \<noteq> oid" for x
  proof (cases "find (\<lambda>q. ow_order_id q = x) (orders_t db)")
    case (Some r)
    then have "\<not> P r" using P that by (auto dest: find_SomeD)
    with Some show ?thesis by (simp add: at order_at_def [of db])
  qed (simp add: at order_at_def [of db])
  from e obtain order r where order: "order_at db0 oid = Some order"
    "find (\<lambda>q. ow_order_id q = oid) (orders_t db) = Some r"
    "same_terms order (order_of_rows r (filter (\<lambda>i. it_order_id i = oid) (order_items db))
      (find (\<lambda>h. sw_order_id h = oid) (shipments db)))" "T (o_Status order) (ow_status r)"
    by (auto simp: edits_def order_at_def order_of_rows_def)
  have r: "ow_order_id r = oid" using find_SomeD [OF order(2)] by simp
  have ids: "map ow_order_id (orders_t db') = map ow_order_id (orders_t db)" by (simp add: db' id)
  then have "order_ids db' = order_ids db" unfolding order_ids_def set_map [symmetric] by simp
  moreover have "wf_db p db" using e by (simp add: edits_def)
  moreover have "list_all fst (order_checks p r)" if "r \<in> set (orders_t db')" for r
    using that checks \<open>wf_db p db\<close> by (auto simp: db' wf_db_def)
  ultimately have wf: "wf_db p db'" unfolding wf_db_def ids by (simp add: db')
  have "same_terms order (order_of_rows (?g r) (filter (\<lambda>i. it_order_id i = oid) (order_items db))
      (find (\<lambda>h. sw_order_id h = oid) (shipments db)))"
    using order(3) f [of r] by (intro same_terms_trans [OF order(3)] same_terms_rows) (simp_all add: same_columns_def)
  moreover have "T' (o_Status order) (ow_status (?g r))" by (rule T [OF order(4) r])
  ultimately have "\<exists>order order'. order_at db0 oid = Some order \<and> order_at db' oid = Some order' \<and>
      same_terms order order' \<and> T' (o_Status order) (o_Status order')"
    using order(1,2) by (simp add: at order_of_rows_def)
  with e wf other show ?thesis by (simp add: edits_def db')
qed

lemma edits_update_items:
  assumes e: "edits p oid T db0 db" and u: "update_items P status db = Inr (n, db')"
    and P: "\<And>i. P i \<Longrightarrow> it_order_id i = oid"
  shows "edits p oid T db0 db'"
proof -
  let ?g = "\<lambda>i. if P i then i\<lparr>it_reservation_status := status\<rparr> else i"
  from u have db': "db' = db\<lparr>order_items := map ?g (order_items db)\<rparr>" by (simp add: update_items_def)
  have id: "it_order_id (?g i) = it_order_id i" for i by simp
  have items: "filter (\<lambda>i. it_order_id i = x) (order_items db') = map ?g (filter (\<lambda>i. it_order_id i = x) (order_items db))" for x
    by (simp add: db' filter_map comp_def id)
  have "map ?g (filter (\<lambda>i. it_order_id i = x) (order_items db)) = filter (\<lambda>i. it_order_id i = x) (order_items db)"
    if "x \<noteq> oid" for x using P that by (intro map_idI) auto
  then have other: "order_at db' x = order_at db x" if "x \<noteq> oid" for x
    using that by (simp only: order_at_def items) (simp add: db')
  have wf: "wf_db p db'"
    using e by (auto simp: edits_def wf_db_def db' order_ids_def image_image id)
  have "\<exists>order'. order_at db' oid = Some order' \<and> same_terms order order' \<and> o_Status order' = o_Status order"
    if "order_at db oid = Some order" for order
  proof -
    from that obtain r where r: "find (\<lambda>q. ow_order_id q = oid) (orders_t db) = Some r"
      "order = order_of_rows r (filter (\<lambda>i. it_order_id i = oid) (order_items db))
        (find (\<lambda>h. sw_order_id h = oid) (shipments db))"
      by (auto simp: order_at_def)
    let ?o = "order_of_rows r (filter (\<lambda>i. it_order_id i = oid) (order_items db')) (find (\<lambda>h. sw_order_id h = oid) (shipments db))"
    have "order_at db' oid = Some ?o" using r(1) by (simp add: order_at_def) (simp add: db')
    moreover have "same_terms order ?o" unfolding r(2) items
      by (intro same_terms_rows) (auto simp: same_columns_def item_terms_def item_of_row_def)
    ultimately show ?thesis using r(2) by (simp add: order_of_rows_def)
  qed
  with e wf other show ?thesis by (auto simp: edits_def db') (metis same_terms_trans)
qed

lemma edits_upsert_shipment:
  assumes e: "edits p oid T db0 db" and u: "upsert_shipment p row db = Inr (n, db')" and oid: "sw_order_id row = oid"
  shows "edits p oid T db0 db'"
proof -
  obtain rows where db': "db' = db\<lparr>shipments := rows\<rparr>"
    and other: "\<And>x. x \<noteq> oid \<Longrightarrow> find (\<lambda>h. sw_order_id h = x) rows = find (\<lambda>h. sw_order_id h = x) (shipments db)"
    and ids: "\<And>h. h \<in> set rows \<Longrightarrow> sw_order_id h = oid \<or> (\<exists>g\<in>set (shipments db). sw_order_id h = sw_order_id g)"
  proof -
    let ?f = "\<lambda>q. q\<lparr>sw_shipment_id := sw_shipment_id row, sw_carrier := sw_carrier row,
                   sw_tracking_number := sw_tracking_number row, sw_status := sw_status row,
                   sw_updated_at := sw_updated_at row\<rparr>"
    let ?rows = "upsert (\<lambda>q. sw_order_id q = sw_order_id row) ?f row (shipments db)"
    have "find (\<lambda>h. sw_order_id h = x) ?rows = find (\<lambda>h. sw_order_id h = x) (shipments db)" if "x \<noteq> oid" for x
    proof (cases "list_ex (\<lambda>q. sw_order_id q = sw_order_id row) (shipments db)")
      case True
      then show ?thesis unfolding upsert_def using that oid by (simp only: if_True) (rule find_map_other, auto)
    next
      case False
      then show ?thesis using that oid by (auto simp: upsert_def find_append split: option.splits)
    qed
    moreover have "db' = db\<lparr>shipments := ?rows\<rparr>" using u by (simp add: upsert_shipment_def)
    moreover have "sw_order_id h = oid \<or> (\<exists>g\<in>set (shipments db). sw_order_id h = sw_order_id g)" if "h \<in> set ?rows" for h
      using that by (auto simp: upsert_def oid split: if_splits)
    ultimately show thesis using that by blast
  qed
  have at: "order_at db' x = order_at db x" if "x \<noteq> oid" for x using other [OF that] by (simp add: order_at_def db')
  have known: "oid \<in> order_ids db" using e order_at_None [of db oid] by (auto simp: edits_def)
  moreover have wf0: "wf_db p db" using e by (simp add: edits_def)
  ultimately have "sw_order_id h \<in> order_ids db" if "h \<in> set rows" for h
    using ids [OF that] by (auto simp: wf_db_def)
  with wf0 have wf: "wf_db p db'" by (simp add: wf_db_def db' order_ids_def)
  have "\<exists>order'. order_at db' oid = Some order' \<and> same_terms order order' \<and> o_Status order' = o_Status order"
    if "order_at db oid = Some order" for order
    using that by (auto simp: order_at_def db' order_of_rows_def same_terms_def)
  with e wf at show ?thesis by (auto simp: edits_def db') (metis same_terms_trans)
qed

end
