(* ===== verification/Pg_Methods.thy ===== *)
theory Pg_Methods
  imports Pg_Ledger
begin

text \<open>
  What the statements and the methods of \<open>internal/postgres/store.go\<close> that act on an existing order
  do to the ledger, proved with triples along the bodies of their transactions.
\<close>

subsection \<open>Statements\<close>

lemma frame_statements:
  "take_stock m sku n at db = Inr (x, db') \<Longrightarrow> same_ledger db db'"
  "upsert_reservation p rv db = Inr (u, db') \<Longrightarrow> same_ledger db db'"
  "return_stock oid at db = Inr (u, db') \<Longrightarrow> same_ledger db db'"
  "release_reservations oid at db = Inr (u, db') \<Longrightarrow> same_ledger db db'"
  "void_authorizations oid at db = Inr (u, db') \<Longrightarrow> same_ledger db db'"
  "upsert_authorization p au db = Inr (u, db') \<Longrightarrow> same_ledger db db'"
  "upsert_notification p nt db = Inr (u, db') \<Longrightarrow> same_ledger db db'"
  "upsert_compensation p cp db = Inr (u, db') \<Longrightarrow> same_ledger db db'"
  "insert_merchant p m db = Inr (k, db') \<Longrightarrow> same_ledger db db'"
  by (auto simp: same_ledger_def take_stock_def upsert_reservation_def return_stock_def release_reservations_def
      void_authorizations_def upsert_authorization_def upsert_notification_def upsert_compensation_def
      insert_merchant_def split: option.splits if_splits)

lemma preserves_frame:
  "(\<And>db x db'. f db = Inr (x, db') \<Longrightarrow> same_ledger db db') \<Longrightarrow> preserves (edits p oid T db0) (statement f)"
  by (rule triple_statement) (rule edits_same_ledger)

lemma preserves_frames:
  "preserves (edits p oid T db0) (statement (take_stock m sku n at))"
  "preserves (edits p oid T db0) (statement (upsert_reservation q rv))"
  "preserves (edits p oid T db0) (statement (return_stock oid' at))"
  "preserves (edits p oid T db0) (statement (release_reservations oid' at))"
  "preserves (edits p oid T db0) (statement (void_authorizations oid' at))"
  "preserves (edits p oid T db0) (statement (upsert_authorization q au))"
  "preserves (edits p oid T db0) (statement (upsert_notification q nt))"
  "preserves (edits p oid T db0) (statement (upsert_compensation q cp))"
  by (rule preserves_frame, erule frame_statements)+

lemma preserves_update_items:
  "(\<And>i. P i \<Longrightarrow> it_order_id i = oid) \<Longrightarrow> preserves (edits p oid T db0) (statement (update_items P status))"
  by (rule triple_statement) (rule edits_update_items)

lemma preserves_upsert_shipment:
  "sw_order_id row = oid \<Longrightarrow> preserves (edits p oid T db0) (statement (upsert_shipment p row))"
  by (rule triple_statement) (rule edits_upsert_shipment)

lemma preserves_update_order:
  assumes "\<And>r. same_columns r (f r)" "\<And>r. ow_status (f r) = ow_status r"
  shows "preserves (edits p oid T db0) (update_order p msg oid f)"
  unfolding update_order_def
  by (intro triple_wrapped triple_statement) (erule edits_update_orders, use assms in auto)

lemma triple_move_order:
  assumes "\<And>r. same_columns r (f r)" "\<And>r. ow_status (f r) = status"
  shows "triple (edits p oid (\<lambda>a b. b = a \<and> CanTransitionOrderStatus a status) db0) (update_order p msg oid f)
    (\<lambda>_. edits p oid (moves_to status) db0)"
  unfolding update_order_def
  by (intro triple_wrapped triple_statement) (erule edits_update_orders, use assms in \<open>auto simp: moves_to_def\<close>)

lemma same_columns_updates [simp]: "same_columns r (with_status st at r)" "same_columns r (touched at r)"
  by (simp_all add: same_columns_def with_status_def touched_def)

lemma with_status_status [simp]: "ow_status (with_status st at r) = st" "ow_status (touched at r) = ow_status r"
  by (simp_all add: with_status_def touched_def)

lemma preserves_void: "preserves (edits p oid T db0) (voidAuthorizedPayment p oid at)"
proof -
  have "preserves (edits p oid T db0) (statement (update_orders p
      (\<lambda>r. ow_order_id r = oid \<and> ow_payment_status r = Some ''authorized'') (\<lambda>r. r\<lparr>ow_payment_status := Some ''voided''\<rparr>)))"
    by (rule triple_statement, erule edits_update_orders, assumption) (auto simp: same_columns_def)
  then show ?thesis unfolding voidAuthorizedPayment_def
    by (intro preserves_intros preserves_frames)
qed

lemma preserves_release: "preserves (edits p oid T db0) (releaseReservedStock oid at)"
  unfolding releaseReservedStock_def releaseInventoryItems_def
  by (intro preserves_intros preserves_frames preserves_update_items) auto

lemma preserves_effects: "preserves (edits p (e_OrderID source) T db0) (applyCompensationEffects p source at)"
  unfolding applyCompensationEffects_def
  by (intro preserves_intros preserves_release preserves_void)

lemma preserves_reserve_item: "preserves (edits p oid T db0) (reserveInventoryItem m oid item at)"
  unfolding reserveInventoryItem_def
  by (intro preserves_intros preserves_frames)

lemma preserves_reserve: "preserves (edits p (e_OrderID source) T db0) (reserve_and_record p source at item)"
  unfolding reserve_and_record_def
  by (intro preserves_intros preserves_reserve_item preserves_frames)

lemma preserves_items: "preserves I (orderItemsForReservation oid)"
  unfolding orderItemsForReservation_def by (intro preserves_intros)

text \<open>The steps of the methods, as rules for sequencing.\<close>

lemmas edit_steps = preserves_items [THEN triple_bind] preserves_reserve [THEN preserves_fold, THEN triple_bind]
  preserves_update_items [THEN triple_wrapped, THEN triple_bind] preserves_frames [THEN triple_wrapped, THEN triple_bind]
  preserves_upsert_shipment [THEN triple_wrapped, THEN triple_bind] preserves_release [THEN triple_bind]
  preserves_void [THEN triple_bind] preserves_effects [THEN triple_bind]

lemmas move_step = triple_move_order [THEN triple_bind]
lemmas touch_step = preserves_update_order [THEN triple_bind]

subsection \<open>Reading the order\<close>

lemma triple_lock:
  assumes "wf_db p db0"
  shows "triple (\<lambda>db. db = db0) (lockOrderStatusForUpdate oid) (\<lambda>cur. edits p oid (\<lambda>a b. b = a \<and> a = cur) db0)"
  unfolding lockOrderStatusForUpdate_def
  by (rule triple_read) (use assms in \<open>auto intro!: triple_raise triple_ret simp: edits_def order_at_def split: option.splits\<close>)

lemma triple_check:
  "triple (edits p oid (\<lambda>a b. b = a \<and> a = cur) db0) (check_transition cur status)
     (\<lambda>_. edits p oid (\<lambda>a b. b = a \<and> CanTransitionOrderStatus a status) db0)"
  unfolding check_transition_def
  by (auto intro!: triple_raise triple_ret simp: ValidateOrderTransition_def edits_def split: option.splits if_splits)

lemma triple_get:
  "triple I (getOrderTx oid) (\<lambda>order db. I db \<and> order_at db oid = Some order)"
  unfolding getOrderTx_def
proof (rule triple_read)
  fix row
  show "triple (\<lambda>db. I db \<and> find (\<lambda>q. ow_order_id q = oid) (orders_t db) = row)
     (case row of None \<Rightarrow> raise_op ErrNotFound
      | Some r \<Rightarrow> bind_op (wrapped ''get order items'' (query (\<lambda>db. filter (\<lambda>i. it_order_id i = oid) (order_items db))))
            (\<lambda>items. bind_op (wrapped ''get shipment'' (query (\<lambda>db. find (\<lambda>h. sw_order_id h = oid) (shipments db))))
              (\<lambda>shipment. ret_op (order_of_rows r items shipment))))
     (\<lambda>order db. I db \<and> order_at db oid = Some order)"
  proof (cases row)
    case (Some r)
    show ?thesis unfolding Some option.case
      by (intro triple_read triple_ret) (auto simp: order_at_def)
  qed (simp add: triple_raise)
qed

lemma triple_get_start:
  assumes "wf_db p db0"
  shows "triple (\<lambda>db. db = db0) (getOrderTx oid) (\<lambda>_. edits p oid keeps db0)"
  by (rule triple_conseq [OF triple_get [where I = "\<lambda>db. db = db0"]])
    (use assms in \<open>auto simp: edits_def keeps_def\<close>)

lemma preserves_get: "preserves I (getOrderTx oid)"
  by (rule triple_conseq [OF triple_get [of I]]) auto

lemma triple_move:
  assumes "wf_db p db0" "triple (edits p oid (\<lambda>a b. b = a \<and> CanTransitionOrderStatus a status) db0) m Q"
  shows "triple (\<lambda>db. db = db0)
    (bind_op (lockOrderStatusForUpdate oid) (\<lambda>cur. bind_op (check_transition cur status) (\<lambda>_. m))) Q"
  by (rule triple_bind [OF triple_lock [OF assms(1)]], rule triple_bind [OF triple_check assms(2)])

subsection \<open>Appending to the logs\<close>

lemma event_of_row_default [simp]: "WithEnvelopeDefaults (event_of_row p r) = event_of_row p r"
  by (simp add: event_of_row_def)

lemma event_key_of_row:
  "event_key (event_of_row p r) = (xb_message_id r, xb_event_type r, xb_order_id r, xb_merchant_id r, xb_correlation_id r,
     if xb_causation_id r = [] then xb_message_id r else xb_causation_id r)"
  by (simp add: event_of_row_def event_key_def zero_event_def)

lemma audit_key_of_row:
  "audit_key (audit_of_row p r) = (al_merchant_id r, null_string (al_order_id r), al_actor_type r, al_actor_id r,
     al_action r, al_correlation_id r, al_created_at r div 1000)"
  by (simp add: audit_of_row_def audit_key_def)

text \<open>The ledger after rows were appended to an edited database.\<close>

definition with_logs :: "outbox_row list \<Rightarrow> audit_row list \<Rightarrow> database \<Rightarrow> database" where
  "with_logs rows logs db = db\<lparr>outbox_events := outbox_events db @ rows, audit_logs := audit_logs db @ logs\<rparr>"

lemma with_logs_simps [simp]:
  "order_at (with_logs rows logs db) = order_at db" "wf_db p (with_logs rows logs db) = wf_db p db"
  "outbox_events (with_logs rows logs db) = outbox_events db @ rows"
  "audit_logs (with_logs rows logs db) = audit_logs db @ logs"
  "idempotency_keys (with_logs rows logs db) = idempotency_keys db"
  by (simp_all add: with_logs_def order_at_def wf_db_def order_ids_def fun_eq_iff)

lemma with_logs_twice: "with_logs rows' logs' (with_logs rows logs db) = with_logs (rows @ rows') (logs @ logs') db"
  by (simp add: with_logs_def)

lemma recorded_edits:
  assumes "edits p oid T db0 db" "map (event_key \<circ> event_of_row p) rows = map event_key nexts"
    "audit_key (audit_of_row p log) = audit_key audit"
  shows "recorded oid T nexts audit (db_view p db0) (db_view p (with_logs rows [log] db))"
proof -
  from assms(1) obtain order order' where o: "order_at db0 oid = Some order" "order_at db oid = Some order'"
    "same_terms order order'" "T (o_Status order) (o_Status order')" and other: "\<And>x. x \<noteq> oid \<Longrightarrow> order_at db x = order_at db0 x"
    and logs: "outbox_events db = outbox_events db0" "audit_logs db = audit_logs db0"
    by (auto simp: edits_def)
  have "order_at db = (order_at db0)(oid \<mapsto> order')" using o(2) other by (auto simp: fun_eq_iff)
  with o logs assms(2,3) show ?thesis
    unfolding recorded_def
    by (intro exI [of _ order] exI [of _ order'] exI [of _ "map (event_of_row p) rows"])
      (simp add: db_view_def list_all_iff comp_def)
qed

lemma outbox_row_inserted:
  assumes "insert_outbox_row p r db = Inr (u, db')"
  shows "\<exists>document. db' = with_logs [r\<lparr>xb_payload := document\<rparr>] [] db"
  using assms by (auto simp: insert_outbox_row_def with_logs_def split: sum.splits)

lemma audit_row_inserted:
  assumes "insert_audit_row p r db = Inr (u, db')"
  shows "\<exists>document. db' = with_logs [] [r\<lparr>al_details := document\<rparr>] db"
  using assms by (auto simp: insert_audit_row_def with_logs_def split: sum.splits)

lemma event_key_row [simp]:
  "event_key (event_of_row p ((row_of_event (WithEnvelopeDefaults e) payload)\<lparr>xb_payload := document\<rparr>)) = event_key e"
  unfolding event_key_of_row by (simp add: row_of_event_def event_key_def)

lemma timestamptz_div [simp]: "timestamptz t div 1000 = t div 1000"
  by (simp add: timestamptz_def)

lemma audit_key_row [simp]:
  "audit_key (audit_of_row p ((row_of_audit a details)\<lparr>al_details := document\<rparr>)) = audit_key a"
  unfolding audit_key_of_row by (simp add: row_of_audit_def audit_key_def)

lemma triple_outbox:
  "triple (\<lambda>db. db = db1) (insertOutboxEvent p e)
     (\<lambda>_ db. \<exists>row. event_key (event_of_row p row) = event_key e \<and> db = with_logs [row] [] db1)"
  unfolding insertOutboxEvent_def Let_def
  by (rule triple_bind [where R = "\<lambda>_ db. db = db1"], rule triple_lift, assumption, intro triple_wrapped triple_statement)
    (metis event_key_row outbox_row_inserted)

lemma triple_audit:
  "triple (\<lambda>db. db = db1) (insertAuditLog p a)
     (\<lambda>_ db. \<exists>log. audit_key (audit_of_row p log) = audit_key a \<and> db = with_logs [] [log] db1)"
  unfolding insertAuditLog_def
  by (rule triple_bind [where R = "\<lambda>_ db. db = db1"], rule triple_lift, assumption, intro triple_wrapped triple_statement)
    (metis audit_key_row audit_row_inserted)

definition logged :: "pg_params \<Rightarrow> string \<Rightarrow> (OrderStatus \<Rightarrow> OrderStatus \<Rightarrow> bool) \<Rightarrow> OutboxEvent list \<Rightarrow> AuditLog
    \<Rightarrow> database \<Rightarrow> database \<Rightarrow> bool" where
  "logged p oid T nexts audit db0 db \<longleftrightarrow> wf_db p db \<and> idempotency_keys db = idempotency_keys db0 \<and>
     recorded oid T nexts audit (db_view p db0) (db_view p db)"

lemma triple_at: "(\<And>db1. P db1 \<Longrightarrow> triple (\<lambda>db. db = db1) m Q) \<Longrightarrow> triple P m Q"
  unfolding triple_def by blast

lemma triple_log_audit: "triple (edits p oid T db0) (insertAuditLog p a) (\<lambda>_. logged p oid T [] a db0)"
  by (rule triple_at, rule triple_conseq [OF triple_audit])
    (auto simp: logged_def edits_def intro: recorded_edits [where rows = "[]", simplified])

lemma triple_append_logs:
  "triple (\<lambda>db. db = db1) (append_logs p e a)
     (\<lambda>_ db. \<exists>row log. event_key (event_of_row p row) = event_key e \<and> audit_key (audit_of_row p log) = audit_key a \<and>
        db = with_logs [row] [log] db1)"
  unfolding append_logs_def
  by (rule triple_bind [OF triple_outbox], rule triple_at, elim exE conjE, rule triple_conseq [OF triple_audit])
    (auto simp: with_logs_twice intro!: exI)

lemma triple_log:
  assumes "event_key e' = event_key e"
  shows "triple (edits p oid T db0) (append_logs p e' a) (\<lambda>_. logged p oid T [e] a db0)"
  by (rule triple_at, rule triple_conseq [OF triple_append_logs])
    (use assms in \<open>auto simp: logged_def edits_def intro!: recorded_edits\<close>)

subsection \<open>The methods\<close>

lemma pg_step:
  assumes "pg_inv p s" "transaction b c body s = (r, s')" "honest body"
    "\<And>db0. wf_db p db0 \<Longrightarrow> triple (\<lambda>db. db = db0) body (\<lambda>_. logged p oid T nexts audit db0)"
  shows "pg_inv p s' \<and> outcome r oid T nexts audit (pg_view p s) (pg_view p s')"
proof -
  from assms(1) have s: "pg_faults s = []" "wf_db p (pg_db s)" by (simp_all add: pg_inv_def)
  from transaction_run [OF assms(3) assms(4) [OF s(2)] assms(2) s(1)] assms(1) show ?thesis
    by (cases r) (auto simp: pg_inv_def pg_view_def logged_def)
qed

lemma pg_inventory_reserved:
  "pg_inv p s \<Longrightarrow> pg_RecordInventoryReserved p source nxt audit s = (r, s') \<Longrightarrow>
   pg_inv p s' \<and> outcome r (e_OrderID source) (moves_to StatusInventoryReserved) [nxt] audit (pg_view p s) (pg_view p s')"
  unfolding pg_RecordInventoryReserved_def
  by (erule pg_step, assumption, blast, erule triple_move) (intro edit_steps move_step triple_log; simp)

lemma pg_inventory_rejected:
  "pg_inv p s \<Longrightarrow> pg_RecordInventoryRejected p source nxt audit s = (r, s') \<Longrightarrow>
   pg_inv p s' \<and> outcome r (e_OrderID source) keeps [nxt] audit (pg_view p s) (pg_view p s')"
  unfolding pg_RecordInventoryRejected_def
  by (erule pg_step, assumption, blast, erule triple_get_start [THEN triple_bind])
    (intro edit_steps touch_step triple_log; simp)

lemma pg_payment_authorized:
  "pg_inv p s \<Longrightarrow> pg_RecordPaymentAuthorized p source nxt payment audit s = (r, s') \<Longrightarrow>
   pg_inv p s' \<and> outcome r (e_OrderID source) (moves_to StatusPaymentAuthorized) [nxt] audit (pg_view p s) (pg_view p s')"
  unfolding pg_RecordPaymentAuthorized_def Let_def
  by (erule pg_step, assumption, blast, erule triple_move, rule triple_bind [OF triple_wrapped [OF preserves_query]])
    (auto intro!: edit_steps move_step triple_log triple_raise simp: same_columns_def with_status_def split: option.splits)

lemma pg_shipment_created:
  "pg_inv p s \<Longrightarrow> pg_RecordShipmentCreated p source nxt shipment audit s = (r, s') \<Longrightarrow>
   pg_inv p s' \<and> outcome r (e_OrderID source) (moves_to StatusShipmentCreated) [nxt] audit (pg_view p s) (pg_view p s')"
  unfolding pg_RecordShipmentCreated_def
  by (erule pg_step, assumption, blast, erule triple_move)
    (intro preserves_get [THEN triple_bind] edit_steps move_step triple_log; simp)

lemma pg_shipment_failed:
  "pg_inv p s \<Longrightarrow> pg_RecordShipmentFailed p source nxt audit s = (r, s') \<Longrightarrow>
   pg_inv p s' \<and> outcome r (e_OrderID source) keeps [nxt] audit (pg_view p s) (pg_view p s')"
  unfolding pg_RecordShipmentFailed_def
  by (erule pg_step, assumption, blast, erule triple_get_start [THEN triple_bind])
    (intro touch_step triple_log; simp)

lemma pg_order_cancelled:
  "pg_inv p s \<Longrightarrow> pg_RecordOrderCancelled p source nxt audit s = (r, s') \<Longrightarrow>
   pg_inv p s' \<and> outcome r (e_OrderID source) (moves_to StatusCancelled) [nxt] audit (pg_view p s) (pg_view p s')"
  unfolding pg_RecordOrderCancelled_def
  by (erule pg_step, assumption, blast, erule triple_move, rule move_step)
    (auto intro!: edit_steps triple_log triple_raise)

lemma pg_notification_queued:
  "pg_inv p s \<Longrightarrow> pg_RecordNotificationQueued p source audit s = (r, s') \<Longrightarrow>
   pg_inv p s' \<and> outcome r (e_OrderID source) keeps [] audit (pg_view p s) (pg_view p s')"
  unfolding pg_RecordNotificationQueued_def
  by (erule pg_step, assumption, blast, erule triple_get_start [THEN triple_bind])
    (intro edit_steps triple_log_audit)

lemma pg_compensation:
  "pg_inv p s \<Longrightarrow> pg_RecordCompensation p source status audit s = (r, s') \<Longrightarrow>
   pg_inv p s' \<and> outcome r (e_OrderID source) (moves_to status) [] audit (pg_view p s) (pg_view p s')"
  unfolding pg_RecordCompensation_def
  by (erule pg_step, assumption, blast, erule triple_move, rule move_step)
    (auto intro!: edit_steps triple_log_audit triple_raise)

lemma pg_payment_failed:
  "pg_inv p s \<Longrightarrow> pg_RecordPaymentFailed p source nxt audit s = (r, s') \<Longrightarrow>
   pg_inv p s' \<and> outcome r (e_OrderID source) keeps [nxt] audit (pg_view p s) (pg_view p s')"
  unfolding pg_RecordPaymentFailed_def Let_def
proof (erule pg_step, assumption, blast, rule triple_read)
  fix db0 row
  assume wf: "wf_db p db0"
  show "triple (\<lambda>db. db = db0 \<and> find (\<lambda>q. ow_order_id q = e_OrderID source) (orders_t db) = row)
     (case row of None \<Rightarrow> raise_op ErrNotFound
      | Some r \<Rightarrow> bind_op (update_order p ''update order payment failure'' (e_OrderID source)
              (\<lambda>ra. (touched (e_OccurredAt nxt) ra)\<lparr>ow_payment_provider := Some (coalesce [ow_payment_provider r] ''fake-payment''),
                 ow_payment_status := Some ''failed'', ow_payment_authorization_id := None\<rparr>)) (\<lambda>_.
           append_logs p (nxt\<lparr>e_Payload := failurePayload ''payment'' (mapstr (a_Details audit) ''error'')\<rparr>) audit))
     (\<lambda>_. logged p (e_OrderID source) keeps [nxt] audit db0)"
  proof (cases row)
    case (Some r)
    have start: "edits p (e_OrderID source) keeps db0 db0" if "find (\<lambda>q. ow_order_id q = e_OrderID source) (orders_t db0) = Some r"
      using wf that by (simp add: edits_def keeps_def order_at_def)
    show ?thesis unfolding Some option.case
      by (rule triple_pre [where P = "edits p (e_OrderID source) keeps db0"], intro touch_step triple_log)
        (auto simp: same_columns_def touched_def start)
  qed (simp add: triple_raise)
qed

text \<open>\<open>UpdateOrderStatus\<close> also returns the order as it is stored.\<close>

lemma pg_update_triple:
  assumes "wf_db p db0"
  shows "triple (\<lambda>db. db = db0) (bind_op (lockOrderStatusForUpdate oid) (\<lambda>currentStatus.
        bind_op (check_transition currentStatus status) (\<lambda>_.
        bind_op (update_order p ''update order status'' oid (with_status status now)) (\<lambda>rows.
        if rows = 0 then raise_op ErrNotFound else
        bind_op (append_logs p (event\<lparr>e_Payload := OrderStatusEventPayload status now audit (e_Payload event)\<rparr>) audit) (\<lambda>_.
        getOrderTx oid)))))
     (\<lambda>order db. logged p oid (moves_to status) [event] audit db0 db \<and> order_at db oid = Some order)"
  by (rule triple_move [OF assms], rule move_step, simp, simp, rule triple_if, rule triple_raise,
      rule triple_bind [OF triple_log], simp, rule triple_get)

lemma pg_update_status:
  assumes "pg_inv p s" "pg_UpdateOrderStatus p oid status now event audit s = (r, s')"
  shows "pg_inv p s' \<and> outcome r oid (moves_to status) [event] audit (pg_view p s) (pg_view p s') \<and>
    (\<forall>order. r = Inr order \<longrightarrow> order_at (pg_db s') oid = Some order)"
proof -
  from assms(1) have s: "pg_faults s = []" "wf_db p (pg_db s)" by (simp_all add: pg_inv_def)
  have "honest (bind_op (lockOrderStatusForUpdate oid) (\<lambda>currentStatus.
        bind_op (check_transition currentStatus status) (\<lambda>_.
        bind_op (update_order p ''update order status'' oid (with_status status now)) (\<lambda>rows.
        if rows = 0 then raise_op ErrNotFound else
        bind_op (append_logs p (event\<lparr>e_Payload := OrderStatusEventPayload status now audit (e_Payload event)\<rparr>) audit) (\<lambda>_.
        getOrderTx oid)))))" by blast
  from transaction_run [OF this pg_update_triple [OF s(2)] assms(2) [unfolded pg_UpdateOrderStatus_def] s(1)] assms(1)
  show ?thesis by (cases r) (auto simp: pg_inv_def pg_view_def logged_def)
qed

end
