(* ===== verification/Pg_Contract.thy ===== *)
theory Pg_Contract
  imports Pg_Methods
begin

text \<open>
  The PostgreSQL store meets the contracts of \<open>Store_Interface\<close>: insertion of an order with its items,
  key, event and audit log, what the store accepts, and the interpretations of the locales for
  every encoding and planner.
\<close>

subsection \<open>Insertion\<close>

definition stored_row :: "string \<Rightarrow> Order \<Rightarrow> order_row" where
  "stored_row m order = (row_of_order m order)\<lparr>ow_currency := bpchar3 (o_Currency order)\<rparr>"

definition stored_item :: "string \<Rightarrow> OrderItem \<Rightarrow> item_row" where
  "stored_item oid item =
     (row_of_item oid item)\<lparr>it_unit_price_currency := bpchar3 (m_Currency (i_UnitPrice item))\<rparr>"

definition stored_key :: "string \<Rightarrow> string \<Rightarrow> string \<Rightarrow> key_row" where
  "stored_key m k oid = \<lparr>ik_merchant_id = m, ik_idempotency_key = k, ik_order_id = oid\<rparr>"

definition with_order :: "string \<Rightarrow> Order \<Rightarrow> OrderItem list \<Rightarrow> key_row list \<Rightarrow> database \<Rightarrow> database" where
  "with_order m order items keys db = db\<lparr>orders_t := orders_t db @ [stored_row m order],
     order_items := order_items db @ map (stored_item (o_OrderID order)) items,
     idempotency_keys := idempotency_keys db @ keys\<rparr>"

lemma stored_simps [simp]:
  "ow_order_id (stored_row m order) = o_OrderID order" "ow_merchant_id (stored_row m order) = m"
  "ow_external_order_id (stored_row m order) = o_ExternalOrderID order" "ow_status (stored_row m order) = o_Status order"
  "it_order_id (stored_item oid item) = oid" "ik_order_id (stored_key m k oid) = oid"
  by (simp_all add: stored_row_def row_of_order_def stored_item_def row_of_item_def stored_key_def)

lemma insert_order_row_Inr:
  "insert_order_row p (row_of_order m order) db = Inr (u, db') \<longleftrightarrow>
     text_ok p (o_Currency order) \<and> fits3 (o_Currency order) \<and> list_all fst (order_checks p (row_of_order m order)) \<and>
     o_OrderID order \<notin> order_ids db \<and>
     (\<forall>q\<in>set (orders_t db). \<not> (ow_merchant_id q = m \<and> ow_external_order_id q = o_ExternalOrderID order)) \<and>
     m \<in> set (merchants db) \<and> db' = with_order m order [] [] db"
  by (auto simp: insert_order_row_def with_order_def stored_row_def list_ex_iff order_ids_def row_of_order_def image_iff
      texts_ok_def)

lemma order_at_with_order:
  assumes "wf_db p db" "o_OrderID order \<notin> order_ids db"
  shows "order_at (with_order m order items keys db) = (order_at db)(o_OrderID order \<mapsto>
    order_of_rows (stored_row m order) (map (stored_item (o_OrderID order)) items) None)"
proof
  fix x
  have none: "filter (\<lambda>i. it_order_id i = o_OrderID order) (order_items db) = []"
    "find (\<lambda>h. sw_order_id h = o_OrderID order) (shipments db) = None"
    "find (\<lambda>q. ow_order_id q = o_OrderID order) (orders_t db) = None"
    using assms order_at_None [of db "o_OrderID order"]
    by (auto simp: wf_db_def filter_empty_conv order_at_def intro!: find_None_all dest!: bspec)
  have "filter (\<lambda>i. it_order_id i = x) (map (stored_item (o_OrderID order)) items) =
      (if x = o_OrderID order then map (stored_item (o_OrderID order)) items else [])"
    by (auto simp: filter_empty_conv)
  then show "order_at (with_order m order items keys db) x = ((order_at db)(o_OrderID order \<mapsto>
      order_of_rows (stored_row m order) (map (stored_item (o_OrderID order)) items) None)) x"
    using none by (auto simp: order_at_def with_order_def find_append split: option.splits)
qed

lemma order_checks_stored [simp]: "order_checks p (stored_row m order) = order_checks p (row_of_order m order)"
  by (simp add: order_checks_def stored_row_def row_of_order_def)

lemma wf_with_order:
  assumes "wf_db p db" "o_OrderID order \<notin> order_ids db" "list_all fst (order_checks p (row_of_order m order))"
    "\<forall>k\<in>set keys. ik_order_id k = o_OrderID order"
  shows "wf_db p (with_order m order items keys db)"
  using assms by (auto simp: wf_db_def with_order_def order_ids_def image_iff)

lemma with_order_simps [simp]:
  "outbox_events (with_order m order items keys db) = outbox_events db"
  "audit_logs (with_order m order items keys db) = audit_logs db"
  "idempotency_keys (with_order m order items keys db) = idempotency_keys db @ keys"
  "merchants (with_order m order items keys db) = merchants db"
  "order_ids (with_order m order items keys db) = insert (o_OrderID order) (order_ids db)"
  by (simp_all add: with_order_def order_ids_def)

text \<open>What the statements of a new order leave, when they all succeed.\<close>

definition inserted_as :: "pg_params \<Rightarrow> string \<Rightarrow> string \<Rightarrow> Order \<Rightarrow> OutboxEvent \<Rightarrow> AuditLog \<Rightarrow> database \<Rightarrow> database \<Rightarrow> bool" where
  "inserted_as p m k order event audit db0 db \<longleftrightarrow> (\<exists>db1 row log. same_ledger db0 db1 \<and>
     o_OrderID order \<notin> order_ids db0 \<and> list_all fst (order_checks p (row_of_order m order)) \<and>
     event_key (event_of_row p row) = event_key event \<and> audit_key (audit_of_row p log) = audit_key audit \<and>
     db = with_logs [row] [log] (with_order m order (o_Items order) [stored_key m k (o_OrderID order)] db1))"

lemma triple_insert_new_order:
  "triple (\<lambda>db. db = db0) (insert_new_order p m k order event audit)
     (\<lambda>_. inserted_as p m k order event audit db0)"
proof -
  let ?P = "\<lambda>items keys db. \<exists>db1. same_ledger db0 db1 \<and> o_OrderID order \<notin> order_ids db0 \<and>
      list_all fst (order_checks p (row_of_order m order)) \<and> db = with_order m order items keys db1"
  have merchant: "triple (\<lambda>db. db = db0) (upsertMerchant p m) (\<lambda>_. same_ledger db0)"
    unfolding upsertMerchant_def
    by (rule triple_bind [where R = "\<lambda>_. same_ledger db0"], intro triple_wrapped triple_statement)
      (auto intro: frame_statements triple_ret)
  have row: "triple (same_ledger db0) (catching h (statement (insert_order_row p (row_of_order m order)))) (\<lambda>_. ?P [] [])" for h
    by (intro triple_catching triple_statement)
      (auto simp: insert_order_row_Inr same_ledger_def order_ids_def)
  have item: "triple (?P items []) (wrapped ''insert order item'' (statement (insert_item_row p
      (row_of_item (o_OrderID order) item)))) (\<lambda>_. ?P (items @ [item]) [])" for items item
    by (intro triple_wrapped triple_statement)
      (fastforce simp: insert_item_row_def with_order_def stored_item_def row_of_item_def)
  have key: "triple (?P items []) (wrapped ''insert idempotency key'' (statement (insert_key_row p
      \<lparr>ik_merchant_id = m, ik_idempotency_key = k, ik_order_id = o_OrderID order\<rparr>)))
      (\<lambda>_. ?P items [stored_key m k (o_OrderID order)])" for items
    by (intro triple_wrapped triple_statement)
      (fastforce simp: insert_key_row_def with_order_def stored_key_def)
  show ?thesis unfolding insert_new_order_def
    by (rule triple_bind [OF merchant], rule triple_bind [OF row],
        rule triple_bind [OF triple_fold [where I = "\<lambda>items. ?P items []"]], rule item, rule triple_bind [OF key],
        rule triple_at, elim exE conjE, rule triple_conseq [OF triple_append_logs])
      (auto simp: inserted_as_def)
qed

lemma inserted_stored:
  assumes "wf_db p db0" "inserted_as p m k order event audit db0 db" "o_MerchantID order = m"
  shows "wf_db p db \<and> stored order event audit (db_view p db0) (db_view p db) \<and>
    idempotency_keys db = idempotency_keys db0 @ [stored_key m k (o_OrderID order)] \<and> shipments db = shipments db0"
proof -
  from assms(2) obtain db1 row log where same: "same_ledger db0 db1" and fresh: "o_OrderID order \<notin> order_ids db0"
    and checks: "list_all fst (order_checks p (row_of_order m order))"
    and keys: "event_key (event_of_row p row) = event_key event" "audit_key (audit_of_row p log) = audit_key audit"
    and db: "db = with_logs [row] [log] (with_order m order (o_Items order) [stored_key m k (o_OrderID order)] db1)"
    unfolding inserted_as_def by blast
  have wf1: "wf_db p db1" "o_OrderID order \<notin> order_ids db1" and at1: "order_at db1 = order_at db0"
    and logs1: "outbox_events db1 = outbox_events db0" "audit_logs db1 = audit_logs db0"
      "idempotency_keys db1 = idempotency_keys db0"
    using same same_ledger_wf [OF same, of p] assms(1) fresh
    by (simp_all add: same_ledger_def order_ids_def order_at_def fun_eq_iff)
  have "stored order event audit (db_view p db0) (db_view p db)"
    unfolding stored_def
    by (intro exI [of _ "order_of_rows (stored_row m order) (map (stored_item (o_OrderID order)) (o_Items order)) None"]
        exI [of _ "event_of_row p row"] exI [of _ "audit_of_row p log"])
      (simp add: db_view_def db order_at_with_order [OF wf1] at1 logs1 keys assms(3))
  moreover have "shipments db = shipments db0" using same by (simp add: db same_ledger_def with_logs_def with_order_def)
  ultimately show ?thesis
    using wf_with_order [OF wf1 checks, of "[stored_key m k (o_OrderID order)]" "o_Items order"] logs1 by (simp add: db)
qed

subsection \<open>InsertOrder\<close>

lemma getOrderTx_quiet:
  "getOrderTx oid (quiet db) = (case order_at db oid of None \<Rightarrow> (Inl ErrNotFound, quiet db) | Some order \<Rightarrow> (Inr order, quiet db))"
  by (simp add: getOrderTx_def bind_op_def op_simps order_at_def split: option.splits)

lemma orderByIdempotency_quiet:
  "orderByIdempotency m k (quiet db) = (Inr (pg_key_ref (quiet db) m k), quiet db)"
  by (simp add: orderByIdempotency_def pg_key_ref_def)

lemma pg_key_known:
  assumes "wf_db p db" "pg_key_ref (quiet db) m k = Some oid"
  shows "\<exists>order. order_at db oid = Some order"
proof -
  from assms(2) obtain r where "r \<in> set (idempotency_keys db)" "ik_order_id r = oid"
    by (auto simp: pg_key_ref_def dest: find_SomeD)
  with assms(1) have "oid \<in> order_ids db" by (auto simp: wf_db_def)
  with order_at_None [of db oid] show ?thesis by (cases "order_at db oid") auto
qed

lemma pg_insert_honest: "honest (bind_op (orderByIdempotency m k) (\<lambda>existing. case existing of
          Some existing \<Rightarrow> bind_op (getOrderTx existing) (\<lambda>order. ret_op (Some order, True))
        | None \<Rightarrow> bind_op (insert_new_order p m k order event audit) (\<lambda>_. ret_op (cloneOrder (Some order), False))))"
  by blast

lemma pg_insert_replay:
  assumes "pg_inv p s" "pg_key_ref s m k = Some oid"
  shows "\<exists>old. lg_orders (pg_view p s) oid = Some old \<and>
    pg_InsertOrder p m k order event audit s = (Inr (Some old, True), s)"
proof -
  from assms(1) have s: "s = quiet (pg_db s)" "wf_db p (pg_db s)" by (simp_all add: pg_inv_def)
  have key: "pg_key_ref (quiet (pg_db s)) m k = Some oid" using assms(2) by (simp add: pg_key_ref_def)
  from pg_key_known [OF s(2) key] obtain old where old: "order_at (pg_db s) oid = Some old" ..
  have "pg_InsertOrder p m k order event audit (quiet (pg_db s)) = (Inr (Some old, True), quiet (pg_db s))"
    unfolding pg_InsertOrder_def transaction_quiet [OF pg_insert_honest]
    by (simp add: bind_op_def orderByIdempotency_quiet key getOrderTx_quiet old op_simps)
  with s(1) old show ?thesis by (simp add: pg_view_def)
qed

lemma triple_insert:
  assumes "pg_key_ref (quiet db0) m k = None"
  shows "triple (\<lambda>db. db = db0) (bind_op (orderByIdempotency m k) (\<lambda>existing. case existing of
          Some existing \<Rightarrow> bind_op (getOrderTx existing) (\<lambda>order. ret_op (Some order, True))
        | None \<Rightarrow> bind_op (insert_new_order p m k order event audit) (\<lambda>_. ret_op (cloneOrder (Some order), False))))
     (\<lambda>x db. x = (Some order, False) \<and> inserted_as p m k order event audit db0 db)"
proof (rule triple_bind [where R = "\<lambda>x db. db = db0 \<and> x = None"])
  show "triple (\<lambda>db. db = db0) (orderByIdempotency m k) (\<lambda>x db. db = db0 \<and> x = None)"
    unfolding orderByIdempotency_def using assms
    by (intro triple_wrapped triple_query) (auto simp: pg_key_ref_def)
  fix x
  show "triple (\<lambda>db. db = db0 \<and> x = None) (case x of
          Some existing \<Rightarrow> bind_op (getOrderTx existing) (\<lambda>order. ret_op (Some order, True))
        | None \<Rightarrow> bind_op (insert_new_order p m k order event audit) (\<lambda>_. ret_op (cloneOrder (Some order), False)))
     (\<lambda>x db. x = (Some order, False) \<and> inserted_as p m k order event audit db0 db)"
  proof (cases x)
    case None
    show ?thesis unfolding None option.case
      by (rule triple_pre, rule triple_bind [OF triple_insert_new_order triple_ret]) simp_all
  qed (simp add: triple_def)
qed

lemma pg_insert_fresh:
  assumes "pg_inv p s" "pg_key_ref s m k = None" "o_MerchantID order = m"
    and run: "pg_InsertOrder p m k order event audit s = (r, s')"
  shows "pg_inv p s' \<and> (case r of Inl _ \<Rightarrow> s' = s
    | Inr result \<Rightarrow> result = (Some order, False) \<and> stored order event audit (pg_view p s) (pg_view p s') \<and>
        pg_key_ref s' m k = Some (o_OrderID order) \<and>
        idempotency_keys (pg_db s') = idempotency_keys (pg_db s) @ [stored_key m k (o_OrderID order)] \<and>
        shipments (pg_db s') = shipments (pg_db s))"
proof -
  from assms(1) have s: "pg_faults s = []" "wf_db p (pg_db s)" by (simp_all add: pg_inv_def)
  have key: "pg_key_ref (quiet (pg_db s)) m k = None" using assms(2) by (simp add: pg_key_ref_def)
  note t = transaction_run [OF pg_insert_honest triple_insert [OF key] run [unfolded pg_InsertOrder_def] s(1)]
  show ?thesis
  proof (cases r)
    case (Inl e)
    with t assms(1) show ?thesis by simp
  next
    case (Inr x)
    with t inserted_stored [OF s(2) _ assms(3)] have db: "x = (Some order, False)" "pg_faults s' = []" "wf_db p (pg_db s')"
      "stored order event audit (pg_view p s) (pg_view p s')"
      "idempotency_keys (pg_db s') = idempotency_keys (pg_db s) @ [stored_key m k (o_OrderID order)]"
      "shipments (pg_db s') = shipments (pg_db s)"
      by (auto simp: pg_view_def)
    moreover have "pg_key_ref s' m k = Some (o_OrderID order)"
      using key db(5) by (simp add: pg_key_ref_def find_append stored_key_def)
    ultimately show ?thesis using Inr by (simp add: pg_inv_def)
  qed
qed

subsection \<open>What the store accepts\<close>

definition item_fits :: "pg_params \<Rightarrow> OrderItem \<Rightarrow> bool" where
  "item_fits p item \<longleftrightarrow> int4 (sint (i_Quantity item)) \<and> 0 < sint (i_Quantity item) \<and>
     fits3 (m_Currency (i_UnitPrice item)) \<and> 0 \<le> sint (m_Amount (i_UnitPrice item)) \<and>
     list_all (text_ok p) [i_SKU item, m_Currency (i_UnitPrice item), i_ReservationStatus item] \<and>
     reservation_status_check (i_ReservationStatus item)"

definition document_of :: "pg_params \<Rightarrow> error + string \<Rightarrow> string option" where
  "document_of p r = (case r of Inl _ \<Rightarrow> None | Inr text \<Rightarrow> (case jsonb p text of Inl _ \<Rightarrow> None | Inr document \<Rightarrow> Some document))"

definition event_fits :: "pg_params \<Rightarrow> database \<Rightarrow> OutboxEvent \<Rightarrow> bool" where
  "event_fits p db event \<longleftrightarrow> document_of p (event_out p (WithEnvelopeDefaults event)) \<noteq> None \<and>
     list_all (text_ok p) [e_MessageID event, e_CorrelationID event, e_CausationID (WithEnvelopeDefaults event),
       e_EventType event, e_OrderID event, e_MerchantID event] \<and>
     \<not> list_ex (\<lambda>r. xb_message_id r = e_MessageID event) (outbox_events db)"

definition audit_fits :: "pg_params \<Rightarrow> AuditLog \<Rightarrow> bool" where
  "audit_fits p audit \<longleftrightarrow> document_of p (details_out p (a_Details audit)) \<noteq> None \<and>
     list_all (text_ok p) [a_MerchantID audit, a_ActorType audit, a_ActorID audit, a_Action audit, a_CorrelationID audit] \<and>
     (a_OrderID audit = [] \<or> text_ok p (a_OrderID audit))"

text \<open>Values that the columns hold exactly.\<close>

definition exact :: "pg_params \<Rightarrow> string \<Rightarrow> Order \<Rightarrow> OutboxEvent \<Rightarrow> AuditLog \<Rightarrow> bool" where
  "exact p m order event audit \<longleftrightarrow>
     order_of_rows (stored_row m order) (map (stored_item (o_OrderID order)) (o_Items order)) None = order \<and>
     (case document_of p (event_out p (WithEnvelopeDefaults event)) of None \<Rightarrow> True | Some document \<Rightarrow>
        event_of_row p (row_of_event (WithEnvelopeDefaults event) document) = WithEnvelopeDefaults event) \<and>
     (case document_of p (details_out p (a_Details audit)) of None \<Rightarrow> True | Some document \<Rightarrow>
        audit_of_row p (row_of_audit audit document) = audit)"

definition pg_storable :: "pg_params \<Rightarrow> pg \<Rightarrow> string \<Rightarrow> string \<Rightarrow> Order \<Rightarrow> OutboxEvent \<Rightarrow> AuditLog \<Rightarrow> bool" where
  "pg_storable p s m k order event audit \<longleftrightarrow> text_ok p m \<and> text_ok p k \<and> text_ok p (o_Currency order) \<and>
     fits3 (o_Currency order) \<and> list_all fst (order_checks p (row_of_order m order)) \<and>
     list_all (item_fits p) (o_Items order) \<and> distinct (map i_SKU (o_Items order)) \<and>
     e_OrderID event = o_OrderID order \<and> event_fits p (pg_db s) event \<and> audit_fits p audit \<and> exact p m order event audit"

definition pg_appendable :: "pg_params \<Rightarrow> pg \<Rightarrow> OutboxEvent \<Rightarrow> AuditLog \<Rightarrow> bool" where
  "pg_appendable p s event audit \<longleftrightarrow> (\<forall>payload. event_fits p (pg_db s) (event\<lparr>e_Payload := payload\<rparr>)) \<and> audit_fits p audit \<and>
     list_all (text_ok p) ValidOrderStatuses"

lemma document_of_Some: "document_of p r = Some document \<longleftrightarrow> (\<exists>text. r = Inr text \<and> jsonb p text = Inr document)"
  by (auto simp: document_of_def split: sum.splits)

lemma event_fits_cong: "outbox_events db = outbox_events db' \<Longrightarrow> event_fits p db e = event_fits p db' e"
  by (simp add: event_fits_def)

lemma insertOutboxEvent_quiet:
  assumes "event_fits p db event" "e_OrderID event \<in> order_ids db"
    "document_of p (event_out p (WithEnvelopeDefaults event)) = Some document"
  shows "insertOutboxEvent p event (quiet db) =
    (Inr (), quiet (with_logs [row_of_event (WithEnvelopeDefaults event) document] [] db))"
proof -
  from assms(3) obtain js where t: "event_out p (WithEnvelopeDefaults event) = Inr js" "jsonb p js = Inr document"
    by (auto simp: document_of_Some)
  have "insert_outbox_row p (row_of_event (WithEnvelopeDefaults event) js) db =
      Inr ((), with_logs [row_of_event (WithEnvelopeDefaults event) document] [] db)"
    using t(2) assms(1,2)
    by (auto simp: insert_outbox_row_def row_of_event_def event_fits_def texts_ok_def with_logs_def list_ex_iff order_ids_def)
  with t(1) show ?thesis
    by (simp add: insertOutboxEvent_def bind_op_def op_simps) (rule wrapped_quiet, simp)
qed

lemma insertAuditLog_quiet:
  assumes "audit_fits p audit" "document_of p (details_out p (a_Details audit)) = Some document"
  shows "insertAuditLog p audit (quiet db) = (Inr (), quiet (with_logs [] [row_of_audit audit document] db))"
proof -
  from assms(2) obtain js where t: "details_out p (a_Details audit) = Inr js" "jsonb p js = Inr document"
    by (auto simp: document_of_Some)
  have "insert_audit_row p (row_of_audit audit js) db = Inr ((), with_logs [] [row_of_audit audit document] db)"
    using t(2) assms(1)
    by (auto simp: insert_audit_row_def row_of_audit_def audit_fits_def texts_ok_def with_logs_def nullableString_def)
  with t(1) show ?thesis
    by (simp add: insertAuditLog_def bind_op_def op_simps) (rule wrapped_quiet, simp)
qed

lemma append_logs_quiet:
  assumes "event_fits p db event" "audit_fits p audit" "e_OrderID event \<in> order_ids db"
  obtains row log where "append_logs p event audit (quiet db) = (Inr (), quiet (with_logs [row] [log] db))"
    "exact p m order event audit \<Longrightarrow> event_of_row p row = WithEnvelopeDefaults event \<and> audit_of_row p log = audit"
proof -
  from assms(1,2) obtain d1 d2 where d: "document_of p (event_out p (WithEnvelopeDefaults event)) = Some d1"
    "document_of p (details_out p (a_Details audit)) = Some d2" by (auto simp: event_fits_def audit_fits_def)
  have "append_logs p event audit (quiet db) = (Inr (), quiet (with_logs
      [row_of_event (WithEnvelopeDefaults event) d1] [row_of_audit audit d2] db))"
    by (simp add: append_logs_def bind_op_def insertOutboxEvent_quiet [OF assms(1,3) d(1)]
        insertAuditLog_quiet [OF assms(2) d(2)] with_logs_twice)
  then show thesis by (rule that) (simp add: exact_def d)
qed

subsection \<open>Accepted insertions\<close>

lemma upsertMerchant_quiet:
  assumes "text_ok p m"
  obtains db1 where "upsertMerchant p m (quiet db) = (Inr (), quiet db1)" "same_ledger db db1" "m \<in> set (merchants db1)"
proof -
  define db1 where "db1 = (if m \<in> set (merchants db) then db else db\<lparr>merchants := merchants db @ [m]\<rparr>)"
  have "insert_merchant p m db = Inr (if m \<in> set (merchants db) then 0 else 1, db1)"
    using assms by (auto simp: insert_merchant_def texts_ok_def db1_def)
  then have "wrapped ''upsert merchant'' (statement (insert_merchant p m)) (quiet db) =
      (Inr (if m \<in> set (merchants db) then 0 else 1), quiet db1)" by (intro wrapped_quiet) simp
  then have "upsertMerchant p m (quiet db) = (Inr (), quiet db1)"
    by (simp add: upsertMerchant_def bind_op_def op_simps)
  then show thesis by (rule that) (auto simp: db1_def same_ledger_def)
qed

lemma insert_items_quiet:
  assumes "list_all (item_fits p) items" "distinct (map i_SKU (before @ items))" "text_ok p (o_OrderID order)"
    "\<forall>i\<in>set (order_items db). it_order_id i \<noteq> o_OrderID order"
  shows "\<exists>us. fold_op (\<lambda>item. wrapped ''insert order item'' (statement (insert_item_row p
      (row_of_item (o_OrderID order) item)))) items (quiet (with_order m order before [] db)) =
    (Inr us, quiet (with_order m order (before @ items) [] db))"
  using assms(1,2)
proof (induction items arbitrary: before)
  case (Cons item items)
  have "insert_item_row p (row_of_item (o_OrderID order) item) (with_order m order before [] db) =
      Inr ((), with_order m order (before @ [item]) [] db)"
    using Cons.prems assms(3,4)
    by (auto simp: insert_item_row_def item_fits_def row_of_item_def texts_ok_def with_order_def stored_item_def
        list_ex_iff image_iff)
  then have "wrapped ''insert order item'' (statement (insert_item_row p (row_of_item (o_OrderID order) item)))
      (quiet (with_order m order before [] db)) = (Inr (), quiet (with_order m order (before @ [item]) [] db))"
    by (intro wrapped_quiet) simp
  moreover from Cons.IH [of "before @ [item]"] Cons.prems obtain us where
    "fold_op (\<lambda>item. wrapped ''insert order item'' (statement (insert_item_row p (row_of_item (o_OrderID order) item))))
      items (quiet (with_order m order (before @ [item]) [] db)) = (Inr us, quiet (with_order m order (before @ item # items) [] db))"
    by auto
  ultimately show ?case by (simp add: bind_op_def op_simps)
qed (simp add: op_simps)

lemma pg_insert_quiet:
  assumes "pg_key_ref (quiet db) m k = None"
  shows "pg_InsertOrder p m k order event audit (quiet db) =
    (case insert_new_order p m k order event audit (quiet db) of
       (Inl e, _) \<Rightarrow> (Inl e, quiet db) | (Inr _, s) \<Rightarrow> (Inr (Some order, False), s))"
  unfolding pg_InsertOrder_def transaction_quiet [OF pg_insert_honest]
  by (simp add: bind_op_def orderByIdempotency_quiet assms op_simps split: prod.splits sum.splits)

lemma insert_key_quiet:
  assumes "pg_key_ref (quiet db) m k = None" "text_ok p m" "text_ok p k" "text_ok p (o_OrderID order)"
  shows "wrapped msg (statement (insert_key_row p \<lparr>ik_merchant_id = m, ik_idempotency_key = k,
      ik_order_id = o_OrderID order\<rparr>)) (quiet (with_order m order items [] db)) =
    (Inr (), quiet (with_order m order items [stored_key m k (o_OrderID order)] db))"
  using assms
  by (intro wrapped_quiet)
    (auto simp: insert_key_row_def texts_ok_def with_order_def stored_key_def pg_key_ref_def find_None_iff list_ex_iff
      demand.simps)

lemma storable_order_text: "list_all fst (order_checks p (row_of_order m order)) \<Longrightarrow> text_ok p (o_OrderID order)"
  by (simp add: order_checks_def texts_ok_def row_of_order_def)

lemma pg_insert_new:
  assumes "pg_inv p s" "pg_key_ref s m k = None" "pg_ext_ref s m (o_ExternalOrderID order) = None"
    "order_at (pg_db s) (o_OrderID order) = None" "pg_storable p s m k order event audit"
  shows "\<exists>s'. pg_InsertOrder p m k order event audit s = (Inr (Some order, False), s') \<and> pg_inv p s' \<and>
    pg_view p s' = insert_ledger order event audit (pg_view p s) \<and>
    pg_key_ref s' m k = Some (o_OrderID order) \<and> pg_ext_ref s' m (o_ExternalOrderID order) = Some (o_OrderID order)"
proof -
  let ?db = "pg_db s" and ?key = "stored_key m k (o_OrderID order)"
  from assms(1) have s: "s = quiet ?db" "wf_db p ?db" by (simp_all add: pg_inv_def)
  note ok = assms(5) [unfolded pg_storable_def]
  have oid: "o_OrderID order \<notin> order_ids ?db" "text_ok p (o_OrderID order)"
    using assms(4) order_at_None storable_order_text [of p m order] ok by auto
  obtain db1 where up: "upsertMerchant p m (quiet ?db) = (Inr (), quiet db1)" and same: "same_ledger ?db db1"
    and mer: "m \<in> set (merchants db1)" using upsertMerchant_quiet [of p m ?db] ok by blast
  have db1: "wf_db p db1" "o_OrderID order \<notin> order_ids db1" "order_at db1 = order_at ?db"
    "outbox_events db1 = outbox_events ?db" "audit_logs db1 = audit_logs ?db" "pg_key_ref (quiet db1) m k = None"
    "idempotency_keys db1 = idempotency_keys ?db" "orders_t db1 = orders_t ?db"
    using same same_ledger_wf [OF same, of p] s(2) oid assms(2)
    by (simp_all add: same_ledger_def order_ids_def order_at_def fun_eq_iff pg_key_ref_def)
  have "insert_order_row p (row_of_order m order) db1 = Inr ((), with_order m order [] [] db1)"
    using ok db1(2,8) mer assms(3) by (auto simp: insert_order_row_Inr pg_ext_ref_def find_None_iff)
  then have row: "catching h (statement (insert_order_row p (row_of_order m order))) (quiet db1) =
      (Inr (), quiet (with_order m order [] [] db1))" for h by (intro catching_quiet) simp
  have noitems: "\<forall>i\<in>set (order_items db1). it_order_id i \<noteq> o_OrderID order"
    using db1(1,2) by (auto simp: wf_db_def)
  obtain us where items: "fold_op (\<lambda>item. wrapped ''insert order item'' (statement (insert_item_row p
      (row_of_item (o_OrderID order) item)))) (o_Items order) (quiet (with_order m order [] [] db1)) =
      (Inr us, quiet (with_order m order (o_Items order) [] db1))"
    using insert_items_quiet [of p "o_Items order" "[]" order db1 m] ok oid(2) noitems by auto
  define db2 where "db2 = with_order m order (o_Items order) [?key] db1"
  note key = insert_key_quiet [OF db1(6), of p order "''insert idempotency key''" "o_Items order", folded db2_def]
  have "event_fits p db2 event" using ok db1(4) event_fits_cong [of db2 ?db p event] by (simp add: db2_def)
  then obtain rw lg where logs: "append_logs p event audit (quiet db2) = (Inr (), quiet (with_logs [rw] [lg] db2))"
    and ex: "exact p m order event audit \<Longrightarrow> event_of_row p rw = WithEnvelopeDefaults event \<and> audit_of_row p lg = audit"
    using append_logs_quiet [of p db2 event audit m order] ok by (auto simp: db2_def)
  have run: "insert_new_order p m k order event audit (quiet ?db) = (Inr (), quiet (with_logs [rw] [lg] db2))"
    using ok oid(2) by (simp add: insert_new_order_def bind_op_def up row items key logs)
  have key0: "pg_key_ref (quiet ?db) m k = None" using assms(2) by (simp add: pg_key_ref_def)
  have "pg_InsertOrder p m k order event audit s = (Inr (Some order, False), quiet (with_logs [rw] [lg] db2))"
    using pg_insert_quiet [OF key0, of p order event audit] run by (simp flip: s(1))
  moreover have "pg_inv p (quiet (with_logs [rw] [lg] db2))"
    using ok wf_with_order [OF db1(1,2)] by (simp add: pg_inv_def db2_def)
  moreover have "pg_view p (quiet (with_logs [rw] [lg] db2)) = insert_ledger order event audit (pg_view p s)"
    using ok ex db1(3-5) order_at_with_order [OF db1(1,2)]
    by (simp add: pg_view_def db_view_def insert_ledger_def db2_def exact_def)
  moreover have "pg_key_ref (quiet (with_logs [rw] [lg] db2)) m k = Some (o_OrderID order)"
    using db1(6) by (simp add: pg_key_ref_def db2_def find_append stored_key_def)
  moreover have "pg_ext_ref (quiet (with_logs [rw] [lg] db2)) m (o_ExternalOrderID order) = Some (o_OrderID order)"
    using assms(3) db1(8) by (simp add: pg_ext_ref_def db2_def with_order_def with_logs_def find_append)
  ultimately show ?thesis by blast
qed

lemma pg_insert_duplicate:
  assumes "pg_inv p s" "pg_key_ref s m k = None" "pg_ext_ref s m (o_ExternalOrderID order) = Some oid"
    "pg_storable p s m k order event audit"
  shows "pg_InsertOrder p m k order event audit s = (Inl ErrDuplicateOrder, s)"
proof -
  let ?db = "pg_db s"
  from assms(1) have s: "s = quiet ?db" by (simp add: pg_inv_def)
  note ok = assms(4) [unfolded pg_storable_def]
  obtain db1 where up: "upsertMerchant p m (quiet ?db) = (Inr (), quiet db1)" and same: "same_ledger ?db db1"
    using upsertMerchant_quiet [of p m ?db] ok by blast
  from assms(3) have "list_ex (\<lambda>q. ow_merchant_id q = m \<and> ow_external_order_id q = o_ExternalOrderID order) (orders_t db1)"
    using same by (auto simp: pg_ext_ref_def same_ledger_def list_ex_iff dest!: find_SomeD)
  moreover have "list_all fst ([texts_ok p [ow_currency (row_of_order m order)],
      (fits3 (ow_currency (row_of_order m order)), too_long)] @ order_checks p (row_of_order m order))"
    using ok by (simp add: texts_ok_def row_of_order_def)
  ultimately have "insert_order_row p (row_of_order m order) db1 = Inl unique_violation"
    unfolding insert_order_row_def append_assoc [symmetric]
    by (simp only: demand_append) (simp add: demand.simps row_of_order_def)
  then have "catching (\<lambda>err. if isUniqueViolation err then ErrDuplicateOrder else wrap_error ''insert order'' (pg_message err))
      (statement (insert_order_row p (row_of_order m order))) (quiet db1) = (Inl ErrDuplicateOrder, quiet db1)"
    by (simp add: catching_def isUniqueViolation_def unique_violation_def)
  then have run: "insert_new_order p m k order event audit (quiet ?db) = (Inl ErrDuplicateOrder, quiet db1)"
    by (simp add: insert_new_order_def bind_op_def up)
  have key0: "pg_key_ref (quiet ?db) m k = None" using assms(2) by (simp add: pg_key_ref_def)
  show ?thesis using pg_insert_quiet [OF key0, of p order event audit] run by (simp flip: s)
qed

lemma pg_update_succeeds:
  assumes "pg_inv p s" "order_at (pg_db s) oid = Some order" "CanTransitionOrderStatus (o_Status order) status"
    "pg_appendable p s event audit" "e_OrderID event = oid"
  shows "ok (fst (pg_UpdateOrderStatus p oid status now event audit s))"
proof -
  let ?db = "pg_db s"
  from assms(1) have s: "s = quiet ?db" "wf_db p ?db" by (simp_all add: pg_inv_def)
  from assms(2) obtain r where r: "find (\<lambda>q. ow_order_id q = oid) (orders_t ?db) = Some r" "o_Status order = ow_status r"
    using order_at_status by blast
  have valid: "IsValidOrderStatus status" using assms(3) by (simp add: CanTransition_valid)
  define db1 where "db1 = ?db\<lparr>orders_t := map (\<lambda>r. if ow_order_id r = oid then with_status status now r else r) (orders_t ?db)\<rparr>"
  have "list_all fst (order_checks p (with_status status now q))" if "q \<in> set (orders_t ?db)" for q
    using that s(2) valid assms(4)
    by (auto simp: wf_db_def order_checks_def texts_ok_def with_status_def order_status_check_valid pg_appendable_def
        IsValid_iff list_all_iff)
  then have "update_orders p (\<lambda>r. ow_order_id r = oid) (with_status status now) ?db =
      Inr (length (filter (\<lambda>r. ow_order_id r = oid) (orders_t ?db)), db1)"
    by (auto simp: update_orders_def db1_def list_all_iff)
  then have upd: "update_order p msg oid (with_status status now) (quiet ?db) =
      (Inr (length (filter (\<lambda>r. ow_order_id r = oid) (orders_t ?db))), quiet db1)" for msg
    unfolding update_order_def by (intro wrapped_quiet) simp
  have rows: "filter (\<lambda>r. ow_order_id r = oid) (orders_t ?db) \<noteq> []"
    using find_SomeD [OF r(1)] by (auto simp: filter_empty_conv)
  let ?e = "event\<lparr>e_Payload := OrderStatusEventPayload status now audit (e_Payload event)\<rparr>"
  have ids: "order_ids db1 = order_ids ?db"
    unfolding order_ids_def set_map [symmetric]
    by (rule arg_cong [where f = set]) (simp add: db1_def with_status_def)
  have known: "oid \<in> order_ids ?db" using find_SomeD [OF r(1)] by (auto simp: order_ids_def)
  have "event_fits p db1 ?e" "audit_fits p audit" "e_OrderID ?e \<in> order_ids db1"
    using assms(4,5) known event_fits_cong [of db1 ?db p ?e] by (simp_all add: ids pg_appendable_def) (simp add: db1_def)
  then obtain rw lg where logs: "append_logs p ?e audit (quiet db1) = (Inr (), quiet (with_logs [rw] [lg] db1))"
    using append_logs_quiet by blast
  have "order_at db1 oid \<noteq> None"
    using known unfolding order_at_None ids by simp
  then obtain order' where get: "order_at db1 oid = Some order'" by auto
  have lock: "lockOrderStatusForUpdate oid (quiet ?db) = (Inr (o_Status order), quiet ?db)"
    by (simp add: lockOrderStatusForUpdate_def bind_op_def op_simps r)
  have chk: "check_transition (o_Status order) status (quiet ?db) = (Inr (), quiet ?db)"
    using assms(3) by (simp add: check_transition_def op_simps)
  have "honest (bind_op (lockOrderStatusForUpdate oid) (\<lambda>currentStatus.
        bind_op (check_transition currentStatus status) (\<lambda>_.
        bind_op (update_order p ''update order status'' oid (with_status status now)) (\<lambda>rows.
        if rows = 0 then raise_op ErrNotFound else bind_op (append_logs p ?e audit) (\<lambda>_. getOrderTx oid)))))" by blast
  from transaction_quiet [OF this, of _ _ ?db] show ?thesis
    using rows unfolding pg_UpdateOrderStatus_def
    by (subst s(1)) (simp add: bind_op_def lock chk upd logs getOrderTx_quiet get)
qed

subsection \<open>Ownership and the outbox\<close>

text \<open>Keys and shipments name the merchant of their order.\<close>

definition pg_owned :: "pg \<Rightarrow> bool" where
  "pg_owned s \<longleftrightarrow>
     (\<forall>k\<in>set (idempotency_keys (pg_db s)).
        map_option o_MerchantID (order_at (pg_db s) (ik_order_id k)) = Some (ik_merchant_id k)) \<and>
     (\<forall>h\<in>set (shipments (pg_db s)).
        map_option o_MerchantID (order_at (pg_db s) (sw_order_id h)) = Some (sw_merchant_id h))"

lemma pg_shipment_owner:
  assumes "pg_faults s = []" "pg_owned s" "fst (pg_GetShipment sid s) = Inr shipment"
  shows "\<exists>order. order_at (pg_db s) (sr_OrderID shipment) = Some order \<and> o_MerchantID order = sr_MerchantID shipment"
proof -
  have "s = quiet (pg_db s)" using assms(1) by simp
  then have "fst (getShipmentTx sid (quiet (pg_db s))) = Inr shipment" using assms(3) by (simp add: pg_GetShipment_def)
  then obtain r where "r \<in> set (shipments (pg_db s))" "sr_OrderID shipment = sw_order_id r" "sr_MerchantID shipment = sw_merchant_id r"
    by (auto simp: getShipmentTx_def bind_op_def op_simps split: option.splits dest!: find_SomeD)
  with assms(2) show ?thesis by (auto simp: pg_owned_def)
qed

lemma pg_key_owner:
  assumes "pg_owned s" "pg_key_ref s m k = Some oid" "order_at (pg_db s) oid = Some order"
  shows "o_MerchantID order = m"
  using assms by (auto simp: pg_owned_def pg_key_ref_def dest!: find_SomeD)

lemma pg_owned_insert:
  assumes "pg_inv p s" "pg_owned s" "o_MerchantID order = m" "order_at (pg_db s) (o_OrderID order) = None"
    "pg_InsertOrder p m k order event audit s = (r, s')"
  shows "pg_owned s'"
proof (cases "pg_key_ref s m k")
  case (Some oid)
  with pg_insert_replay [OF assms(1) Some, of order event audit] assms(2,5) show ?thesis by auto
next
  case None
  note fresh = pg_insert_fresh [OF assms(1) None assms(3,5)]
  show ?thesis
  proof (cases r)
    case (Inl e)
    with fresh assms(2) show ?thesis by simp
  next
    case (Inr x)
    with fresh have "stored order event audit (pg_view p s) (pg_view p s')"
      and keys: "idempotency_keys (pg_db s') = idempotency_keys (pg_db s) @ [stored_key m k (o_OrderID order)]"
      and ships: "shipments (pg_db s') = shipments (pg_db s)" by auto
    then obtain order' where at: "order_at (pg_db s') = (order_at (pg_db s))(o_OrderID order \<mapsto> order')"
      "o_MerchantID order' = m" using assms(3) by (auto simp: stored_def pg_view_def)
    have "ik_order_id c \<noteq> o_OrderID order" if "c \<in> set (idempotency_keys (pg_db s))" for c
      using that assms(1,4) by (auto simp: pg_inv_def wf_db_def order_at_None)
    moreover have "sw_order_id h \<noteq> o_OrderID order" if "h \<in> set (shipments (pg_db s))" for h
      using that assms(1,4) by (auto simp: pg_inv_def wf_db_def order_at_None)
    ultimately show ?thesis using assms(2) at by (auto simp: pg_owned_def keys ships stored_key_def)
  qed
qed

lemma pg_owned_update:
  assumes "pg_inv p s" "pg_owned s" "pg_UpdateOrderStatus p oid status now event audit s = (r, s')"
  shows "pg_owned s'"
proof -
  let ?I = "\<lambda>db. shipments db = shipments (pg_db s) \<and> idempotency_keys db = idempotency_keys (pg_db s)"
  have logs: "preserves ?I (append_logs p e audit)" for e
    unfolding append_logs_def insertOutboxEvent_def insertAuditLog_def Let_def
    by (intro preserves_intros triple_statement) (auto dest!: outbox_row_inserted audit_row_inserted simp: with_logs_def)
  have upd: "preserves ?I (update_order p msg oid f)" for msg f
    unfolding update_order_def by (intro preserves_intros triple_statement) (auto simp: update_orders_def)
  have "triple (\<lambda>db. db = pg_db s) (bind_op (lockOrderStatusForUpdate oid) (\<lambda>currentStatus.
        bind_op (check_transition currentStatus status) (\<lambda>_.
        bind_op (update_order p ''update order status'' oid (with_status status now)) (\<lambda>rows.
        if rows = 0 then raise_op ErrNotFound else
        bind_op (append_logs p (event\<lparr>e_Payload := OrderStatusEventPayload status now audit (e_Payload event)\<rparr>) audit) (\<lambda>_.
        getOrderTx oid))))) (\<lambda>_. ?I)"
    by (rule triple_pre [where P = ?I])
      (auto intro!: preserves_intros logs upd preserves_get simp: lockOrderStatusForUpdate_def check_transition_def)
  from transaction_triple [OF this assms(3) [unfolded pg_UpdateOrderStatus_def]]
  have same: "shipments (pg_db s') = shipments (pg_db s)" "idempotency_keys (pg_db s') = idempotency_keys (pg_db s)" by auto
  from pg_update_status [OF assms(1,3)] have "outcome r oid (moves_to status) [event] audit (pg_view p s) (pg_view p s')" by simp
  then have "map_option o_MerchantID (order_at (pg_db s') x) = map_option o_MerchantID (order_at (pg_db s) x)" for x
    by (cases r) (auto simp: recorded_def pg_view_def db_view_def same_terms_def)
  with assms(2) show ?thesis by (simp add: pg_owned_def same)
qed

text \<open>Claims and publication marks are outside the ledger.\<close>

lemma pg_outbox_view:
  assumes "map (event_of_row p) (outbox_events db') = map (event_of_row p) (outbox_events db)"
    "db' = db\<lparr>outbox_events := outbox_events db'\<rparr>"
  shows "db_view p db' = db_view p db" "wf_db p db' = wf_db p db"
proof -
  have "orders_t db' = orders_t db" "order_items db' = order_items db" "shipments db' = shipments db"
    "audit_logs db' = audit_logs db" "idempotency_keys db' = idempotency_keys db"
    by (subst assms(2), simp)+
  with assms(1) show "db_view p db' = db_view p db" "wf_db p db' = wf_db p db"
    by (simp_all add: db_view_def wf_db_def order_at_def order_ids_def fun_eq_iff)
qed

lemma pg_pending_view:
  assumes "pg_inv p s" "pg_PendingOutboxEvents p now limit s = (r, s')"
  shows "pg_inv p s' \<and> pg_view p s' = pg_view p s"
proof -
  from assms(1) have s: "s = quiet (pg_db s)" by (simp add: pg_inv_def)
  obtain rows db' where c: "claim_rows p now (if limit \<le> 0 then 100 else limit) (pg_db s) = Inr (rows, db')"
    "db' = pg_db s\<lparr>outbox_events := outbox_events db'\<rparr>"
    "map (event_of_row p) (outbox_events db') = map (event_of_row p) (outbox_events (pg_db s))"
    by (simp add: claim_rows_def Let_def event_of_row_def)
  have "pg_PendingOutboxEvents p now limit (quiet (pg_db s)) = (map_sum (wrap_error ''scan pending outbox event'')
      (map WithEnvelopeDefaults) (scan_all (scanOutboxEvent p) rows), quiet db')"
    unfolding pg_PendingOutboxEvents_def Let_def
    by (subst bind_op_Inr, rule wrapped_quiet) (simp_all add: c(1) op_simps)
  with assms s have "s' = quiet db'" by auto
  with assms(1) pg_outbox_view [OF c(3,2)] show ?thesis by (simp add: pg_inv_def pg_view_def)
qed

lemma pg_mark_view:
  assumes "pg_inv p s" "pg_MarkOutboxPublished mid at s = (r, s')"
  shows "pg_inv p s' \<and> pg_view p s' = pg_view p s"
proof -
  from assms(1) have s: "s = quiet (pg_db s)" by (simp add: pg_inv_def)
  obtain n db' where c: "publish_row mid at (pg_db s) = Inr (n, db')"
    "db' = pg_db s\<lparr>outbox_events := outbox_events db'\<rparr>"
    "map (event_of_row p) (outbox_events db') = map (event_of_row p) (outbox_events (pg_db s))"
    by (simp add: publish_row_def Let_def event_of_row_def)
  have "wrapped ''mark outbox event published'' (autocommit (publish_row mid at)) (quiet (pg_db s)) = (Inr n, quiet db')"
    by (rule wrapped_quiet) (simp add: c(1))
  then have "snd (pg_MarkOutboxPublished mid at (quiet (pg_db s))) = quiet db'"
    by (simp add: pg_MarkOutboxPublished_def bind_op_def op_simps)
  with assms s have "s' = quiet db'" by (metis snd_conv)
  with assms(1) pg_outbox_view [OF c(3,2)] show ?thesis by (simp add: pg_inv_def pg_view_def)
qed

subsection \<open>Contracts\<close>

lemma pg_get_order:
  assumes "pg_inv p s"
  shows "fst (pg_GetOrder oid s) = (case lg_orders (pg_view p s) oid of None \<Rightarrow> Inl ErrNotFound | Some order \<Rightarrow> Inr order)"
proof -
  from assms have s: "s = quiet (pg_db s)" by (simp add: pg_inv_def)
  show ?thesis by (subst s) (simp add: pg_GetOrder_def getOrderTx_quiet pg_view_def split: option.splits)
qed

interpretation pg: ledger_store "pg_Store p" "pg_inv p" "pg_view p" pg_key_ref pg_ext_ref "pg_storable p"
  "pg_appendable p" "pg_Projector p" "pg_Outbox p" for p
proof
  fix s oid order m k event audit r3 s' status now
  assume inv: "pg_inv p s"
  show "st_GetOrder (pg_Store p) oid s =
      (case lg_orders (pg_view p s) oid of None \<Rightarrow> Inl ErrNotFound | Some order \<Rightarrow> Inr order)"
    using pg_get_order [OF inv] by (simp add: pg_Store_def)
  show "IsValidOrderStatus (o_Status order) \<and> o_OrderID order = oid" if "lg_orders (pg_view p s) oid = Some order"
    using inv that wf_db_status [of p "pg_db s" oid order] order_at_status [of "pg_db s" oid order]
    by (auto simp: pg_inv_def pg_view_def)
  show "\<exists>old. lg_orders (pg_view p s) oid = Some old \<and>
      st_InsertOrder (pg_Store p) m k order event audit s = (Inr (Some old, True), s)" if "pg_key_ref s m k = Some oid"
    using pg_insert_replay [OF inv that] by (simp add: pg_Store_def)
  show "pg_inv p s' \<and> (case r3 of Inl _ \<Rightarrow> pg_view p s' = pg_view p s
      | Inr result \<Rightarrow> result = (Some order, False) \<and> stored order event audit (pg_view p s) (pg_view p s') \<and>
          pg_key_ref s' m k = Some (o_OrderID order))"
    if "pg_key_ref s m k = None" "o_MerchantID order = m" "st_InsertOrder (pg_Store p) m k order event audit s = (r3, s')"
    using pg_insert_fresh [OF inv that(1,2), of event audit r3 s'] that(3) inv by (cases r3) (simp_all add: pg_Store_def)
  show "st_InsertOrder (pg_Store p) m k order event audit s = (Inl ErrDuplicateOrder, s)"
    if "pg_key_ref s m k = None" "pg_ext_ref s m (o_ExternalOrderID order) = Some oid" "pg_storable p s m k order event audit"
    using pg_insert_duplicate [OF inv that] by (simp add: pg_Store_def)
  show "\<exists>s'. st_InsertOrder (pg_Store p) m k order event audit s = (Inr (Some order, False), s') \<and> pg_inv p s' \<and>
      pg_view p s' = insert_ledger order event audit (pg_view p s) \<and> pg_key_ref s' m k = Some (o_OrderID order) \<and>
      pg_ext_ref s' m (o_ExternalOrderID order) = Some (o_OrderID order)"
    if "pg_key_ref s m k = None" "pg_ext_ref s m (o_ExternalOrderID order) = None"
      "lg_orders (pg_view p s) (o_OrderID order) = None" "pg_storable p s m k order event audit"
    using pg_insert_new [OF inv that(1,2) _ that(4)] that(3) by (simp add: pg_Store_def pg_view_def)
  show "ok (fst (st_UpdateOrderStatus (pg_Store p) oid status now event audit s))"
    if "lg_orders (pg_view p s) oid = Some order" "CanTransitionOrderStatus (o_Status order) status"
      "pg_appendable p s event audit" "e_OrderID event = oid"
    using pg_update_succeeds [OF inv _ that(2-4)] that(1) by (simp add: pg_Store_def pg_view_def)
qed (auto simp: pg_records dest: pg_update_status pg_inventory_reserved pg_inventory_rejected pg_payment_authorized
    pg_payment_failed pg_shipment_created pg_shipment_failed pg_order_cancelled pg_notification_queued pg_compensation
    pg_pending_view pg_mark_view)

interpretation pg: tenant_store "pg_Store p" "pg_inv p" "pg_view p" pg_key_ref pg_ext_ref "pg_storable p"
  "pg_appendable p" pg_owned "\<lambda>_. True" for p
proof
  fix s m k oid order event audit r3 s' status now r sid shipment
  assume inv: "pg_inv p s"
  show "o_MerchantID order = m" if "pg_owned s" "pg_key_ref s m k = Some oid" "lg_orders (pg_view p s) oid = Some order"
    using pg_key_owner [OF that(1,2)] that(3) by (simp add: pg_view_def)
  show "pg_owned s'" if "pg_owned s" "o_MerchantID order = m" "lg_orders (pg_view p s) (o_OrderID order) = None"
    "st_InsertOrder (pg_Store p) m k order event audit s = (r3, s')"
    using pg_owned_insert [OF inv that(1,2)] that(3,4) by (simp add: pg_Store_def pg_view_def)
  show "pg_owned s'" if "pg_owned s" "st_UpdateOrderStatus (pg_Store p) oid status now event audit s = (r, s')"
    using pg_owned_update [OF inv that(1)] that(2) by (simp add: pg_Store_def)
  show "\<exists>order. lg_orders (pg_view p s) (sr_OrderID shipment) = Some order \<and> o_MerchantID order = sr_MerchantID shipment"
    if "pg_owned s" "st_GetShipment (pg_Store p) sid s = Inr shipment"
    using pg_shipment_owner [OF _ that(1)] that(2) inv by (simp add: pg_Store_def pg_view_def pg_inv_def)
  show "lg_orders (pg_view p s') oid = Some order"
    if "st_UpdateOrderStatus (pg_Store p) oid status now event audit s = (Inr order, s')"
    using pg_update_status [OF inv] that by (simp add: pg_Store_def pg_view_def)
qed

end
