(* ===== verification/Pg_Invariants.thy ===== *)
theory Pg_Invariants
  imports Pg_Contract
begin

text \<open>
  Invariants of the tables. \<open>table_invariant\<close> is what a condition on the database must satisfy
  statement by statement; inside it, every call on the store keeps the condition, whatever
  faults the connection has. The two groups of statements that move stock are taken as a whole, because a
  condition on stock need not hold between their statements.
\<close>

locale table_invariant =
  fixes p :: pg_params and I :: "database \<Rightarrow> bool"
  assumes insert_order: "I db \<Longrightarrow> insert_order_row p row db = Inr (u, db') \<Longrightarrow> I db'"
    and order_update: "I db \<Longrightarrow> (\<And>r. ow_order_id (f r) = ow_order_id r) \<Longrightarrow> update_orders p P f db = Inr (n, db') \<Longrightarrow> I db'"
    and insert_item: "I db \<Longrightarrow> insert_item_row p item db = Inr (u, db') \<Longrightarrow> I db'"
    and item_update: "I db \<Longrightarrow> update_items Q status db = Inr (n, db') \<Longrightarrow> I db'"
    and insert_key: "I db \<Longrightarrow> insert_key_row p key db = Inr (u, db') \<Longrightarrow> I db'"
    and insert_event: "I db \<Longrightarrow> event_out p (WithEnvelopeDefaults e) = Inr payload \<Longrightarrow>
      insert_outbox_row p (row_of_event (WithEnvelopeDefaults e) payload) db = Inr (u, db') \<Longrightarrow> I db'"
    and insert_audit: "I db \<Longrightarrow> insert_audit_row p log db = Inr (u, db') \<Longrightarrow> I db'"
    and merchant: "I db \<Longrightarrow> insert_merchant p m db = Inr (n, db') \<Longrightarrow> I db'"
    and authorization: "I db \<Longrightarrow> upsert_authorization p au db = Inr (u, db') \<Longrightarrow> I db'"
    and void: "I db \<Longrightarrow> void_authorizations oid at db = Inr (u, db') \<Longrightarrow> I db'"
    and shipment: "I db \<Longrightarrow> upsert_shipment p sh db = Inr (u, db') \<Longrightarrow> I db'"
    and notification: "I db \<Longrightarrow> upsert_notification p nt db = Inr (u, db') \<Longrightarrow> I db'"
    and compensation: "I db \<Longrightarrow> upsert_compensation p cp db = Inr (u, db') \<Longrightarrow> I db'"
    and claim: "I db \<Longrightarrow> claim_rows p now limit db = Inr (rows, db') \<Longrightarrow> I db'"
    and publish: "I db \<Longrightarrow> publish_row mid at db = Inr (n, db') \<Longrightarrow> I db'"
    and reserve: "preserves I (reserve_and_record p source at pair)"
    and release: "preserves I (releaseReservedStock oid at)"
begin

lemma statements:
  "preserves I (statement (insert_order_row p row))" "preserves I (statement (insert_item_row p item))"
  "preserves I (statement (update_items Q status))" "preserves I (statement (insert_key_row p key))"
  "preserves I (statement (insert_audit_row p log))" "preserves I (statement (insert_merchant p m))"
  "preserves I (statement (upsert_authorization p au))" "preserves I (statement (void_authorizations oid at))"
  "preserves I (statement (upsert_shipment p sh))" "preserves I (statement (upsert_notification p nt))"
  "preserves I (statement (upsert_compensation p cp))"
  by (rule triple_statement,
      fact insert_order insert_item item_update insert_key insert_audit merchant authorization void shipment
        notification compensation)+

lemma keeps_update_order: "(\<And>r. ow_order_id (f r) = ow_order_id r) \<Longrightarrow> preserves I (update_order p msg oid f)"
  unfolding update_order_def by (intro triple_wrapped triple_statement) (rule order_update)

lemma keeps_void: "preserves I (voidAuthorizedPayment p oid at)"
proof -
  have "preserves I (statement (update_orders p (\<lambda>r. ow_order_id r = oid \<and> ow_payment_status r = Some ''authorized'')
      (\<lambda>r. r\<lparr>ow_payment_status := Some ''voided''\<rparr>)))"
    by (rule triple_statement, erule order_update) simp_all
  then show ?thesis unfolding voidAuthorizedPayment_def by (intro preserves_intros statements)
qed

lemma keeps_event: "preserves I (insertOutboxEvent p e)"
  unfolding insertOutboxEvent_def Let_def
proof (rule triple_bind [where R = "\<lambda>payload db. I db \<and> event_out p (WithEnvelopeDefaults e) = Inr payload"])
  show "triple I (lift_error (map_sum (wrap_error ''marshal outbox event'') id (event_out p (WithEnvelopeDefaults e))))
      (\<lambda>payload db. I db \<and> event_out p (WithEnvelopeDefaults e) = Inr payload)"
    by (rule triple_lift) (cases "event_out p (WithEnvelopeDefaults e)"; simp)
qed (intro triple_wrapped triple_statement, auto intro: insert_event)

lemma keeps_audit: "preserves I (insertAuditLog p a)"
  unfolding insertAuditLog_def by (intro preserves_intros statements)

lemma keeps_logs: "preserves I (append_logs p e a)"
  unfolding append_logs_def by (intro preserves_intros keeps_event keeps_audit)

lemma keeps_reads: "preserves I (lockOrderStatusForUpdate oid)" "preserves I (check_transition a b)"
  "preserves I (orderByIdempotency m k)"
  unfolding lockOrderStatusForUpdate_def check_transition_def orderByIdempotency_def
  by (intro preserves_intros)+

lemma keeps_new_order: "preserves I (insert_new_order p m k order e a)"
  unfolding insert_new_order_def upsertMerchant_def by (intro preserves_intros statements keeps_logs)

lemma keeps_effects: "preserves I (applyCompensationEffects p source at)"
  unfolding applyCompensationEffects_def by (intro preserves_intros release keeps_void)

lemmas method_steps = preserves_intros statements keeps_update_order keeps_void keeps_logs keeps_audit keeps_reads
  keeps_new_order keeps_effects preserves_get preserves_items reserve release

lemma keeps_transaction:
  assumes "preserves I body" "I (pg_db s)" "transaction b c body s = (r, s')"
  shows "I (pg_db s')"
  using assms(3)
proof (cases rule: transaction_begun)
  case (ran s0 x s1)
  with tripleD [OF assms(1), of s0 x s1] assms(2) show ?thesis by simp
next
  case (broken s0 x s1 e)
  with tripleD [OF assms(1), of s0 x s1] assms(2) show ?thesis by auto
qed (use assms(2) in simp_all)

lemma keeps_autocommit:
  assumes "\<And>db x db'. I db \<Longrightarrow> f db = Inr (x, db') \<Longrightarrow> I db'" "I (pg_db s)" "autocommit f s = (r, s')"
  shows "I (pg_db s')"
  using assms(2,3) assms(1) [of "pg_db s"]
  by (auto simp: autocommit_def statement_def split: list.splits option.splits sum.splits prod.splits)

lemma row_updates:
  "ow_order_id (with_status st at r) = ow_order_id r" "ow_order_id (touched at r) = ow_order_id r"
  by (simp_all add: with_status_def touched_def)

lemma method_keeps:
  "I (pg_db s) \<Longrightarrow> pg_InsertOrder p m k order e a s = (r1, s') \<Longrightarrow> I (pg_db s')"
  "I (pg_db s) \<Longrightarrow> pg_UpdateOrderStatus p oid st now e a s = (r2, s') \<Longrightarrow> I (pg_db s')"
  "I (pg_db s) \<Longrightarrow> pg_RecordInventoryReserved p src e a s = (r, s') \<Longrightarrow> I (pg_db s')"
  "I (pg_db s) \<Longrightarrow> pg_RecordInventoryRejected p src e a s = (r, s') \<Longrightarrow> I (pg_db s')"
  "I (pg_db s) \<Longrightarrow> pg_RecordPaymentAuthorized p src e pay a s = (r, s') \<Longrightarrow> I (pg_db s')"
  "I (pg_db s) \<Longrightarrow> pg_RecordPaymentFailed p src e a s = (r, s') \<Longrightarrow> I (pg_db s')"
  "I (pg_db s) \<Longrightarrow> pg_RecordShipmentCreated p src e sh' a s = (r, s') \<Longrightarrow> I (pg_db s')"
  "I (pg_db s) \<Longrightarrow> pg_RecordShipmentFailed p src e a s = (r, s') \<Longrightarrow> I (pg_db s')"
  "I (pg_db s) \<Longrightarrow> pg_RecordOrderCancelled p src e a s = (r, s') \<Longrightarrow> I (pg_db s')"
  "I (pg_db s) \<Longrightarrow> pg_RecordNotificationQueued p src a s = (r, s') \<Longrightarrow> I (pg_db s')"
  "I (pg_db s) \<Longrightarrow> pg_RecordCompensation p src st a s = (r, s') \<Longrightarrow> I (pg_db s')"
  unfolding pg_method_defs Let_def
  by (erule keeps_transaction [rotated], assumption, intro method_steps; simp add: row_updates)+

lemma outbox_keeps:
  assumes "I (pg_db s)"
  shows "pg_PendingOutboxEvents p now limit s = (r3, s') \<Longrightarrow> I (pg_db s')"
    "pg_MarkOutboxPublished mid at s = (r, s') \<Longrightarrow> I (pg_db s')"
proof -
  have claimed: "I (pg_db s1)" if "autocommit (claim_rows p now n) s = (q, s1)" for n q s1
    by (rule keeps_autocommit [OF claim assms that])
  have marked: "I (pg_db s1)" if "autocommit (publish_row mid at) s = (q, s1)" for q s1
    by (rule keeps_autocommit [OF publish assms that])
  show "pg_PendingOutboxEvents p now limit s = (r3, s') \<Longrightarrow> I (pg_db s')"
    by (auto simp: pg_PendingOutboxEvents_def Let_def bind_op_def wrapped_def catching_def op_simps
        split: prod.splits sum.splits if_splits dest: claimed)
  show "pg_MarkOutboxPublished mid at s = (r, s') \<Longrightarrow> I (pg_db s')"
    by (auto simp: pg_MarkOutboxPublished_def bind_op_def wrapped_def catching_def op_simps
        split: prod.splits sum.splits if_splits dest: marked)
qed

text \<open>Every call, and every sequence of calls, under any faults.\<close>

lemma exec_keeps:
  assumes "I (pg_db s)" "pg_exec p c s = (r, s')"
  shows "I (pg_db s')"
  using assms(2)
  by (cases c) (auto simp only: pg_exec_method elim!: drop_resultE dest: method_keeps [OF assms(1)] outbox_keeps [OF assms(1)])

lemma run_keeps: "I (pg_db s) \<Longrightarrow> I (pg_db (pg_run p cs s))"
proof (induction cs arbitrary: s)
  case (Cons c cs)
  obtain r s' where "pg_exec p c s = (r, s')" by fastforce
  with exec_keeps [OF Cons.prems] Cons.IH [of s'] show ?case by simp
qed simp

end

end
