(* ===== verification/Pg_Stock.thy ===== *)
theory Pg_Stock
  imports Pg_Invariants
begin

text \<open>
  Stock in the PostgreSQL store: what an inventory row reports as reserved is the sum of the active
  reservations of its warehouse and SKU, no quantity is negative, and the stock on hand of every row, available and
  reserved together, never changes.
\<close>

subsection \<open>Consistent stock\<close>

definition active_in :: "string \<Rightarrow> string \<Rightarrow> reservation_row \<Rightarrow> bool" where
  "active_in warehouse sku r \<longleftrightarrow> rv_status r = ''reserved'' \<and> rv_warehouse_id r = Some warehouse \<and> rv_sku r = sku"

definition reserved_in :: "string \<Rightarrow> string \<Rightarrow> reservation_row list \<Rightarrow> int" where
  "reserved_in warehouse sku rows = sum_list (map rv_quantity (filter (active_in warehouse sku) rows))"

definition reservation_key :: "reservation_row \<Rightarrow> string \<times> string" where
  "reservation_key r = (rv_order_id r, rv_sku r)"

definition inventory_key :: "inventory_row \<Rightarrow> string \<times> string" where
  "inventory_key i = (iv_warehouse_id i, iv_sku i)"

definition stock_ok :: "database \<Rightarrow> bool" where
  "stock_ok db \<longleftrightarrow> distinct (map inventory_key (inventory_items db)) \<and>
     distinct (map reservation_key (stock_reservations db)) \<and>
     (\<forall>r\<in>set (stock_reservations db). 0 < rv_quantity r) \<and>
     (\<forall>i\<in>set (inventory_items db). iv_warehouse_id i \<noteq> [] \<and> 0 \<le> iv_available_quantity i \<and>
        iv_reserved_quantity i = reserved_in (iv_warehouse_id i) (iv_sku i) (stock_reservations db))"

text \<open>The stock on hand, row by row.\<close>

definition on_hand :: "database \<Rightarrow> ((string \<times> string) \<times> int) list" where
  "on_hand db = map (\<lambda>i. (inventory_key i, iv_available_quantity i + iv_reserved_quantity i)) (inventory_items db)"

definition same_stock :: "database \<Rightarrow> database \<Rightarrow> bool" where
  "same_stock db db' \<longleftrightarrow> inventory_items db' = inventory_items db \<and> stock_reservations db' = stock_reservations db"

abbreviation stock_inv :: "((string \<times> string) \<times> int) list \<Rightarrow> database \<Rightarrow> bool" where
  "stock_inv levels db \<equiv> stock_ok db \<and> on_hand db = levels"

lemma stock_inv_same: "same_stock db db' \<Longrightarrow> stock_inv levels db \<Longrightarrow> stock_inv levels db'"
  by (simp add: same_stock_def stock_ok_def on_hand_def)

lemma reserved_in_simps [simp]:
  "reserved_in w sku [] = 0"
  "reserved_in w sku (r # rows) = (if active_in w sku r then rv_quantity r else 0) + reserved_in w sku rows"
  "reserved_in w sku (rows @ rows') = reserved_in w sku rows + reserved_in w sku rows'"
  by (simp_all add: reserved_in_def)

lemma reserved_in_nonneg: "(\<And>r. r \<in> set rows \<Longrightarrow> 0 < rv_quantity r) \<Longrightarrow> 0 \<le> reserved_in w sku rows"
  by (induction rows) (auto intro: add_nonneg_nonneg less_imp_le)

lemma reserved_in_member:
  "(\<And>r. r \<in> set rows \<Longrightarrow> 0 < rv_quantity r) \<Longrightarrow> r \<in> set rows \<Longrightarrow> active_in w sku r \<Longrightarrow> rv_quantity r \<le> reserved_in w sku rows"
proof (induction rows)
  case (Cons q rows)
  then show ?case
    using reserved_in_nonneg [of rows w sku] by (cases "r = q") (auto simp: less_imp_le intro: add_increasing)
qed simp

text \<open>Rewriting the one row with a given key.\<close>

lemma reserved_in_update:
  "distinct (map reservation_key rows) \<Longrightarrow> r \<in> set rows \<Longrightarrow>
   reserved_in w sku (map (\<lambda>q. if reservation_key q = reservation_key r then f q else q) rows) =
   reserved_in w sku rows - (if active_in w sku r then rv_quantity r else 0) +
     (if active_in w sku (f r) then rv_quantity (f r) else 0)"
proof (induction rows)
  case (Cons q rows)
  show ?case
  proof (cases "r = q")
    case True
    with Cons.prems(1) have "map (\<lambda>q. if reservation_key q = reservation_key r then f q else q) rows = rows"
      by (intro map_idI) (auto simp: image_iff)
    with True show ?thesis by simp
  next
    case False
    with Cons.prems have "r \<in> set rows" "reservation_key q \<noteq> reservation_key r" by auto
    with Cons show ?thesis by simp
  qed
qed simp

subsection \<open>Taking stock\<close>

lemma best_row_at: "best_row P n rows = Some (m, i) \<Longrightarrow> n \<le> m \<and> m - n < length rows \<and> rows ! (m - n) = i \<and> P i"
proof (induction rows arbitrary: n m i)
  case (Cons q rows)
  then show ?case
    by (cases "best_row P (Suc n) rows") (fastforce split: if_splits prod.splits simp: nth_Cons')+
qed simp

text \<open>The chosen row is a candidate with the most available stock.\<close>

lemma best_row_max:
  "best_row P n rows = Some (m, i) \<Longrightarrow> j \<in> set rows \<Longrightarrow> P j \<Longrightarrow> iv_available_quantity j \<le> iv_available_quantity i"
proof (induction rows arbitrary: n m i)
  case (Cons q rows)
  show ?case
  proof (cases "best_row P (Suc n) rows")
    case None
    have "\<not> P j'" if "j' \<in> set rows" for j' using None that by (induction rows arbitrary: n) (auto split: option.splits if_splits)
    with Cons None show ?thesis by (auto split: if_splits)
  next
    case (Some x)
    obtain m' i' where x: "x = (m', i')" by fastforce
    with Cons.IH [of "Suc n" m' i'] Cons.prems Some show ?thesis by (fastforce split: if_splits)
  qed
qed simp

lemma take_stock_Some:
  assumes "take_stock m sku q at db = Inr (Some w, db')"
  obtains n i where "n < length (inventory_items db)" "inventory_items db ! n = i" "iv_warehouse_id i = w"
    "iv_sku i = sku" "q \<le> iv_available_quantity i"
    "db' = db\<lparr>inventory_items := (inventory_items db)[n := i\<lparr>iv_available_quantity := iv_available_quantity i - q,
       iv_reserved_quantity := iv_reserved_quantity i + q, iv_updated_at := timestamptz at\<rparr>]\<rparr>"
proof -
  obtain n i where best: "best_row (is_candidate m sku q db) 0 (inventory_items db) = Some (n, i)"
    using assms by (auto simp: take_stock_def split: option.splits)
  from best_row_at [OF best] have "n < length (inventory_items db)" "inventory_items db ! n = i"
    "is_candidate m sku q db i" by auto
  with assms best that [of n i] show thesis by (auto simp: take_stock_def is_candidate_def)
qed

text \<open>
  After \<open>reserveInventoryItem\<close>: either the order already held the item, or stock was taken from
  row \<open>n\<close> for it and its reservation is still to be written.
\<close>

definition no_active :: "string \<Rightarrow> string \<Rightarrow> database \<Rightarrow> bool" where
  "no_active oid sku db \<longleftrightarrow> (\<forall>r\<in>set (stock_reservations db). reservation_key r = (oid, sku) \<longrightarrow> rv_status r \<noteq> ''reserved'')"

definition holding :: "string \<Rightarrow> string \<Rightarrow> int \<Rightarrow> string \<Rightarrow> database \<Rightarrow> bool" where
  "holding oid sku q w db \<longleftrightarrow> (\<exists>r\<in>set (stock_reservations db). reservation_key r = (oid, sku) \<and>
     rv_status r = ''reserved'' \<and> rv_quantity r = q \<and> null_string (rv_warehouse_id r) = w)"

definition taken :: "string \<Rightarrow> string \<Rightarrow> int \<Rightarrow> string \<Rightarrow> database \<Rightarrow> database \<Rightarrow> bool" where
  "taken oid sku q w db db' \<longleftrightarrow> no_active oid sku db \<and> (\<exists>m at. take_stock m sku q at db = Inr (Some w, db'))"

definition booked :: "((string \<times> string) \<times> int) list \<Rightarrow> string \<Rightarrow> string \<times> int \<Rightarrow> string \<Rightarrow> database \<Rightarrow> bool" where
  "booked levels oid item w db \<longleftrightarrow> stock_inv levels db \<and> holding oid (fst item) (snd item) w db \<or>
     (\<exists>db0. stock_inv levels db0 \<and> taken oid (fst item) (snd item) w db0 db)"

lemma triple_take:
  "triple (\<lambda>db. stock_inv levels db \<and> no_active oid sku db)
     (bind_op (wrapped ''reserve inventory item'' (statement (take_stock m sku q at)))
        (\<lambda>warehouse. case warehouse of None \<Rightarrow> raise_op (ErrInsufficientStock ('' for sku '' @ sku)) | Some w \<Rightarrow> ret_op w))
     (booked levels oid (sku, q))"
proof (rule triple_bind [where R = "\<lambda>x db. \<forall>w. x = Some w \<longrightarrow> booked levels oid (sku, q) w db"])
  show "triple (\<lambda>db. stock_inv levels db \<and> no_active oid sku db) (wrapped ''reserve inventory item''
      (statement (take_stock m sku q at))) (\<lambda>x db. \<forall>w. x = Some w \<longrightarrow> booked levels oid (sku, q) w db)"
    by (intro triple_wrapped triple_statement) (auto simp: booked_def taken_def)
  show "triple (\<lambda>db. \<forall>w. x = Some w \<longrightarrow> booked levels oid (sku, q) w db)
      (case x of None \<Rightarrow> raise_op (ErrInsufficientStock ('' for sku '' @ sku)) | Some w \<Rightarrow> ret_op w)
      (booked levels oid (sku, q))" for x
    by (cases x) (auto intro: triple_raise triple_ret)
qed

lemma find_by_key:
  assumes "distinct (map reservation_key rows)"
  shows "find (\<lambda>r. rv_order_id r = oid \<and> rv_sku r = sku) rows = None \<Longrightarrow> r \<in> set rows \<Longrightarrow> reservation_key r \<noteq> (oid, sku)"
    "find (\<lambda>r. rv_order_id r = oid \<and> rv_sku r = sku) rows = Some q \<Longrightarrow> r \<in> set rows \<Longrightarrow>
      reservation_key r = (oid, sku) \<Longrightarrow> r = q"
  using assms
  by (auto simp: find_None_iff reservation_key_def distinct_map inj_on_def dest!: find_SomeD)

lemma triple_reserve_item: "triple (stock_inv levels) (reserveInventoryItem m oid item at) (booked levels oid item)"
proof -
  obtain sku q where item: "item = (sku, q)" by fastforce
  let ?take = "bind_op (wrapped ''reserve inventory item'' (statement (take_stock m sku q at)))
        (\<lambda>warehouse. case warehouse of None \<Rightarrow> raise_op (ErrInsufficientStock ('' for sku '' @ sku)) | Some w \<Rightarrow> ret_op w)"
  let ?find = "\<lambda>db. find (\<lambda>r. rv_order_id r = oid \<and> rv_sku r = sku) (stock_reservations db)"
  show ?thesis unfolding reserveInventoryItem_def item prod.case
  proof (rule triple_read)
    fix x
    show "triple (\<lambda>db. stock_inv levels db \<and> ?find db = x)
      (case x of None \<Rightarrow> ?take
       | Some r \<Rightarrow> if rv_status r = ''reserved''
           then (if rv_quantity r \<noteq> q then raise_op (ErrorString (''reservation quantity mismatch for sku '' @ sku))
                 else ret_op (null_string (rv_warehouse_id r)))
           else ?take) (booked levels oid (sku, q))"
    proof (cases x)
      case None
      have "no_active oid sku db" if "stock_ok db" "?find db = None" for db
        using that find_by_key(1) [of "stock_reservations db" oid sku] by (auto simp: no_active_def stock_ok_def)
      then show ?thesis unfolding None option.case by (intro triple_pre [OF triple_take]) auto
    next
      case (Some r)
      show ?thesis
      proof (cases "rv_status r = ''reserved''")
        case True
        with Some show ?thesis
          by (auto intro!: triple_raise triple_ret simp: booked_def holding_def reservation_key_def dest!: find_SomeD)
      next
        case False
        then have "no_active oid sku db" if "stock_ok db" "?find db = Some r" for db
          using that find_by_key(2) [of "stock_reservations db" oid sku r] by (auto simp: no_active_def stock_ok_def)
        then show ?thesis unfolding Some option.case if_not_P [OF False] by (intro triple_pre [OF triple_take]) auto
      qed
    qed
  qed
qed

subsection \<open>Writing the reservation\<close>

definition reserving :: "string \<Rightarrow> string \<Rightarrow> int \<Rightarrow> string \<Rightarrow> time \<Rightarrow> reservation_row" where
  "reserving oid sku q w at = \<lparr>rv_order_id = oid, rv_warehouse_id = nullableString w, rv_sku = sku,
     rv_quantity = q, rv_status = ''reserved'', rv_reserved_at = timestamptz at, rv_released_at = None\<rparr>"

definition rebooked :: "reservation_row \<Rightarrow> reservation_row \<Rightarrow> reservation_row" where
  "rebooked r q = q\<lparr>rv_warehouse_id := (case rv_warehouse_id r of Some w \<Rightarrow> Some w | None \<Rightarrow> rv_warehouse_id q),
     rv_quantity := rv_quantity r, rv_status := rv_status r, rv_reserved_at := rv_reserved_at r, rv_released_at := None\<rparr>"

lemma upsert_reservation_rows:
  assumes "upsert_reservation p r db = Inr (u, db')"
  shows "0 < rv_quantity r \<and> db' = db\<lparr>stock_reservations :=
    upsert (\<lambda>q. reservation_key q = reservation_key r) (rebooked r) r (stock_reservations db)\<rparr>"
  using assms by (simp add: upsert_reservation_def rebooked_def [abs_def] reservation_key_def)

lemma rebooked_key [simp]: "reservation_key (rebooked r q) = reservation_key q"
  by (simp add: rebooked_def reservation_key_def)

lemma upsert_keys:
  assumes "distinct (map reservation_key rows)"
  shows "distinct (map reservation_key (upsert (\<lambda>q. reservation_key q = reservation_key r) (rebooked r) r rows))"
proof -
  have "reservation_key \<circ> (\<lambda>q. if reservation_key q = reservation_key r then rebooked r q else q) = reservation_key"
    by (auto simp: fun_eq_iff)
  with assms show ?thesis by (auto simp: upsert_def list_ex_iff)
qed

text \<open>The effect on the sum of the active reservations.\<close>

lemma reserved_in_upsert:
  assumes keys: "distinct (map reservation_key rows)" and r: "rv_status r = ''reserved''" "rv_warehouse_id r = Some w"
    and none: "\<And>q. q \<in> set rows \<Longrightarrow> reservation_key q = reservation_key r \<Longrightarrow> rv_status q \<noteq> ''reserved''"
  shows "reserved_in w' sku' (upsert (\<lambda>q. reservation_key q = reservation_key r) (rebooked r) r rows) =
    reserved_in w' sku' rows + (if (w', sku') = (w, rv_sku r) then rv_quantity r else 0)"
proof (cases "list_ex (\<lambda>q. reservation_key q = reservation_key r) rows")
  case True
  then obtain q where q: "q \<in> set rows" "reservation_key q = reservation_key r" by (auto simp: list_ex_iff)
  then have "active_in w' sku' (rebooked r q) \<longleftrightarrow> (w', sku') = (w, rv_sku r)" "\<not> active_in w' sku' q"
    using none [OF q] r by (auto simp: active_in_def rebooked_def reservation_key_def)
  with reserved_in_update [OF keys q(1), of w' sku' "rebooked r"] True q(2) show ?thesis
    by (simp add: upsert_def rebooked_def)
next
  case False
  with r show ?thesis by (auto simp: upsert_def active_in_def)
qed

lemma booked_holding:
  assumes inv: "stock_ok db" and hold: "holding oid sku q w db"
    and u: "upsert_reservation p (reserving oid sku q w at) db = Inr (u, db')"
  shows "stock_inv (on_hand db) db'"
proof -
  let ?r = "reserving oid sku q w at"
  let ?rows = "upsert (\<lambda>q. reservation_key q = reservation_key ?r) (rebooked ?r) ?r (stock_reservations db)"
  from hold obtain r where r: "r \<in> set (stock_reservations db)" "reservation_key r = reservation_key ?r"
    "rv_status r = ''reserved''" "rv_quantity r = q" "null_string (rv_warehouse_id r) = w"
    by (auto simp: holding_def reserving_def reservation_key_def)
  have keys: "distinct (map reservation_key (stock_reservations db))" using inv by (simp add: stock_ok_def)
  have same: "rv_warehouse_id (rebooked ?r r) = rv_warehouse_id r" "rv_quantity (rebooked ?r r) = rv_quantity r"
    "rv_status (rebooked ?r r) = rv_status r" "rv_sku (rebooked ?r r) = rv_sku r"
    using r(3-5) by (auto simp: rebooked_def reserving_def nullableString_def null_string_def split: option.splits)
  have rows: "?rows = map (\<lambda>q. if reservation_key q = reservation_key r then rebooked ?r q else q) (stock_reservations db)"
    using r(1,2) by (auto simp: upsert_def list_ex_iff)
  have sum: "reserved_in w' sku' ?rows = reserved_in w' sku' (stock_reservations db)" for w' sku'
    unfolding rows reserved_in_update [OF keys r(1)] using same by (simp add: active_in_def)
  have "0 < rv_quantity q'" if "q' \<in> set ?rows" for q'
    using that inv upsert_reservation_rows [OF u] by (auto simp: rows stock_ok_def rebooked_def)
  with inv upsert_keys [OF keys, of ?r] upsert_reservation_rows [OF u] sum show ?thesis
    by (simp add: stock_ok_def on_hand_def)
qed

lemma booked_taken:
  assumes inv: "stock_ok db0" and taken: "taken oid sku q w db0 db"
    and u: "upsert_reservation p (reserving oid sku q w at) db = Inr (u, db')"
  shows "stock_inv (on_hand db0) db'"
proof -
  let ?r = "reserving oid sku q w at"
  let ?rows = "upsert (\<lambda>q. reservation_key q = reservation_key ?r) (rebooked ?r) ?r (stock_reservations db0)"
  from taken obtain m at' where none: "no_active oid sku db0" and t: "take_stock m sku q at' db0 = Inr (Some w, db)"
    by (auto simp: taken_def)
  from t obtain n i where n: "n < length (inventory_items db0)" "inventory_items db0 ! n = i" "iv_warehouse_id i = w"
      "iv_sku i = sku" "q \<le> iv_available_quantity i"
    and db: "db = db0\<lparr>inventory_items := (inventory_items db0)[n := i\<lparr>iv_available_quantity := iv_available_quantity i - q,
       iv_reserved_quantity := iv_reserved_quantity i + q, iv_updated_at := timestamptz at'\<rparr>]\<rparr>"
    by (rule take_stock_Some)
  let ?i = "i\<lparr>iv_available_quantity := iv_available_quantity i - q, iv_reserved_quantity := iv_reserved_quantity i + q,
    iv_updated_at := timestamptz at'\<rparr>"
  have i: "i \<in> set (inventory_items db0)" using n(1,2) by (metis nth_mem)
  have w: "w \<noteq> []" using inv i n(3) by (auto simp: stock_ok_def)
  have keys: "distinct (map reservation_key (stock_reservations db0))" "distinct (map inventory_key (inventory_items db0))"
    using inv by (simp_all add: stock_ok_def)
  from upsert_reservation_rows [OF u] have q: "0 < q" and db': "stock_reservations db' = ?rows"
      "inventory_items db' = (inventory_items db0)[n := ?i]"
    by (simp_all add: db) (simp_all add: reserving_def)
  have sum: "reserved_in w' sku' ?rows = reserved_in w' sku' (stock_reservations db0) + (if (w', sku') = (w, sku) then q else 0)" for w' sku'
    using reserved_in_upsert [OF keys(1), of ?r w w' sku'] none w
    by (simp add: reserving_def nullableString_def no_active_def reservation_key_def)
  have pos: "0 < rv_quantity r'" if "r' \<in> set ?rows" for r'
    using that inv q by (auto simp: upsert_def rebooked_def reserving_def stock_ok_def split: if_splits)
  have "map inventory_key ((inventory_items db0)[n := ?i]) = map inventory_key (inventory_items db0)"
    "on_hand db' = on_hand db0"
    using n(1,2) by (simp_all add: on_hand_def db'(2) map_update inventory_key_def list_update_same_conv)
  moreover have "iv_warehouse_id i' \<noteq> [] \<and> 0 \<le> iv_available_quantity i' \<and>
      iv_reserved_quantity i' = reserved_in (iv_warehouse_id i') (iv_sku i') ?rows"
    if mem: "i' \<in> set ((inventory_items db0)[n := ?i])" for i'
  proof -
    from mem obtain k where k: "k < length (inventory_items db0)" "i' = (if k = n then ?i else inventory_items db0 ! k)"
      by (auto simp: in_set_conv_nth nth_list_update)
    have old: "iv_warehouse_id j \<noteq> [] \<and> 0 \<le> iv_available_quantity j \<and>
      iv_reserved_quantity j = reserved_in (iv_warehouse_id j) (iv_sku j) (stock_reservations db0)"
      if "j \<in> set (inventory_items db0)" for j using inv that by (simp add: stock_ok_def)
    show ?thesis
    proof (cases "k = n")
      case True
      with k(2) old [OF i] n(3-5) show ?thesis by (simp add: sum)
    next
      case False
      have "inventory_key (inventory_items db0 ! k) \<noteq> inventory_key i"
        using False k(1) n(1,2) keys(2) by (auto simp: distinct_conv_nth)
      with False k old [of "inventory_items db0 ! k"] n(3,4) show ?thesis by (auto simp: sum inventory_key_def)
    qed
  qed
  ultimately show ?thesis using keys upsert_keys [OF keys(1), of ?r] pos inv by (simp add: stock_ok_def db')
qed

lemma stock_reserve: "preserves (stock_inv levels) (reserve_and_record p source at item)"
proof -
  have "triple (booked levels (e_OrderID source) item w)
      (wrapped ''upsert stock reservation'' (statement (upsert_reservation p
        (reserving (e_OrderID source) (fst item) (snd item) w at)))) (\<lambda>_. stock_inv levels)" for w
    by (intro triple_wrapped triple_statement) (auto simp: booked_def dest: booked_holding booked_taken)
  then show ?thesis unfolding reserve_and_record_def reserving_def [symmetric]
    by (intro triple_bind [OF triple_reserve_item] triple_bind triple_ret)
qed

subsection \<open>Releasing\<close>

definition released_row :: "string \<Rightarrow> time \<Rightarrow> reservation_row \<Rightarrow> reservation_row" where
  "released_row oid at r = (if rv_order_id r = oid \<and> rv_status r \<noteq> ''released''
     then r\<lparr>rv_status := ''released'', rv_released_at := Some (timestamptz at)\<rparr> else r)"

text \<open>What the order held of a row is what the sum of active reservations loses.\<close>

lemma reserved_in_released:
  "distinct (map reservation_key rows) \<Longrightarrow>
   reserved_in (iv_warehouse_id i) (iv_sku i) (map (released_row oid at) rows) =
   reserved_in (iv_warehouse_id i) (iv_sku i) rows -
     (case find (held_by oid i) rows of None \<Rightarrow> 0 | Some r \<Rightarrow> rv_quantity r)"
proof (induction rows)
  case (Cons q rows)
  show ?case
  proof (cases "held_by oid i q")
    case True
    have "\<not> held_by oid i r" if "r \<in> set rows" for r
      using that True Cons.prems by (auto simp: held_by_def reservation_key_def image_iff dest!: bspec)
    then have "find (held_by oid i) rows = None" by (rule find_None_all)
    moreover have "active_in (iv_warehouse_id i) (iv_sku i) q" "\<not> active_in (iv_warehouse_id i) (iv_sku i) (released_row oid at q)"
      using True by (simp_all add: active_in_def held_by_def released_row_def)
    ultimately show ?thesis using Cons True by simp
  next
    case False
    then have "active_in (iv_warehouse_id i) (iv_sku i) (released_row oid at q) = active_in (iv_warehouse_id i) (iv_sku i) q"
      "rv_quantity (released_row oid at q) = rv_quantity q"
      by (auto simp: active_in_def held_by_def released_row_def)
    with Cons False show ?thesis by simp
  qed
qed simp

lemma released_keys: "map reservation_key (map (released_row oid at) rows) = map reservation_key rows"
  by (simp add: reservation_key_def released_row_def)

definition returned :: "((string \<times> string) \<times> int) list \<Rightarrow> string \<Rightarrow> time \<Rightarrow> database \<Rightarrow> bool" where
  "returned levels oid at db \<longleftrightarrow> (\<exists>db0. stock_inv levels db0 \<and> stock_reservations db = stock_reservations db0 \<and>
     inventory_items db = map (give_back oid at db0) (inventory_items db0))"

lemma give_back_key [simp]:
  "iv_warehouse_id (give_back oid at db i) = iv_warehouse_id i" "iv_sku (give_back oid at db i) = iv_sku i"
  by (simp_all add: give_back_def split: option.splits)

lemma give_back_row:
  assumes "stock_ok db" "i \<in> set (inventory_items db)"
  shows "iv_available_quantity (give_back oid at db i) + iv_reserved_quantity (give_back oid at db i) =
      iv_available_quantity i + iv_reserved_quantity i"
    and "0 \<le> iv_available_quantity (give_back oid at db i)"
    and "iv_reserved_quantity (give_back oid at db i) =
      reserved_in (iv_warehouse_id i) (iv_sku i) (map (released_row oid at') (stock_reservations db))"
proof -
  have i: "0 \<le> iv_available_quantity i"
    "iv_reserved_quantity i = reserved_in (iv_warehouse_id i) (iv_sku i) (stock_reservations db)"
    and keys: "distinct (map reservation_key (stock_reservations db))"
    and pos: "\<And>r. r \<in> set (stock_reservations db) \<Longrightarrow> 0 < rv_quantity r"
    using assms by (auto simp: stock_ok_def)
  have le: "0 < rv_quantity r \<and> rv_quantity r \<le> iv_reserved_quantity i"
    if "find (held_by oid i) (stock_reservations db) = Some r" for r
    using find_SomeD [OF that] pos reserved_in_member [OF pos, where r = r and w = "iv_warehouse_id i" and sku = "iv_sku i"]
    by (simp add: i(2) held_by_def active_in_def)
  show "iv_available_quantity (give_back oid at db i) + iv_reserved_quantity (give_back oid at db i) =
      iv_available_quantity i + iv_reserved_quantity i" "0 \<le> iv_available_quantity (give_back oid at db i)"
    using le i(1) by (auto simp: give_back_def split: option.splits)
  show "iv_reserved_quantity (give_back oid at db i) =
      reserved_in (iv_warehouse_id i) (iv_sku i) (map (released_row oid at') (stock_reservations db))"
    unfolding reserved_in_released [OF keys] using le i(2) by (auto simp: give_back_def split: option.splits)
qed

lemma returned_released:
  assumes "returned levels oid at db" "release_reservations oid at' db = Inr (u, db')"
  shows "stock_inv levels db'"
proof -
  from assms(1) obtain db0 where inv: "stock_ok db0" "on_hand db0 = levels"
    and db: "stock_reservations db = stock_reservations db0" "inventory_items db = map (give_back oid at db0) (inventory_items db0)"
    by (auto simp: returned_def)
  from assms(2) db have db': "stock_reservations db' = map (released_row oid at') (stock_reservations db0)"
    "inventory_items db' = map (give_back oid at db0) (inventory_items db0)" by (auto simp: release_reservations_def released_row_def)
  note row = give_back_row [OF inv(1), where oid = oid and at = at]
  have keys: "map inventory_key (inventory_items db') = map inventory_key (inventory_items db0)"
    by (simp add: db' inventory_key_def)
  have "on_hand db' = on_hand db0" by (simp add: on_hand_def db' inventory_key_def row(1))
  moreover have "0 < rv_quantity r" if "r \<in> set (stock_reservations db')" for r
    using that inv(1) by (auto simp: db' stock_ok_def released_row_def)
  moreover have "iv_warehouse_id i \<noteq> [] \<and> 0 \<le> iv_available_quantity i \<and>
      iv_reserved_quantity i = reserved_in (iv_warehouse_id i) (iv_sku i) (stock_reservations db')"
    if "i \<in> set (inventory_items db')" for i
    using that inv(1) row(2) row(3) [of _ at'] by (auto simp: db' stock_ok_def)
  moreover have "distinct (map reservation_key (stock_reservations db'))"
    unfolding db'(1) released_keys using inv(1) by (simp add: stock_ok_def)
  ultimately show ?thesis using inv keys by (simp add: stock_ok_def)
qed

lemma stock_release: "preserves (stock_inv levels) (releaseReservedStock oid at)"
proof -
  have "triple (stock_inv levels) (wrapped msg (statement (return_stock oid at))) (\<lambda>_. returned levels oid at)" for msg
    by (intro triple_wrapped triple_statement) (auto simp: returned_def return_stock_def)
  moreover have "triple (returned levels oid at) (wrapped msg (statement (release_reservations oid at))) (\<lambda>_. stock_inv levels)" for msg
    by (intro triple_wrapped triple_statement) (rule returned_released)
  moreover have "preserves (stock_inv levels) (wrapped msg (statement (update_items Q st)))" for msg Q st
    by (intro triple_wrapped triple_statement, erule stock_inv_same [rotated]) (auto simp: same_stock_def update_items_def)
  ultimately show ?thesis unfolding releaseReservedStock_def releaseInventoryItems_def
    by - (rule triple_bind, assumption, rule triple_bind, assumption, rule triple_bind, assumption, rule triple_ret)
qed

subsection \<open>Every other statement leaves stock alone\<close>

lemma same_stock_statements:
  "insert_order_row p row db = Inr (u, db') \<Longrightarrow> same_stock db db'"
  "update_orders p P f db = Inr (n, db') \<Longrightarrow> same_stock db db'"
  "insert_item_row p item db = Inr (u, db') \<Longrightarrow> same_stock db db'"
  "update_items Q st db = Inr (n, db') \<Longrightarrow> same_stock db db'"
  "insert_key_row p key db = Inr (u, db') \<Longrightarrow> same_stock db db'"
  "insert_outbox_row p ob db = Inr (u, db') \<Longrightarrow> same_stock db db'"
  "insert_audit_row p log db = Inr (u, db') \<Longrightarrow> same_stock db db'"
  "insert_merchant p m db = Inr (n, db') \<Longrightarrow> same_stock db db'"
  "upsert_authorization p au db = Inr (u, db') \<Longrightarrow> same_stock db db'"
  "void_authorizations oid at db = Inr (u, db') \<Longrightarrow> same_stock db db'"
  "upsert_shipment p sh db = Inr (u, db') \<Longrightarrow> same_stock db db'"
  "upsert_notification p nt db = Inr (u, db') \<Longrightarrow> same_stock db db'"
  "upsert_compensation p cp db = Inr (u, db') \<Longrightarrow> same_stock db db'"
  "claim_rows p now limit db = Inr (rows, db') \<Longrightarrow> same_stock db db'"
  "publish_row mid at db = Inr (n, db') \<Longrightarrow> same_stock db db'"
  by (auto simp: same_stock_def insert_order_row_def update_orders_def insert_item_row_def update_items_def
      insert_key_row_def insert_outbox_row_def insert_audit_row_def insert_merchant_def upsert_authorization_def
      void_authorizations_def upsert_shipment_def upsert_notification_def upsert_compensation_def claim_rows_def
      publish_row_def Let_def split: if_splits sum.splits)

interpretation stock: table_invariant p "stock_inv levels" for p levels
  by unfold_locales (erule stock_inv_same [rotated], erule same_stock_statements | rule stock_reserve stock_release)+

end
