(* ===== verification/Pg_Reservation.thy ===== *)
theory Pg_Reservation
  imports Pg_Stock
begin

text \<open>
  What the transactions that move stock achieve for an order: a recorded reservation holds every item
  of the order, and a recorded cancellation or compensation leaves the order holding nothing.
\<close>

subsection \<open>Statements that leave reservations alone\<close>

lemma keeps_reservations:
  "preserves (\<lambda>db. R (stock_reservations db)) (update_order p msg oid f)"
  "preserves (\<lambda>db. R (stock_reservations db)) (statement (update_items Q st))"
  "preserves (\<lambda>db. R (stock_reservations db)) (voidAuthorizedPayment p oid at)"
  "preserves (\<lambda>db. R (stock_reservations db)) (insertAuditLog p a)"
  "preserves (\<lambda>db. R (stock_reservations db)) (append_logs p e a)"
  "preserves (\<lambda>db. R (stock_reservations db)) (statement (upsert_compensation p cp))"
proof -
  let ?K = "\<lambda>db. R (stock_reservations db)"
  have frame: "preserves ?K (statement f)" if "\<And>db x db'. f db = Inr (x, db') \<Longrightarrow> same_stock db db'"
    for f :: "database \<Rightarrow> pg_error + 'x \<times> database"
    by (rule triple_statement, drule that) (simp add: same_stock_def)
  note frames = frame [OF same_stock_statements(2)] frame [OF same_stock_statements(6)] frame [OF same_stock_statements(7)]
    frame [OF same_stock_statements(10)]
  show "preserves ?K (update_order p msg oid f)" unfolding update_order_def by (intro preserves_intros frames)
  show "preserves ?K (statement (update_items Q st))" by (rule frame [OF same_stock_statements(4)])
  show "preserves ?K (voidAuthorizedPayment p oid at)" unfolding voidAuthorizedPayment_def by (intro preserves_intros frames)
  show audit: "preserves ?K (insertAuditLog p a)" unfolding insertAuditLog_def by (intro preserves_intros frames)
  show "preserves ?K (append_logs p e a)"
    unfolding append_logs_def insertOutboxEvent_def Let_def by (intro preserves_intros frames audit)
  show "preserves ?K (statement (upsert_compensation p cp))" by (rule frame [OF same_stock_statements(13)])
qed

subsection \<open>Reserving\<close>

definition reserved_for :: "string \<Rightarrow> string \<times> int \<Rightarrow> reservation_row list \<Rightarrow> bool" where
  "reserved_for oid item rows \<longleftrightarrow> (\<exists>r\<in>set rows. reservation_key r = (oid, fst item) \<and>
     rv_quantity r = snd item \<and> rv_status r = ''reserved'')"

definition all_reserved :: "string \<Rightarrow> (string \<times> int) list \<Rightarrow> reservation_row list \<Rightarrow> bool" where
  "all_reserved oid items rows \<longleftrightarrow> (distinct (map fst items) \<longrightarrow> (\<forall>item\<in>set items. reserved_for oid item rows))"

lemma upsert_reserves:
  assumes "upsert_reservation p r db = Inr (u, db')" "rv_status r = ''reserved''"
  shows "reserved_for (rv_order_id r) (rv_sku r, rv_quantity r) (stock_reservations db')"
    and "reserved_for oid item (stock_reservations db) \<Longrightarrow> fst item \<noteq> rv_sku r \<Longrightarrow> reserved_for oid item (stock_reservations db')"
proof -
  define same where "same q \<longleftrightarrow> rv_order_id q = rv_order_id r \<and> rv_sku q = rv_sku r" for q :: reservation_row
  define f where "f q = q\<lparr>rv_warehouse_id := (case rv_warehouse_id r of Some w \<Rightarrow> Some w | None \<Rightarrow> rv_warehouse_id q),
    rv_quantity := rv_quantity r, rv_status := rv_status r, rv_reserved_at := rv_reserved_at r, rv_released_at := None\<rparr>" for q :: reservation_row
  have f: "rv_order_id (f q) = rv_order_id q" "rv_sku (f q) = rv_sku q" "rv_quantity (f q) = rv_quantity r" "rv_status (f q) = rv_status r" for q :: reservation_row
    by (simp_all add: f_def)
  have rows: "stock_reservations db' = upsert same f r (stock_reservations db)"
    using assms(1) by (auto simp: upsert_reservation_def same_def [abs_def] f_def [abs_def])
  show "reserved_for (rv_order_id r) (rv_sku r, rv_quantity r) (stock_reservations db')"
  proof (cases "list_ex same (stock_reservations db)")
    case True
    then obtain q where q: "q \<in> set (stock_reservations db)" "same q" by (auto simp: list_ex_iff)
    then have "f q \<in> set (stock_reservations db')" using True by (auto simp: rows upsert_def)
    with q(2) assms(2) show ?thesis
      by (auto simp: reserved_for_def reservation_key_def f same_def intro!: bexI [of _ "f q"])
  next
    case False
    with assms(2) show ?thesis by (simp add: rows upsert_def reserved_for_def reservation_key_def)
  qed
  show "reserved_for oid item (stock_reservations db')"
    if "reserved_for oid item (stock_reservations db)" "fst item \<noteq> rv_sku r"
  proof -
    from that(1) obtain q where q: "q \<in> set (stock_reservations db)" "reservation_key q = (oid, fst item)"
      "rv_quantity q = snd item" "rv_status q = ''reserved''" by (auto simp: reserved_for_def)
    with that(2) have "\<not> same q" by (auto simp: same_def reservation_key_def)
    with q(1) have "q \<in> set (stock_reservations db')" by (auto simp: rows upsert_def image_iff intro!: bexI [of _ q])
    with q show ?thesis by (auto simp: reserved_for_def)
  qed
qed

lemma take_keeps: "preserves (\<lambda>db. R (stock_reservations db)) (reserveInventoryItem m oid item at)"
proof -
  have "preserves (\<lambda>db. R (stock_reservations db)) (statement (take_stock m sku q at))" for sku q
    by (rule triple_statement) (auto simp: take_stock_def split: option.splits prod.splits)
  then show ?thesis unfolding reserveInventoryItem_def by (intro preserves_intros)
qed

lemma reserve_item_step:
  "triple (\<lambda>db. all_reserved (e_OrderID source) items (stock_reservations db)) (reserve_and_record p source at item)
     (\<lambda>_ db. all_reserved (e_OrderID source) (items @ [item]) (stock_reservations db))"
proof -
  let ?row = "\<lambda>w. \<lparr>rv_order_id = e_OrderID source, rv_warehouse_id = nullableString w, rv_sku = fst item,
    rv_quantity = snd item, rv_status = ''reserved'', rv_reserved_at = timestamptz at, rv_released_at = None\<rparr>"
  have "triple (\<lambda>db. all_reserved (e_OrderID source) items (stock_reservations db)) (statement (upsert_reservation p (?row w)))
     (\<lambda>_ db. all_reserved (e_OrderID source) (items @ [item]) (stock_reservations db))" for w
  proof (rule triple_statement)
    fix db x db'
    assume a: "all_reserved (e_OrderID source) items (stock_reservations db)" and up: "upsert_reservation p (?row w) db = Inr (x, db')"
    from up upsert_reserves [OF up] have new: "reserved_for (e_OrderID source) item (stock_reservations db')"
      and old: "\<And>i. reserved_for (e_OrderID source) i (stock_reservations db) \<Longrightarrow> fst i \<noteq> fst item \<Longrightarrow>
        reserved_for (e_OrderID source) i (stock_reservations db')" by auto
    show "all_reserved (e_OrderID source) (items @ [item]) (stock_reservations db')"
      using a new old by (auto simp: all_reserved_def image_iff)
  qed
  then show ?thesis unfolding reserve_and_record_def
    by (intro triple_bind [OF take_keeps] triple_bind [OF triple_wrapped] triple_ret)
qed

lemma reserve_all:
  "triple (\<lambda>db. True) (fold_op (reserve_and_record p source at) items)
     (\<lambda>_ db. all_reserved (e_OrderID source) items (stock_reservations db))"
  by (rule triple_pre [OF triple_fold [where I = "\<lambda>xs db. all_reserved (e_OrderID source) xs (stock_reservations db)", OF reserve_item_step]])
    (simp add: all_reserved_def)

definition wanted :: "string \<Rightarrow> database \<Rightarrow> (string \<times> int) list" where
  "wanted oid db = map (\<lambda>i. (it_sku i, it_quantity i)) (filter (\<lambda>i. it_order_id i = oid) (order_items db))"

lemma transaction_post:
  assumes "triple P body Q" "P (pg_db s)" "transaction b c body s = (Inr x, s')"
  shows "Q x (pg_db s')"
  using assms(3)
proof (cases rule: transaction_begun)
  case (ran s0 y s1)
  with tripleD [OF assms(1), of s0 y s1] assms(2) show ?thesis by simp
qed simp_all

lemma reserved_all_items:
  assumes "pg_RecordInventoryReserved p source nxt audit s = (Inr (), s')"
  shows "all_reserved (e_OrderID source) (wanted (e_OrderID source) (pg_db s)) (stock_reservations (pg_db s'))"
proof -
  let ?oid = "e_OrderID source"
  let ?P = "\<lambda>db. wanted ?oid db = wanted ?oid (pg_db s)"
  let ?A = "\<lambda>db. all_reserved ?oid (wanted ?oid (pg_db s)) (stock_reservations db)"
  have reads: "preserves ?P (lockOrderStatusForUpdate ?oid)" "preserves ?P (check_transition a b)" for a b
    unfolding lockOrderStatusForUpdate_def check_transition_def by (intro preserves_intros)+
  have items: "triple ?P (orderItemsForReservation ?oid) (\<lambda>items db. items = wanted ?oid (pg_db s))"
    unfolding orderItemsForReservation_def
    by (rule triple_read) (auto simp: wanted_def intro!: triple_raise triple_ret)
  have loop: "triple (\<lambda>db. items = wanted ?oid (pg_db s)) (fold_op (reserve_and_record p source at) items) (\<lambda>_. ?A)" for items at
    using reserve_all [of p source at items] by (auto simp: triple_def)
  note rest = keeps_reservations [where R = "\<lambda>rows. all_reserved ?oid (wanted ?oid (pg_db s)) rows"]
  show ?thesis
    by (rule transaction_post [OF _ _ assms [unfolded pg_RecordInventoryReserved_def]],
        rule triple_bind [OF reads(1)], rule triple_bind [OF reads(2)], rule triple_bind [OF items], rule triple_bind [OF loop])
      (intro preserves_intros rest, rule refl)
qed

subsection \<open>Releasing\<close>

definition holds_nothing :: "string \<Rightarrow> reservation_row list \<Rightarrow> bool" where
  "holds_nothing oid rows \<longleftrightarrow> (\<forall>r\<in>set rows. rv_order_id r = oid \<longrightarrow> rv_status r = ''released'')"

lemma triple_True: "triple P m (\<lambda>_ db. True)"
  by (simp add: triple_def)

text \<open>Nothing after the release touches reservations.\<close>

lemmas keeps_nothing = keeps_reservations [where R = "holds_nothing oid" for oid]

lemma release_all: "triple (\<lambda>db. True) (releaseReservedStock oid at) (\<lambda>_ db. holds_nothing oid (stock_reservations db))"
proof -
  have release: "triple (\<lambda>db. True) (statement (release_reservations oid at)) (\<lambda>_ db. holds_nothing oid (stock_reservations db))"
  proof (rule triple_statement)
    fix db u db'
    assume "release_reservations oid at db = Inr (u, db')"
    then have rows: "stock_reservations db' = map (released_row oid at) (stock_reservations db)"
      by (auto simp: release_reservations_def released_row_def)
    have "rv_order_id (released_row oid at r) = oid \<Longrightarrow> rv_status (released_row oid at r) = ''released''" for r
      by (simp add: released_row_def split: if_splits)
    then show "holds_nothing oid (stock_reservations db')" by (auto simp: rows holds_nothing_def)
  qed
  show ?thesis unfolding releaseReservedStock_def
    by (rule triple_bind [OF triple_True triple_bind [OF triple_wrapped [OF release]
          preserves_bind [OF triple_wrapped [OF keeps_nothing(2)] preserves_ret]]])
qed

lemma cancelled_holds_nothing:
  assumes "pg_RecordOrderCancelled p source nxt audit s = (Inr (), s')"
  shows "holds_nothing (e_OrderID source) (stock_reservations (pg_db s'))"
proof -
  let ?H = "\<lambda>db. holds_nothing (e_OrderID source) (stock_reservations db)"
  have tail: "triple (\<lambda>db. True) (if rows = 0 then raise_op ErrNotFound else
      bind_op (releaseReservedStock (e_OrderID source) at) (\<lambda>_. bind_op (voidAuthorizedPayment p oid at) (\<lambda>_. append_logs p e a)))
    (\<lambda>_. ?H)" for rows :: nat and at oid e a
    by (rule triple_if [OF triple_raise triple_bind [OF release_all preserves_bind [OF keeps_nothing(3) keeps_nothing(5)]]])
  show ?thesis
    by (rule transaction_post [where Q = "\<lambda>_. ?H", OF
          triple_bind [OF triple_True triple_bind [OF triple_True triple_bind [OF triple_True tail]]]
          TrueI assms [unfolded pg_RecordOrderCancelled_def]])
qed

lemma compensated_holds_nothing:
  assumes "pg_RecordCompensation p source status audit s = (Inr (), s')"
    and "e_EventType source = ''payment.failed'' \<or> e_EventType source = ''shipment.failed''"
  shows "holds_nothing (e_OrderID source) (stock_reservations (pg_db s'))"
proof -
  let ?H = "\<lambda>db. holds_nothing (e_OrderID source) (stock_reservations db)"
  have release: "triple (\<lambda>db. True) (if e_EventType source \<in> set [''payment.failed'', ''shipment.failed'']
      then releaseReservedStock (e_OrderID source) at else ret_op ()) (\<lambda>_. ?H)" for at
    using assms(2) release_all by auto
  have effects: "triple (\<lambda>db. True) (applyCompensationEffects p source at) (\<lambda>_. ?H)" for at
    unfolding applyCompensationEffects_def
    by (rule triple_bind [OF release preserves_if [OF keeps_nothing(3) preserves_ret]])
  have tail: "triple (\<lambda>db. True) (if rows = 0 then raise_op ErrNotFound else
      bind_op (applyCompensationEffects p source at) (\<lambda>_. bind_op (wrapped msg (statement (upsert_compensation p cp))) (\<lambda>_. insertAuditLog p a)))
    (\<lambda>_. ?H)" for rows :: nat and at msg cp a
    by (rule triple_if [OF triple_raise triple_bind [OF effects
          preserves_bind [OF triple_wrapped [OF keeps_nothing(6)] keeps_nothing(4)]]])
  show ?thesis
    by (rule transaction_post [where Q = "\<lambda>_. ?H", OF
          triple_bind [OF triple_True triple_bind [OF triple_True triple_bind [OF triple_True tail]]]
          TrueI assms(1) [unfolded pg_RecordCompensation_def]])
qed

end
