(* ===== verification/Pg_Messaging.thy ===== *)
theory Pg_Messaging
  imports Pg_Invariants Relay Consumer
begin

text \<open>
  The outbox and the inbox of the PostgreSQL store under faults of the connection: the contract of
  an outbox source for the relay, the contract of an inbox for the consumer, the round trip of an
  event through an outbox row, and the leases of claimed rows.
\<close>

subsection \<open>Single statements\<close>

lemma autocommit_cases:
  assumes "autocommit f s = (q, s')"
  obtains (kept) e where "q = Inl e" "pg_db s' = pg_db s"
  | (applied) e x where "f (pg_db s) = Inr (x, pg_db s')" "q = Inl e"
  | (ran) x where "f (pg_db s) = Inr (x, pg_db s')" "q = Inr x"
proof -
  have "(\<exists>e. q = Inl e \<and> pg_db s' = pg_db s) \<or> (\<exists>e x. f (pg_db s) = Inr (x, pg_db s') \<and> q = Inl e) \<or>
      (\<exists>x. f (pg_db s) = Inr (x, pg_db s') \<and> q = Inr x)"
  proof (cases "f (pg_db s)")
    case (Inl err)
    with assms show ?thesis by (auto simp: autocommit_def statement_def split: list.splits option.splits)
  next
    case (Inr y)
    with assms show ?thesis
      by (cases y) (auto simp: autocommit_def statement_def split: list.splits option.splits if_splits)
  qed
  with that show thesis by blast
qed

lemma wrapped_eq: "wrapped message m s = (r, s') \<longleftrightarrow>
    (\<exists>q. m s = (q, s') \<and> r = map_sum (\<lambda>err. wrap_error message (pg_message err)) id q)"
  unfolding wrapped_def by (rule catching_eq)

subsection \<open>Events through the outbox\<close>

text \<open>
  What is assumed of \<open>encoding/json\<close> and the JSONB column: a stored event decodes again, with its
  time and version, and with each of its strings that is valid in the encoding.
\<close>

definition same_envelope :: "pg_params \<Rightarrow> OutboxEvent \<Rightarrow> OutboxEvent \<Rightarrow> bool" where
  "same_envelope p e e' \<longleftrightarrow> e_OccurredAt e' = e_OccurredAt e \<and> e_SchemaVersion e' = e_SchemaVersion e \<and>
     list_all (\<lambda>field. text_ok p (field e) \<longrightarrow> field e' = field e)
       [e_MessageID, e_CorrelationID, e_CausationID, e_EventType, e_OrderID, e_MerchantID, e_Producer]"

definition json_ok :: "pg_params \<Rightarrow> bool" where
  "json_ok p \<longleftrightarrow> (\<forall>e payload document. event_out p e = Inr payload \<longrightarrow> jsonb p payload = Inr document \<longrightarrow>
     document \<noteq> [] \<and> (\<exists>e'. event_in p document = Inr e' \<and> same_envelope p e e'))"

text \<open>The planner returns all rows, those of the ordered query by \<open>occurred_at\<close>.\<close>

definition planner_ok :: "pg_params \<Rightarrow> bool" where
  "planner_ok p \<longleftrightarrow> (\<forall>rows. mset (by_occurred_at p rows) = mset rows \<and>
     sorted (map xb_occurred_at (by_occurred_at p rows)) \<and> mset (returning p rows) = mset rows)"

lemma planner_sets: "planner_ok p \<Longrightarrow> set (by_occurred_at p rows) = set rows \<and> set (returning p rows) = set rows"
  by (metis planner_ok_def set_mset_mset)

lemma scan_lease [simp]:
  "scanOutboxEvent p (r\<lparr>xb_published_at := t\<rparr>) = scanOutboxEvent p r"
  "scanOutboxEvent p (r\<lparr>xb_claimed_by := a\<rparr>) = scanOutboxEvent p r"
  "scanOutboxEvent p (r\<lparr>xb_claimed_until := b\<rparr>) = scanOutboxEvent p r"
proof -
  show "scanOutboxEvent p (r\<lparr>xb_published_at := t\<rparr>) = scanOutboxEvent p r"
    by (cases r, hypsubst, unfold scanOutboxEvent_def outbox_row.select_convs outbox_row.update_convs) (rule refl)
  show "scanOutboxEvent p (r\<lparr>xb_claimed_by := a\<rparr>) = scanOutboxEvent p r"
    by (cases r, hypsubst, unfold scanOutboxEvent_def outbox_row.select_convs outbox_row.update_convs) (rule refl)
  show "scanOutboxEvent p (r\<lparr>xb_claimed_until := b\<rparr>) = scanOutboxEvent p r"
    by (cases r, hypsubst, unfold scanOutboxEvent_def outbox_row.select_convs outbox_row.update_convs) (rule refl)
qed

lemma scan_all_member: "scan_all f rows = Inr xs \<Longrightarrow> x \<in> set xs \<Longrightarrow> \<exists>r\<in>set rows. f r = Inr x"
proof (induction rows arbitrary: xs)
  case (Cons r rows)
  then obtain y ys where "f r = Inr y" "scan_all f rows = Inr ys" "xs = y # ys"
    by (auto split: sum.splits) (metis map_sum.simps old.sum.exhaust Inr_Inl_False Inr_inject)
  with Cons show ?case by auto
qed simp

text \<open>Every row has its own message id, and an event read from a row carries the id of the row.\<close>

definition outbox_ok :: "pg_params \<Rightarrow> database \<Rightarrow> bool" where
  "outbox_ok p db \<longleftrightarrow> distinct (map xb_message_id (outbox_events db)) \<and>
     (\<forall>r\<in>set (outbox_events db). \<forall>e. scanOutboxEvent p r = Inr e \<longrightarrow> e_MessageID e = xb_message_id r)"

text \<open>What a row written for an event is read back as.\<close>

lemma fill_fields:
  "(if e_MessageID d = [] then d\<lparr>e_MessageID := e_MessageID d\<rparr> else d) = d"
  "(if e_CorrelationID d = [] then d\<lparr>e_CorrelationID := e_CorrelationID d\<rparr> else d) = d"
  "(if e_CausationID d = [] then d\<lparr>e_CausationID := e_CausationID d\<rparr> else d) = d"
  "(if e_EventType d = [] then d\<lparr>e_EventType := e_EventType d\<rparr> else d) = d"
  "(if e_OrderID d = [] then d\<lparr>e_OrderID := e_OrderID d\<rparr> else d) = d"
  "(if e_MerchantID d = [] then d\<lparr>e_MerchantID := e_MerchantID d\<rparr> else d) = d"
  by simp_all

lemma scan_written:
  assumes "json_ok p" "event_out p e = Inr payload" "jsonb p payload = Inr document"
    "list_all (text_ok p) [e_MessageID e, e_CorrelationID e, e_CausationID e, e_EventType e, e_OrderID e, e_MerchantID e]"
  shows "\<exists>e'. scanOutboxEvent p ((row_of_event e payload)\<lparr>xb_payload := document\<rparr>) = Inr (WithEnvelopeDefaults e') \<and>
    e_MessageID e' = e_MessageID e \<and> e_CorrelationID e' = e_CorrelationID e \<and> e_CausationID e' = e_CausationID e \<and>
    e_EventType e' = e_EventType e \<and> e_OrderID e' = e_OrderID e \<and> e_MerchantID e' = e_MerchantID e \<and>
    (\<not> IsZero (e_OccurredAt e) \<longrightarrow> e_OccurredAt e' = e_OccurredAt e) \<and> e_SchemaVersion e' = e_SchemaVersion e \<and>
    (text_ok p (e_Producer e) \<longrightarrow> e_Producer e' = e_Producer e)"
proof -
  obtain d where d: "document \<noteq> []" "event_in p document = Inr d" "same_envelope p e d"
    using assms(1) [unfolded json_ok_def, rule_format, OF assms(2,3)] by blast
  from d(3) assms(4) have f: "e_OccurredAt d = e_OccurredAt e" "e_SchemaVersion d = e_SchemaVersion e"
    "e_MessageID d = e_MessageID e" "e_CorrelationID d = e_CorrelationID e" "e_CausationID d = e_CausationID e"
    "e_EventType d = e_EventType e" "e_OrderID d = e_OrderID e" "e_MerchantID d = e_MerchantID e"
    "text_ok p (e_Producer e) \<longrightarrow> e_Producer d = e_Producer e"
    by (simp_all add: same_envelope_def)
  define d' where "d' = (if IsZero (e_OccurredAt d) then d\<lparr>e_OccurredAt := timestamptz (e_OccurredAt e)\<rparr> else d)"
  have "scanOutboxEvent p ((row_of_event e payload)\<lparr>xb_payload := document\<rparr>) = Inr (WithEnvelopeDefaults d')"
    unfolding scanOutboxEvent_def row_of_event_def outbox_row.select_convs outbox_row.update_convs d(2) sum.case
      f(3-8) [symmetric] Let_def fill_fields d'_def using d(1) f(1) by simp
  with d f show ?thesis by (intro exI [of _ d']) (simp add: d'_def)
qed

text \<open>What a successful insertion of an event appends.\<close>

lemma insert_event_row:
  assumes "insertOutboxEvent p event s = (Inr (), s')"
  shows "\<exists>payload document. event_out p (WithEnvelopeDefaults event) = Inr payload \<and> jsonb p payload = Inr document \<and>
    list_all (text_ok p) [e_MessageID (WithEnvelopeDefaults event), e_CorrelationID (WithEnvelopeDefaults event),
      e_CausationID (WithEnvelopeDefaults event), e_EventType (WithEnvelopeDefaults event), e_OrderID (WithEnvelopeDefaults event),
      e_MerchantID (WithEnvelopeDefaults event)] \<and>
    outbox_events (pg_db s') = outbox_events (pg_db s) @ [(row_of_event (WithEnvelopeDefaults event) payload)\<lparr>xb_payload := document\<rparr>]"
proof -
  let ?e = "WithEnvelopeDefaults event"
  from assms obtain payload where out: "event_out p ?e = Inr payload"
    and run: "wrapped ''insert outbox event'' (statement (insert_outbox_row p (row_of_event ?e payload))) s = (Inr (), s')"
    by (cases "event_out p ?e") (simp_all add: insertOutboxEvent_def Let_def bind_op_def op_simps)
  from run have "statement (insert_outbox_row p (row_of_event ?e payload)) s = (Inr (), s')"
    by (auto simp: wrapped_eq map_result_Inr)
  then obtain db where "insert_outbox_row p (row_of_event ?e payload) (pg_db s) = Inr ((), db)" "pg_db s' = db"
    by (auto simp: statement_def split: list.splits option.splits sum.splits)
  with out show ?thesis
    by (auto simp: insert_outbox_row_def row_of_event_def texts_ok_def split: sum.splits)
qed

lemma insert_outbox_keeps:
  assumes "json_ok p" "outbox_ok p db" "event_out p e = Inr payload"
    "insert_outbox_row p (row_of_event e payload) db = Inr (u, db')"
  shows "outbox_ok p db'"
proof -
  from assms(4) obtain document where doc: "jsonb p payload = Inr document"
    and db': "db' = db\<lparr>outbox_events := outbox_events db @ [(row_of_event e payload)\<lparr>xb_payload := document\<rparr>]\<rparr>"
    and texts: "list_all (text_ok p) [e_MessageID e, e_CorrelationID e, e_CausationID e, e_EventType e, e_OrderID e, e_MerchantID e]"
    and new: "\<forall>q\<in>set (outbox_events db). xb_message_id q \<noteq> e_MessageID e"
    by (auto simp: insert_outbox_row_def row_of_event_def texts_ok_def list_ex_iff split: sum.splits)
  define row where "row = (row_of_event e payload)\<lparr>xb_payload := document\<rparr>"
  have id: "xb_message_id row = e_MessageID e" by (simp add: row_def row_of_event_def)
  obtain e' where scan: "scanOutboxEvent p row = Inr (WithEnvelopeDefaults e')" "e_MessageID e' = e_MessageID e"
    using scan_written [OF assms(1,3) doc texts, folded row_def] by blast
  have rows: "outbox_events db' = outbox_events db @ [row]" by (simp add: db' row_def)
  show ?thesis unfolding outbox_ok_def rows
  proof (intro conjI ballI allI impI)
    show "distinct (map xb_message_id (outbox_events db @ [row]))" using assms(2) new id by (auto simp: outbox_ok_def)
    show "e_MessageID x = xb_message_id q" if "q \<in> set (outbox_events db @ [row])" "scanOutboxEvent p q = Inr x" for q x
    proof (cases "q = row")
      case True
      with scan id that(2) show ?thesis by auto
    next
      case False
      with that assms(2) show ?thesis by (simp add: outbox_ok_def)
    qed
  qed
qed

text \<open>The rows as the relay sees them are only changed in their lease and publication columns.\<close>

definition relabels :: "(outbox_row \<Rightarrow> outbox_row) \<Rightarrow> pg_params \<Rightarrow> bool" where
  "relabels f p \<longleftrightarrow> (\<forall>r. xb_message_id (f r) = xb_message_id r \<and> scanOutboxEvent p (f r) = scanOutboxEvent p r)"

lemma outbox_ok_relabel:
  assumes "outbox_ok p db" "relabels f p"
  shows "outbox_ok p (db\<lparr>outbox_events := map f (outbox_events db)\<rparr>)"
proof -
  have "xb_message_id \<circ> f = xb_message_id" using assms(2) by (auto simp: relabels_def)
  with assms show ?thesis by (auto simp: outbox_ok_def relabels_def)
qed

abbreviation leased :: "time \<Rightarrow> outbox_row \<Rightarrow> outbox_row" where
  "leased now r \<equiv> r\<lparr>xb_claimed_by := Some ''fulfillhub-outbox-relay'', xb_claimed_until := Some (now + 30 * Second)\<rparr>"

definition picked_ids :: "pg_params \<Rightarrow> time \<Rightarrow> int \<Rightarrow> database \<Rightarrow> string set" where
  "picked_ids p now limit db =
     set (map xb_message_id (take (nat limit) (by_occurred_at p (filter (claimable now) (outbox_events db)))))"

lemma claim_rows_eq:
  "claim_rows p now limit db = Inr (rows, db') \<longleftrightarrow>
     rows = returning p (map (leased now) (filter (\<lambda>r. xb_message_id r \<in> picked_ids p now limit db) (outbox_events db))) \<and>
     db' = db\<lparr>outbox_events := map (\<lambda>r. if xb_message_id r \<in> picked_ids p now limit db then leased now r else r) (outbox_events db)\<rparr>"
  by (auto simp: claim_rows_def picked_ids_def Let_def)

lemma publish_row_eq:
  "publish_row mid at db = Inr (n, db') \<longleftrightarrow>
     n = length (filter (\<lambda>r. xb_message_id r = mid \<and> xb_published_at r = None) (outbox_events db)) \<and>
     db' = db\<lparr>outbox_events := map (\<lambda>r. if xb_message_id r = mid \<and> xb_published_at r = None
       then r\<lparr>xb_published_at := Some (timestamptz at), xb_claimed_by := None, xb_claimed_until := None\<rparr> else r) (outbox_events db)\<rparr>"
  by (auto simp: publish_row_def Let_def)

lemma relabel_lease: "relabels (\<lambda>r. if Q r then leased now r else r) p"
  by (simp add: relabels_def)

lemma relabel_publish:
  "relabels (\<lambda>r. if Q r then r\<lparr>xb_published_at := t, xb_claimed_by := a, xb_claimed_until := b\<rparr> else r) p"
  by (simp add: relabels_def)

lemma outbox_rows_elsewhere:
  "insert_order_row p row db = Inr (u, db') \<Longrightarrow> outbox_events db' = outbox_events db"
  "update_orders p P f db = Inr (n, db') \<Longrightarrow> outbox_events db' = outbox_events db"
  "insert_item_row p item db = Inr (u, db') \<Longrightarrow> outbox_events db' = outbox_events db"
  "update_items Q st db = Inr (n, db') \<Longrightarrow> outbox_events db' = outbox_events db"
  "insert_key_row p key db = Inr (u, db') \<Longrightarrow> outbox_events db' = outbox_events db"
  "insert_audit_row p log db = Inr (u, db') \<Longrightarrow> outbox_events db' = outbox_events db"
  "upsert_shipment p sh db = Inr (u, db') \<Longrightarrow> outbox_events db' = outbox_events db"
  "same_ledger db db' \<Longrightarrow> outbox_events db' = outbox_events db"
  by (auto simp: insert_order_row_def update_orders_def insert_item_row_def update_items_def insert_key_row_def
      insert_audit_row_def upsert_shipment_def same_ledger_def split: sum.splits)

lemma outbox_ok_same: "outbox_events db' = outbox_events db \<Longrightarrow> outbox_ok p db \<Longrightarrow> outbox_ok p db'"
  by (simp add: outbox_ok_def)

lemma outbox_groups:
  "preserves (outbox_ok p) (reserve_and_record q source at pair)" "preserves (outbox_ok p) (releaseReservedStock oid at)"
proof -
  have frame: "preserves (outbox_ok p) (statement f)" if "\<And>db x db'. f db = Inr (x, db') \<Longrightarrow> outbox_events db' = outbox_events db"
    for f :: "database \<Rightarrow> pg_error + 'x \<times> database"
    by (rule triple_statement) (metis outbox_ok_same that)
  note frames = frame [OF outbox_rows_elsewhere(8) [OF frame_statements(1)]]
    frame [OF outbox_rows_elsewhere(8) [OF frame_statements(2)]]
    frame [OF outbox_rows_elsewhere(8) [OF frame_statements(3)]]
    frame [OF outbox_rows_elsewhere(8) [OF frame_statements(4)]] frame [OF outbox_rows_elsewhere(4)]
  show "preserves (outbox_ok p) (reserve_and_record q source at pair)"
    unfolding reserve_and_record_def reserveInventoryItem_def by (intro preserves_intros frames)
  show "preserves (outbox_ok p) (releaseReservedStock oid at)"
    unfolding releaseReservedStock_def releaseInventoryItems_def by (intro preserves_intros frames)
qed

text \<open>
  With sound JSON the condition on the outbox is an invariant; the assumption on the parameters is
  part of it, so that the interpretation holds for all of them.
\<close>

abbreviation outbox_inv :: "pg_params \<Rightarrow> database \<Rightarrow> bool" where
  "outbox_inv p db \<equiv> json_ok p \<and> outbox_ok p db"

lemma outbox_inv_same: "outbox_events db' = outbox_events db \<Longrightarrow> outbox_inv p db \<Longrightarrow> outbox_inv p db'"
  by (auto intro: outbox_ok_same)

lemma outbox_inv_cases:
  "(json_ok p \<Longrightarrow> preserves (outbox_ok p) m) \<Longrightarrow> preserves (outbox_inv p) m"
  unfolding triple_def by blast

interpretation outbox: table_invariant p "outbox_inv p" for p
proof
  fix db db' row u f P n item Q status key e payload log m au oid at sh nt cp now limit rows mid
  assume inv: "outbox_inv p db"
  show "outbox_inv p db'" if "event_out p (WithEnvelopeDefaults e) = Inr payload"
      "insert_outbox_row p (row_of_event (WithEnvelopeDefaults e) payload) db = Inr (u, db')"
    using inv insert_outbox_keeps [OF _ _ that] by simp
  show "outbox_inv p db'" if "claim_rows p now limit db = Inr (rows, db')"
    using inv that by (auto simp: claim_rows_eq intro!: outbox_ok_relabel [OF _ relabel_lease])
  show "outbox_inv p db'" if "publish_row mid at db = Inr (n, db')"
    using inv that by (auto simp: publish_row_eq intro!: outbox_ok_relabel [OF _ relabel_publish])
qed (erule outbox_inv_same [rotated], erule outbox_rows_elsewhere frame_statements [THEN outbox_rows_elsewhere(8)] |
    rule outbox_inv_cases, rule outbox_groups)+

subsection \<open>The contract of an outbox\<close>

definition pg_published :: "pg \<Rightarrow> string set" where
  "pg_published s = xb_message_id ` {r \<in> set (outbox_events (pg_db s)). xb_published_at r \<noteq> None}"

definition pg_events :: "pg_params \<Rightarrow> pg \<Rightarrow> OutboxEvent list" where
  "pg_events p s = concat (map (\<lambda>r. case scanOutboxEvent p r of Inl _ \<Rightarrow> [] | Inr e \<Rightarrow> [e]) (outbox_events (pg_db s)))"

definition pg_outbox_ok :: "pg_params \<Rightarrow> pg \<Rightarrow> bool" where
  "pg_outbox_ok p s \<longleftrightarrow> planner_ok p \<and> outbox_ok p (pg_db s)"

lemma pg_events_relabel:
  "outbox_events (pg_db s') = map f (outbox_events (pg_db s)) \<Longrightarrow> relabels f p \<Longrightarrow> pg_events p s' = pg_events p s"
  by (simp add: pg_events_def relabels_def comp_def)

lemma pg_published_relabel:
  assumes "outbox_events (pg_db s') = map f (outbox_events (pg_db s))" "\<And>r. xb_message_id (f r) = xb_message_id r"
  shows "pg_published s' = xb_message_id ` {r \<in> set (outbox_events (pg_db s)). xb_published_at (f r) \<noteq> None}"
proof -
  have "{r \<in> set (outbox_events (pg_db s')). xb_published_at r \<noteq> None} =
      f ` {r \<in> set (outbox_events (pg_db s)). xb_published_at (f r) \<noteq> None}" by (auto simp: assms(1))
  then show ?thesis by (simp only: pg_published_def image_image assms(2))
qed

lemma pg_pending_cases:
  assumes "pg_PendingOutboxEvents p now limit s = (r, s')"
  obtains (kept) e where "r = Inl e" "pg_db s' = pg_db s"
  | (claimed) rows n where "claim_rows p now n (pg_db s) = Inr (rows, pg_db s')" "n = (if limit \<le> 0 then 100 else limit)"
      "\<And>es. r = Inr es \<Longrightarrow> \<exists>xs. scan_all (scanOutboxEvent p) rows = Inr xs \<and> es = map WithEnvelopeDefaults xs"
proof -
  define n where "n = (if limit \<le> 0 then 100 else limit)"
  obtain q s1 where q: "autocommit (claim_rows p now n) s = (q, s1)" by fastforce
  have r: "s1 = s' \<and> r = (case q of Inl e \<Rightarrow> Inl (wrap_error ''claim pending outbox events'' (pg_message e))
      | Inr rows \<Rightarrow> map_sum (wrap_error ''scan pending outbox event'') (map WithEnvelopeDefaults) (scan_all (scanOutboxEvent p) rows))"
    using assms q unfolding pg_PendingOutboxEvents_def n_def [symmetric]
    by (cases q) (simp_all add: Let_def bind_op_def wrapped_def catching_def op_simps)
  from q show thesis
  proof (cases rule: autocommit_cases)
    case (kept e)
    with r that(1) show thesis by auto
  next
    case (applied e x)
    with r that(2) [of n x] n_def show thesis by auto
  next
    case (ran rows)
    with r that(2) [of n rows] n_def show thesis
      by (cases "scan_all (scanOutboxEvent p) rows") auto
  qed
qed

lemma pg_mark_cases:
  assumes "pg_MarkOutboxPublished mid at s = (r, s')"
  obtains (kept) "\<not> ok r" "pg_db s' = pg_db s"
  | (marked) n where "publish_row mid at (pg_db s) = Inr (n, pg_db s')" "ok r \<Longrightarrow> n \<noteq> 0"
proof -
  obtain q s1 where q: "autocommit (publish_row mid at) s = (q, s1)" by fastforce
  have r: "s1 = s' \<and> r = (case q of Inl e \<Rightarrow> Inl (wrap_error ''mark outbox event published'' (pg_message e))
      | Inr n \<Rightarrow> if n = 0 then Inl ErrNotFound else Inr ())"
    using assms q unfolding pg_MarkOutboxPublished_def
    by (cases q) (simp_all add: bind_op_def wrapped_def catching_def op_simps split: if_splits)
  from q show thesis
  proof (cases rule: autocommit_cases)
    case (kept e)
    with r that(1) show thesis by simp
  next
    case (applied e n)
    with r that(2) [of n] show thesis by simp
  next
    case (ran n)
    with r that(2) [of n] show thesis by (simp split: if_splits)
  qed
qed

lemma pg_pending_contract:
  assumes "pg_outbox_ok p s" "pg_PendingOutboxEvents p now limit s = (r, s')"
  shows "pg_outbox_ok p s' \<and> pg_events p s' = pg_events p s \<and> pg_published s' = pg_published s"
  using assms(2)
proof (cases rule: pg_pending_cases)
  case (claimed rows n)
  then have rows: "pg_db s' = (pg_db s)\<lparr>outbox_events := map (\<lambda>r. if xb_message_id r \<in> picked_ids p now n (pg_db s)
      then leased now r else r) (outbox_events (pg_db s))\<rparr>" by (simp add: claim_rows_eq)
  have "pg_published s' = xb_message_id ` {r \<in> set (outbox_events (pg_db s)).
      xb_published_at (if xb_message_id r \<in> picked_ids p now n (pg_db s) then leased now r else r) \<noteq> None}"
    by (rule pg_published_relabel) (simp_all add: rows)
  then have "pg_published s' = pg_published s" by (simp add: pg_published_def if_distrib cong: if_cong)
  moreover have "outbox_events (pg_db s') = map (\<lambda>r. if xb_message_id r \<in> picked_ids p now n (pg_db s)
      then leased now r else r) (outbox_events (pg_db s))" by (simp add: rows)
  then have "pg_events p s' = pg_events p s" by (rule pg_events_relabel [OF _ relabel_lease])
  ultimately show ?thesis using assms(1) by (auto simp: pg_outbox_ok_def rows intro!: outbox_ok_relabel [OF _ relabel_lease])
qed (use assms(1) in \<open>simp add: pg_outbox_ok_def pg_events_def pg_published_def\<close>)

lemma picked_unpublished:
  assumes "planner_ok p" "outbox_ok p db" "r \<in> set (outbox_events db)" "xb_message_id r \<in> picked_ids p now n db"
  shows "claimable now r"
proof -
  from assms(1,4) obtain q where "q \<in> set (outbox_events db)" "claimable now q" "xb_message_id q = xb_message_id r"
    using planner_sets [of p "filter (claimable now) (outbox_events db)"]
    by (auto simp: picked_ids_def dest!: in_set_takeD)
  with assms(2,3) show ?thesis by (auto simp: outbox_ok_def distinct_map dest: inj_onD)
qed

lemma pg_pending_handed:
  assumes "pg_outbox_ok p s" "pg_PendingOutboxEvents p now limit s = (Inr es, s')" "e \<in> set es"
  shows "\<exists>r x. r \<in> set (outbox_events (pg_db s)) \<and> claimable now r \<and> scanOutboxEvent p r = Inr x \<and>
    e = WithEnvelopeDefaults x \<and> e_MessageID e = xb_message_id r \<and> leased now r \<in> set (outbox_events (pg_db s'))"
  using assms(2)
proof (cases rule: pg_pending_cases)
  case (claimed rows n)
  from claimed(3) [OF refl] assms(3) obtain xs x where xs: "scan_all (scanOutboxEvent p) rows = Inr xs" "x \<in> set xs"
    "e = WithEnvelopeDefaults x" by auto
  from scan_all_member [OF xs(1,2)] obtain q where q: "q \<in> set rows" "scanOutboxEvent p q = Inr x" by blast
  from q(1) claimed(1) planner_sets [of p] assms(1) obtain r where r: "r \<in> set (outbox_events (pg_db s))"
    "xb_message_id r \<in> picked_ids p now n (pg_db s)" "q = leased now r"
    by (auto simp: claim_rows_eq pg_outbox_ok_def)
  have "scanOutboxEvent p r = Inr x" using q(2) r(3) by simp
  moreover have "e_MessageID x = xb_message_id r"
    using assms(1) r(1) calculation by (auto simp: pg_outbox_ok_def outbox_ok_def)
  moreover have "claimable now r"
    using picked_unpublished [OF _ _ r(1,2)] assms(1) by (simp add: pg_outbox_ok_def)
  moreover have "leased now r \<in> set (outbox_events (pg_db s'))" using claimed(1) r(1,2) by (auto simp: claim_rows_eq)
  ultimately show ?thesis using r(1) xs(3) by auto
qed simp

lemma pg_mark_contract:
  assumes "pg_outbox_ok p s" "pg_MarkOutboxPublished mid at s = (r, s')"
  shows "pg_outbox_ok p s' \<and> pg_events p s' = pg_events p s \<and>
    pg_published s' \<in> {pg_published s, insert mid (pg_published s)} \<and> (ok r \<longrightarrow> pg_published s' = insert mid (pg_published s))"
  using assms(2)
proof (cases rule: pg_mark_cases)
  case (marked n)
  let ?P = "\<lambda>r. xb_message_id r = mid \<and> xb_published_at r = None"
  from marked(1) have rows: "pg_db s' = (pg_db s)\<lparr>outbox_events := map (\<lambda>r. if ?P r then
      r\<lparr>xb_published_at := Some (timestamptz at), xb_claimed_by := None, xb_claimed_until := None\<rparr> else r)
      (outbox_events (pg_db s))\<rparr>" and n: "n = length (filter ?P (outbox_events (pg_db s)))"
    by (simp_all add: publish_row_eq)
  have "pg_published s' = pg_published s \<union> xb_message_id ` {r \<in> set (outbox_events (pg_db s)). ?P r}"
    by (subst pg_published_relabel [where f = "\<lambda>r. if ?P r then r\<lparr>xb_published_at := Some (timestamptz at),
      xb_claimed_by := None, xb_claimed_until := None\<rparr> else r"]) (auto simp: rows pg_published_def)
  moreover have "xb_message_id ` {r \<in> set (outbox_events (pg_db s)). ?P r} = (if n = 0 then {} else {mid})"
    by (cases "filter ?P (outbox_events (pg_db s))") (auto simp: n filter_empty_conv filter_eq_Cons_iff)
  moreover have "outbox_events (pg_db s') = map (\<lambda>r. if ?P r then r\<lparr>xb_published_at := Some (timestamptz at),
      xb_claimed_by := None, xb_claimed_until := None\<rparr> else r) (outbox_events (pg_db s))" by (simp add: rows)
  then have "pg_events p s' = pg_events p s" by (rule pg_events_relabel [OF _ relabel_publish])
  moreover have "pg_outbox_ok p s'"
    using assms(1) by (auto simp: pg_outbox_ok_def rows intro!: outbox_ok_relabel [OF _ relabel_publish])
  ultimately show ?thesis using marked(2) by auto
qed (use assms(1) in \<open>simp add: pg_outbox_ok_def pg_events_def pg_published_def\<close>)

lemma pg_events_scanned:
  "r \<in> set (outbox_events (pg_db s)) \<Longrightarrow> scanOutboxEvent p r = Inr x \<Longrightarrow> x \<in> set (pg_events p s)"
  by (simp add: pg_events_def) (rule bexI [of _ r], simp_all)

interpretation pg: outbox_source "pg_Outbox p" "pg_outbox_ok p" "pg_events p" pg_published for p
proof
  fix s now limit r s' es e mid at r2
  assume inv: "pg_outbox_ok p s"
  show "pg_outbox_ok p s' \<and> pg_events p s' = pg_events p s \<and> pg_published s' = pg_published s"
    if "os_PendingOutboxEvents (pg_Outbox p) now limit s = (r, s')"
    using pg_pending_contract [OF inv] that by (simp add: pg_Outbox_def)
  show "pg_outbox_ok p s' \<and> pg_events p s' = pg_events p s \<and>
      pg_published s' \<in> {pg_published s, insert mid (pg_published s)} \<and> (ok r2 \<longrightarrow> pg_published s' = insert mid (pg_published s))"
    if "os_MarkOutboxPublished (pg_Outbox p) mid at s = (r2, s')"
    using pg_mark_contract [OF inv] that by (simp add: pg_Outbox_def)
  show "e \<in> WithEnvelopeDefaults ` set (pg_events p s) \<and> e_MessageID e \<notin> pg_published s"
    if run: "os_PendingOutboxEvents (pg_Outbox p) now limit s = (Inr es, s')" and e: "e \<in> set es"
  proof -
    from pg_pending_handed [OF inv _ e, of now limit s'] run obtain r x where r: "r \<in> set (outbox_events (pg_db s))" "claimable now r"
      "scanOutboxEvent p r = Inr x" "e = WithEnvelopeDefaults x" "e_MessageID e = xb_message_id r"
      by (auto simp: pg_Outbox_def)
    have "e_MessageID e \<notin> pg_published s"
      using inv r(1,2,5) by (auto simp: pg_outbox_ok_def outbox_ok_def pg_published_def claimable_def distinct_map dest: inj_onD)
    with pg_events_scanned [OF r(1,3)] r(4) show ?thesis by blast
  qed
qed

interpretation pg_rabbit: relay "pg_Outbox p" "pg_outbox_ok p" "pg_events p" pg_published
  "RabbitPublisher_Publish marshal inject" rabbit_sent for p marshal inject ..

subsection \<open>The contract of an inbox\<close>

definition inbox_id :: "inbox_row \<Rightarrow> string \<times> string" where
  "inbox_id i = (in_consumer_name i, in_message_id i)"

definition pg_seen :: "pg \<Rightarrow> (string \<times> string) set" where
  "pg_seen s = inbox_id ` set (inbox_messages (pg_db s))"

lemma insert_inbox_row_eq:
  assumes "insert_inbox_row p row db = Inr (n, db')"
  shows "n = (if inbox_id row \<in> inbox_id ` set (inbox_messages db) then 0 else 1) \<and>
    inbox_id ` set (inbox_messages db') = insert (inbox_id row) (inbox_id ` set (inbox_messages db))"
proof -
  have "list_ex (\<lambda>i. in_consumer_name i = in_consumer_name row \<and> in_message_id i = in_message_id row) (inbox_messages db)
      \<longleftrightarrow> inbox_id row \<in> inbox_id ` set (inbox_messages db)"
    by (simp add: list_ex_iff image_iff inbox_id_def eq_commute [of "in_consumer_name row"] eq_commute [of "in_message_id row"])
  with assms show ?thesis by (simp add: insert_inbox_row_def insert_absorb split: if_splits)
qed

lemma pg_record_contract:
  assumes "pg_RecordInboxMessage p c e s = (r, s')"
  shows "pg_seen s' \<in> {pg_seen s, insert (c, e_MessageID e) (pg_seen s)}"
    and "r = Inr fresh \<Longrightarrow> fresh = ((c, e_MessageID e) \<notin> pg_seen s) \<and> pg_seen s' = insert (c, e_MessageID e) (pg_seen s)"
proof -
  let ?row = "\<lparr>in_consumer_name = c, in_message_id = e_MessageID e, in_correlation_id = e_CorrelationID e\<rparr>"
  obtain q s1 where q: "autocommit (insert_inbox_row p ?row) s = (q, s1)" by (rule prod.exhaust)
  have r: "s1 = s' \<and> r = map_sum (\<lambda>err. wrap_error ''record inbox message'' (pg_message err)) (\<lambda>n. n = 1) q"
    using assms q unfolding pg_RecordInboxMessage_def
    by (cases q) (simp_all add: bind_op_def wrapped_def catching_def op_simps)
  from q have "pg_seen s' \<in> {pg_seen s, insert (c, e_MessageID e) (pg_seen s)} \<and>
    (r = Inr fresh \<longrightarrow> fresh = ((c, e_MessageID e) \<notin> pg_seen s) \<and> pg_seen s' = insert (c, e_MessageID e) (pg_seen s))"
  proof (cases rule: autocommit_cases)
    case (kept e')
    with r show ?thesis by (simp add: pg_seen_def)
  next
    case (applied e' n)
    with insert_inbox_row_eq [OF applied(1)] r show ?thesis by (simp add: pg_seen_def inbox_id_def [of ?row])
  next
    case (ran n)
    with insert_inbox_row_eq [OF ran(1)] r show ?thesis by (simp add: pg_seen_def inbox_id_def [of ?row])
  qed
  then show "pg_seen s' \<in> {pg_seen s, insert (c, e_MessageID e) (pg_seen s)}"
    "r = Inr fresh \<Longrightarrow> fresh = ((c, e_MessageID e) \<notin> pg_seen s) \<and> pg_seen s' = insert (c, e_MessageID e) (pg_seen s)"
    by auto
qed

lemma pg_release_contract:
  assumes "pg_ReleaseInboxMessage c e s = (r, s')"
  shows "pg_seen s' \<in> {pg_seen s, pg_seen s - {(c, e_MessageID e)}}" "ok r \<Longrightarrow> pg_seen s' = pg_seen s - {(c, e_MessageID e)}"
proof -
  from assms obtain q where q: "autocommit (\<lambda>db. Inr ((), db\<lparr>inbox_messages :=
       filter (\<lambda>i. \<not> (in_consumer_name i = c \<and> in_message_id i = e_MessageID e)) (inbox_messages db)\<rparr>)) s = (q, s')"
    "ok r = ok q" by (auto simp: pg_ReleaseInboxMessage_def wrapped_eq ok_map_result)
  have gone: "inbox_id ` set (filter (\<lambda>i. \<not> (in_consumer_name i = c \<and> in_message_id i = m)) rows) =
      inbox_id ` set rows - {(c, m)}" for m rows by (auto simp: inbox_id_def)
  from q(1) have "pg_db s' = pg_db s \<and> \<not> ok q \<or> pg_db s' = (pg_db s)\<lparr>inbox_messages :=
       filter (\<lambda>i. \<not> (in_consumer_name i = c \<and> in_message_id i = e_MessageID e)) (inbox_messages (pg_db s))\<rparr>"
    by (cases rule: autocommit_cases) simp_all
  then have "pg_seen s' = pg_seen s \<and> \<not> ok q \<or> pg_seen s' = pg_seen s - {(c, e_MessageID e)}"
    unfolding pg_seen_def gone [symmetric] by (elim disjE) simp_all
  with q(2) show "pg_seen s' \<in> {pg_seen s, pg_seen s - {(c, e_MessageID e)}}" "ok r \<Longrightarrow> pg_seen s' = pg_seen s - {(c, e_MessageID e)}"
    by auto
qed

interpretation pg: inbox_contract "PersistentInbox (Some (pg_Recorder p))" Pair pg_seen for p
proof (rule PersistentInbox_inbox, unfold_locales)
  fix c e i fresh i' err release
  let ?I = "\<lparr>ib_Record = ir_RecordInboxMessage (pg_Recorder p), ib_Release = ir_ReleaseInboxMessage (pg_Recorder p)\<rparr>"
  show "fresh = ((c, e_MessageID e) \<notin> pg_seen i) \<and> pg_seen i' = insert (c, e_MessageID e) (pg_seen i)"
    if "ib_Record ?I c e i = (Inr fresh, i')"
    using that pg_record_contract(2) [of p c e i "Inr fresh" i' fresh] by (simp add: pg_Recorder_def)
  show "pg_seen i' \<in> {pg_seen i, insert (c, e_MessageID e) (pg_seen i)}" if "ib_Record ?I c e i = (Inl err, i')"
    using that pg_record_contract(1) [of p c e i "Inl err" i'] by (simp add: pg_Recorder_def)
  show "pg_seen i' = pg_seen i - {(c, e_MessageID e)}" if "ib_Release ?I = Some release" "release c e i = (Inr (), i')"
    using that pg_release_contract(2) [of c e i "Inr ()" i'] by (simp add: pg_Recorder_def)
  show "pg_seen i' \<in> {pg_seen i, pg_seen i - {(c, e_MessageID e)}}" if "ib_Release ?I = Some release" "release c e i = (Inl err, i')"
    using that pg_release_contract(1) [of c e i "Inl err" i'] by (simp add: pg_Recorder_def)
qed (simp add: pg_Recorder_def)

end
