(* ===== verification/Pg_Leases.thy ===== *)
theory Pg_Leases
  imports Pg_Messaging
begin

text \<open>
  The leases of claimed outbox rows: once a row is claimed, no call on the store, whichever and
  under whatever faults, makes it claimable before its lease ends, and then it can be claimed again.
\<close>

text \<open>Row \<open>mid\<close> is published, or leased at least until \<open>until\<close>.\<close>

definition held_until :: "string \<Rightarrow> time \<Rightarrow> outbox_row \<Rightarrow> bool" where
  "held_until mid until r \<longleftrightarrow> xb_message_id r = mid \<and>
     (xb_published_at r \<noteq> None \<or> (case xb_claimed_until r of None \<Rightarrow> False | Some u \<Rightarrow> until \<le> u))"

definition lease_ok :: "string \<Rightarrow> time \<Rightarrow> database \<Rightarrow> bool" where
  "lease_ok mid until db \<longleftrightarrow> distinct (map xb_message_id (outbox_events db)) \<and>
     (\<exists>r\<in>set (outbox_events db). held_until mid until r)"

abbreviation lease_inv :: "pg_params \<Rightarrow> string \<Rightarrow> time \<Rightarrow> database \<Rightarrow> bool" where
  "lease_inv p mid until db \<equiv> planner_ok p \<and> lease_ok mid until db"

lemma lease_ok_same: "outbox_events db' = outbox_events db \<Longrightarrow> lease_ok mid until db \<Longrightarrow> lease_ok mid until db'"
  by (simp add: lease_ok_def)

lemma lease_inv_same: "outbox_events db' = outbox_events db \<Longrightarrow> lease_inv p mid until db \<Longrightarrow> lease_inv p mid until db'"
  by (auto intro: lease_ok_same)

lemma lease_ok_map:
  assumes "lease_ok mid until db" "\<And>r. xb_message_id (f r) = xb_message_id r"
    and "\<And>r. r \<in> set (outbox_events db) \<Longrightarrow> held_until mid until r \<Longrightarrow> held_until mid until (f r)"
  shows "lease_ok mid until (db\<lparr>outbox_events := map f (outbox_events db)\<rparr>)"
proof -
  have "xb_message_id \<circ> f = xb_message_id" using assms(2) by auto
  with assms(1,3) show ?thesis by (auto simp: lease_ok_def)
qed

lemma picked_claimable:
  assumes "planner_ok p" "distinct (map xb_message_id (outbox_events db))" "r \<in> set (outbox_events db)"
    "xb_message_id r \<in> picked_ids p now n db"
  shows "claimable now r"
proof -
  from assms(1,4) obtain q where "q \<in> set (outbox_events db)" "claimable now q" "xb_message_id q = xb_message_id r"
    using planner_sets [of p "filter (claimable now) (outbox_events db)"]
    by (auto simp: picked_ids_def dest!: in_set_takeD)
  with assms(2,3) show ?thesis by (auto simp: distinct_map dest: inj_onD)
qed

lemma lease_claim:
  assumes "planner_ok p" "lease_ok mid until db" "claim_rows p now n db = Inr (rows, db')"
  shows "lease_ok mid until db'"
proof -
  let ?f = "\<lambda>r. if xb_message_id r \<in> picked_ids p now n db then leased now r else r"
  have d: "distinct (map xb_message_id (outbox_events db))" using assms(2) by (simp add: lease_ok_def)
  have "held_until mid until (?f r)" if "r \<in> set (outbox_events db)" "held_until mid until r" for r
  proof (cases "xb_message_id r \<in> picked_ids p now n db")
    case True
    have "claimable now r" by (rule picked_claimable [OF assms(1) d that(1) True])
    with that(2) True show ?thesis by (auto simp: held_until_def claimable_def split: option.splits)
  qed (use that(2) in simp)
  then have "lease_ok mid until (db\<lparr>outbox_events := map ?f (outbox_events db)\<rparr>)"
    by (intro lease_ok_map [OF assms(2)]) simp_all
  with assms(3) show ?thesis by (simp add: claim_rows_eq)
qed

lemma lease_publish:
  assumes "lease_ok mid until db" "publish_row mid' at db = Inr (n, db')"
  shows "lease_ok mid until db'"
proof -
  let ?f = "\<lambda>r. if xb_message_id r = mid' \<and> xb_published_at r = None
    then r\<lparr>xb_published_at := Some (timestamptz at), xb_claimed_by := None, xb_claimed_until := None\<rparr> else r"
  have "lease_ok mid until (db\<lparr>outbox_events := map ?f (outbox_events db)\<rparr>)"
    by (intro lease_ok_map [OF assms(1)]) (simp_all add: held_until_def)
  with assms(2) show ?thesis by (simp add: publish_row_eq)
qed

lemma lease_insert:
  assumes "lease_ok mid until db" "insert_outbox_row p row db = Inr (u, db')"
  shows "lease_ok mid until db'"
  using assms by (auto simp: lease_ok_def insert_outbox_row_def list_ex_iff split: sum.splits)

lemma lease_groups:
  "preserves (lease_inv p mid until) (reserve_and_record q source at pair)"
  "preserves (lease_inv p mid until) (releaseReservedStock oid at)"
proof -
  have frame: "preserves (lease_inv p mid until) (statement f)"
    if "\<And>db x db'. f db = Inr (x, db') \<Longrightarrow> outbox_events db' = outbox_events db"
    for f :: "database \<Rightarrow> pg_error + 'x \<times> database"
    by (rule triple_statement) (metis lease_ok_same that)
  note frames = frame [OF outbox_rows_elsewhere(8) [OF frame_statements(1)]]
    frame [OF outbox_rows_elsewhere(8) [OF frame_statements(2)]]
    frame [OF outbox_rows_elsewhere(8) [OF frame_statements(3)]]
    frame [OF outbox_rows_elsewhere(8) [OF frame_statements(4)]] frame [OF outbox_rows_elsewhere(4)]
  show "preserves (lease_inv p mid until) (reserve_and_record q source at pair)"
    unfolding reserve_and_record_def reserveInventoryItem_def by (intro preserves_intros frames)
  show "preserves (lease_inv p mid until) (releaseReservedStock oid at)"
    unfolding releaseReservedStock_def releaseInventoryItems_def by (intro preserves_intros frames)
qed

interpretation lease: table_invariant p "lease_inv p mid until" for p mid until
proof
  fix db db' row u f P n item Q status key e payload log m au oid at sh nt cp now limit rows mid'
  assume inv: "lease_inv p mid until db"
  show "lease_inv p mid until db'" if "insert_outbox_row p (row_of_event (WithEnvelopeDefaults e) payload) db = Inr (u, db')"
    using inv lease_insert [OF _ that] by simp
  show "lease_inv p mid until db'" if "claim_rows p now limit db = Inr (rows, db')"
    using inv lease_claim [OF _ _ that] by simp
  show "lease_inv p mid until db'" if "publish_row mid' at db = Inr (n, db')"
    using inv lease_publish [OF _ that] by simp
qed (erule lease_inv_same [rotated], erule outbox_rows_elsewhere frame_statements [THEN outbox_rows_elsewhere(8)] |
    rule lease_groups)+

text \<open>So a message that was handed out is not handed out again while its lease lasts.\<close>

lemma claimed_held:
  assumes "pg_outbox_ok p s" "pg_PendingOutboxEvents p now limit s = (Inr es, s')" "e \<in> set es"
  shows "lease_inv p (e_MessageID e) (now + 30 * Second) (pg_db s')"
proof -
  from pg_pending_handed [OF assms] obtain r where r: "e_MessageID e = xb_message_id r"
    "leased now r \<in> set (outbox_events (pg_db s'))" by blast
  have "held_until (e_MessageID e) (now + 30 * Second) (leased now r)" by (simp add: held_until_def r(1))
  with pg_pending_contract [OF assms(1,2)] r(2) show ?thesis
    by (auto simp: pg_outbox_ok_def outbox_ok_def lease_ok_def simp del: outbox_row.update_convs)
qed

lemma held_not_claimable:
  assumes "lease_ok mid until db" "r \<in> set (outbox_events db)" "claimable now r" "now < until"
  shows "xb_message_id r \<noteq> mid"
proof
  assume id: "xb_message_id r = mid"
  from assms(1) obtain q where "q \<in> set (outbox_events db)" "held_until mid until q" by (auto simp: lease_ok_def)
  moreover from this id assms(1,2) have "q = r" by (auto simp: lease_ok_def held_until_def distinct_map dest: inj_onD)
  ultimately show False using assms(3,4) by (auto simp: held_until_def claimable_def split: option.splits)
qed

text \<open>A claim that may take every row takes every claimable row.\<close>

lemma scan_all_rows: "scan_all f rows = Inr xs \<Longrightarrow> r \<in> set rows \<Longrightarrow> \<exists>x\<in>set xs. f r = Inr x"
proof (induction rows arbitrary: xs)
  case (Cons q rows)
  from Cons.prems(1) obtain y where y: "f q = Inr y" by (auto split: sum.splits)
  with Cons.prems(1) obtain ys where ys: "scan_all f rows = Inr ys" "xs = y # ys"
    by (cases "scan_all f rows") auto
  with y Cons.IH [OF ys(1)] Cons.prems(2) show ?case by auto
qed simp

lemma claim_takes_all:
  assumes "pg_outbox_ok p s" "pg_PendingOutboxEvents p now limit s = (Inr es, s')"
    and "int (length (outbox_events (pg_db s))) \<le> limit" "r \<in> set (outbox_events (pg_db s))" "claimable now r"
  shows "xb_message_id r \<in> e_MessageID ` set es"
  using assms(2)
proof (cases rule: pg_pending_cases)
  case (claimed rows n)
  have planner: "planner_ok p" using assms(1) by (simp add: pg_outbox_ok_def)
  have "0 < limit" using assms(3) length_pos_if_in_set [OF assms(4)] by linarith
  moreover have "length (by_occurred_at p (filter (claimable now) (outbox_events (pg_db s)))) =
      length (filter (claimable now) (outbox_events (pg_db s)))"
    using planner by (metis planner_ok_def mset_eq_length)
  moreover have "int (length (filter (claimable now) (outbox_events (pg_db s)))) \<le> limit"
    using assms(3) length_filter_le [of "claimable now" "outbox_events (pg_db s)"] by linarith
  ultimately have "length (by_occurred_at p (filter (claimable now) (outbox_events (pg_db s)))) \<le> nat n"
    using claimed(2) by simp
  then have "xb_message_id r \<in> picked_ids p now n (pg_db s)"
    using planner_sets [OF planner] assms(4,5) by (auto simp: picked_ids_def)
  then have "leased now r \<in> set rows"
    using claimed(1) planner_sets [OF planner] assms(4) by (auto simp: claim_rows_eq)
  moreover from claimed(3) [OF refl] obtain xs where xs: "scan_all (scanOutboxEvent p) rows = Inr xs" "es = map WithEnvelopeDefaults xs"
    by blast
  ultimately obtain x where x: "x \<in> set xs" "scanOutboxEvent p (leased now r) = Inr x"
    using scan_all_rows [OF xs(1)] by blast
  from x(2) have "scanOutboxEvent p r = Inr x" by simp
  then have "e_MessageID x = xb_message_id r" using assms(1,4) by (auto simp: pg_outbox_ok_def outbox_ok_def)
  then have "xb_message_id r = e_MessageID (WithEnvelopeDefaults x)" by simp
  moreover have "WithEnvelopeDefaults x \<in> set es" using x(1) xs(2) by simp
  ultimately show ?thesis by (rule image_eqI)
qed simp

end
