(* ===== verification/Order_Service.thy ===== *)
theory Order_Service
  imports Store_Lifecycle Sha256
begin

text \<open>
  The order service of \<open>internal/commerce/service.go\<close>: validation of commands, creation and
  cancellation of orders over any store. Amounts are 64-bit integers with wrap-around.

  What the service draws from outside is the argument \<open>draws\<close> of one invocation: the
  readings of its clock, the results of \<open>crypto/rand\<close> (\<open>None\<close> when the source fails) and
  the lower-casing of non-ASCII text (the Unicode tables of \<open>strings.ToLower\<close>).
\<close>

subsection \<open>Validation\<close>

definition field_error :: "string \<Rightarrow> string \<Rightarrow> FieldError" where
  "field_error field issue = \<lparr>fe_Field = field, fe_Issue = issue\<rparr>"

definition require :: "bool \<Rightarrow> string \<Rightarrow> string \<Rightarrow> FieldError list" where
  "require bad field issue = (if bad then [field_error field issue] else [])"

definition item_field :: "nat \<Rightarrow> string \<Rightarrow> string" where
  "item_field idx field = ''items['' @ Itoa (int idx) @ '']'' @ field"

fun validate_items :: "string \<Rightarrow> nat \<Rightarrow> (string \<times> nat) list \<Rightarrow> OrderItemInput list \<Rightarrow> FieldError list" where
  "validate_items currency idx seenSKUs [] = []"
| "validate_items currency idx seenSKUs (item # rest) =
     (let sku = TrimSpace (ii_SKU item);
          (errs, seenSKUs) =
            (if sku = [] then ([field_error (item_field idx ''.sku'') ''is required''], seenSKUs)
             else case mapget seenSKUs sku of
                 Some firstIdx \<Rightarrow> ([field_error (item_field idx ''.sku'')
                    (''duplicates items['' @ Itoa (int firstIdx) @ ''].sku'')], seenSKUs)
               | None \<Rightarrow> ([], mapset sku idx seenSKUs))
      in errs
         @ require (sint (ii_Quantity item) < 1) (item_field idx ''.quantity'') ''must be greater than zero''
         @ require (sint (m_Amount (ii_UnitPrice item)) < 0) (item_field idx ''.unit_price.amount'')
             ''must not be negative''
         @ require (m_Currency (ii_UnitPrice item) \<noteq> currency) (item_field idx ''.unit_price.currency'')
             ''must match order currency''
         @ validate_items currency (idx + 1) seenSKUs rest)"

definition validation_result :: "FieldError list \<Rightarrow> error option" where
  "validation_result errs = (if 0 < length errs then Some (ValidationError errs) else None)"

definition validateCreateOrder :: "string \<Rightarrow> string \<Rightarrow> CreateOrderCommand \<Rightarrow> error option" where
  "validateCreateOrder merchantID idempotencyKey req = validation_result
     (require (TrimSpace merchantID = []) ''merchant_id'' ''is required from authentication context''
      @ require (length (TrimSpace idempotencyKey) < 12) ''Idempotency-Key''
          ''must contain at least 12 characters''
      @ require (TrimSpace (co_ExternalOrderID req) = []) ''external_order_id'' ''is required''
      @ require (length (co_Currency req) \<noteq> 3) ''currency'' ''must be a three-letter ISO currency code''
      @ require (TrimSpace (c_Email (co_Customer req)) = []) ''customer.email'' ''is required''
      @ require (TrimSpace (ad_Country (co_ShippingAddress req)) = []) ''shipping_address.country'' ''is required''
      @ require (length (co_Items req) = 0) ''items'' ''must contain at least one item''
      @ validate_items (co_Currency req) 0 [] (co_Items req)
      @ require (TrimSpace (pm_Provider (co_PaymentMethod req)) = []) ''payment_method.provider'' ''is required''
      @ require (TrimSpace (pm_PaymentToken (co_PaymentMethod req)) = []) ''payment_method.payment_token''
          ''is required'')"

definition validateCancelActor :: "AuditActor \<Rightarrow> error option" where
  "validateCancelActor actor = validation_result
     (require (TrimSpace (aa_Reason actor) = []) ''reason'' ''is required''
      @ require (TrimSpace (aa_Type actor) = []) ''requested_by.type'' ''is required''
      @ require (TrimSpace (aa_ID actor) = []) ''requested_by.id'' ''is required'')"

subsection \<open>References and identifiers\<close>

definition opaqueReference :: "string \<Rightarrow> string \<Rightarrow> string" where
  "opaqueReference prefix value =
     prefix @ ''_'' @ take 24 (hex_EncodeToString (Sum256 (TrimSpace value)))"

definition addressFingerprint :: "(string \<Rightarrow> string) \<Rightarrow> AddressInput \<Rightarrow> string" where
  "addressFingerprint ulower address =
     ToLower ulower (Join [ad_Line1 address, ad_Line2 address, ad_City address, ad_State address,
       ad_PostalCode address, ad_Country address] CHR ''|'')"

record draws =
  dr_clock :: "nat \<Rightarrow> time"
  dr_rand :: "nat \<Rightarrow> string option"
  dr_lower :: "string \<Rightarrow> string"

record 's Service =
  sv_counter :: "64 word"
  sv_store :: 's

text \<open>\<open>rand\<close> is the outcome of this call's \<open>cryptorand.Read\<close>, \<open>now\<close> its clock reading.\<close>

definition Service_nextID :: "string \<Rightarrow> string option \<Rightarrow> time \<Rightarrow> 64 word \<Rightarrow> string \<times> 64 word" where
  "Service_nextID prefix rand now counter =
     (case rand of
        Some bytes \<Rightarrow> (prefix @ ''_'' @ hex_EncodeToString bytes, counter)
      | None \<Rightarrow> (let counter = counter + 1
          in (prefix @ ''_'' @ Itoa (UnixNano now) @ ''_'' @ pad_int 12 (unat counter), counter)))"

subsection \<open>Creation\<close>

definition order_items :: "OrderItemInput list \<Rightarrow> OrderItem list" where
  "order_items items = map (\<lambda>item. \<lparr>i_SKU = ii_SKU item, i_Quantity = ii_Quantity item,
     i_UnitPrice = ii_UnitPrice item, i_ReservationStatus = ''pending''\<rparr>) items"

definition items_subtotal :: "OrderItemInput list \<Rightarrow> int64" where
  "items_subtotal items =
     foldl (\<lambda>amount item. amount + ii_Quantity item * m_Amount (ii_UnitPrice item)) 0 items"

definition new_order :: "draws \<Rightarrow> string \<Rightarrow> string \<Rightarrow> CreateOrderCommand \<Rightarrow> Order" where
  "new_order d orderID merchantID req =
     (let now = dr_clock d 0;
          shipping = \<lparr>m_Amount = 1200, m_Currency = co_Currency req\<rparr>;
          subtotal = \<lparr>m_Amount = items_subtotal (co_Items req), m_Currency = co_Currency req\<rparr>
      in \<lparr>o_OrderID = orderID, o_MerchantID = merchantID, o_ExternalOrderID = co_ExternalOrderID req,
          o_Status = StatusPendingFulfillment, o_Currency = co_Currency req,
          o_Totals = \<lparr>t_Subtotal = subtotal, t_Shipping = shipping,
            t_Total = \<lparr>m_Amount = m_Amount subtotal + m_Amount shipping, m_Currency = co_Currency req\<rparr>\<rparr>,
          o_Items = order_items (co_Items req),
          o_Payment = Some \<lparr>p_Provider = pm_Provider (co_PaymentMethod req),
            p_Status = ''pending_authorization'', p_AuthorizationID = [],
            p_CredentialRef = opaqueReference ''paycred'' (pm_PaymentToken (co_PaymentMethod req))\<rparr>,
          o_Shipment = None,
          o_ShippingAddressRef =
            opaqueReference ''addr'' (addressFingerprint (dr_lower d) (co_ShippingAddress req)),
          o_CreatedAt = now, o_UpdatedAt = now\<rparr>)"

definition created_event :: "string \<Rightarrow> string \<Rightarrow> string \<Rightarrow> time \<Rightarrow> Order \<Rightarrow> OutboxEvent" where
  "created_event messageID correlationID merchantID now order =
     \<lparr>e_MessageID = messageID, e_EventType = ''order.created'', e_SchemaVersion = EventSchemaVersion,
      e_OccurredAt = now, e_Producer = ProducerForEventType ''order.created'',
      e_MerchantID = merchantID, e_OrderID = o_OrderID order, e_CorrelationID = correlationID,
      e_CausationID = messageID,
      e_Payload = [(''external_order_id'', AStr (o_ExternalOrderID order)),
        (''order_status'', AStr (o_Status order)), (''currency'', AStr (o_Currency order)),
        (''total_amount'', AInt (sint (m_Amount (t_Total (o_Totals order))))),
        (''item_count'', AInt (int (length (o_Items order))))]\<rparr>"

definition create_audit :: "string \<Rightarrow> string \<Rightarrow> time \<Rightarrow> Order \<Rightarrow> AuditLog" where
  "create_audit correlationID merchantID now order =
     \<lparr>a_MerchantID = merchantID, a_OrderID = o_OrderID order, a_ActorType = ''merchant'',
      a_ActorID = merchantID, a_Action = ''order.create'', a_CorrelationID = correlationID,
      a_CreatedAt = now, a_Details = []\<rparr>"

definition Service_CreateOrderContext :: "'s Store \<Rightarrow> draws \<Rightarrow> string \<Rightarrow> string \<Rightarrow> string \<Rightarrow> CreateOrderCommand
    \<Rightarrow> ('s Service, error, Order option \<times> bool) op" where
  "Service_CreateOrderContext S d merchantID idempotencyKey correlationID req sv =
     (case validateCreateOrder merchantID idempotencyKey req of
        Some err \<Rightarrow> (Inl err, sv)
      | None \<Rightarrow>
        (let now = dr_clock d 0;
             (orderID, counter) = Service_nextID ''ord'' (dr_rand d 0) (dr_clock d 1) (sv_counter sv);
             order = new_order d orderID merchantID req;
             (messageID, counter) = Service_nextID ''msg'' (dr_rand d 1) (dr_clock d 2) counter;
             event = created_event messageID correlationID merchantID now order;
             audit = create_audit correlationID merchantID now order;
             (r, store) = st_InsertOrder S merchantID idempotencyKey order event audit (sv_store sv)
         in (r, \<lparr>sv_counter = counter, sv_store = store\<rparr>)))"

definition Service_GetOrderContext :: "'s Store \<Rightarrow> string \<Rightarrow> 's Service \<Rightarrow> error + Order" where
  "Service_GetOrderContext S orderID sv = st_GetOrder S orderID (sv_store sv)"

definition Service_GetShipmentContext :: "'s Store \<Rightarrow> string \<Rightarrow> 's Service \<Rightarrow> error + ShipmentRecord" where
  "Service_GetShipmentContext S shipmentID sv = st_GetShipment S shipmentID (sv_store sv)"

subsection \<open>Cancellation\<close>

definition cancel_event :: "string \<Rightarrow> string \<Rightarrow> string \<Rightarrow> time \<Rightarrow> AuditActor \<Rightarrow> Order \<Rightarrow> OutboxEvent" where
  "cancel_event messageID orderID correlationID now actor order =
     \<lparr>e_MessageID = messageID, e_EventType = ''order.cancel_requested'',
      e_SchemaVersion = EventSchemaVersion, e_OccurredAt = now,
      e_Producer = ProducerForEventType ''order.cancel_requested'', e_MerchantID = o_MerchantID order,
      e_OrderID = orderID, e_CorrelationID = correlationID, e_CausationID = messageID,
      e_Payload = [(''order_status'', AStr StatusCancellationPending),
        (''reason'', AStr (TrimSpace (aa_Reason actor))),
        (''requested_by'', AMap [(''type'', AStr (TrimSpace (aa_Type actor))),
           (''id'', AStr (TrimSpace (aa_ID actor)))])]\<rparr>"

definition cancel_audit :: "string \<Rightarrow> string \<Rightarrow> time \<Rightarrow> AuditActor \<Rightarrow> Order \<Rightarrow> AuditLog" where
  "cancel_audit orderID correlationID now actor order =
     \<lparr>a_MerchantID = o_MerchantID order, a_OrderID = orderID, a_ActorType = TrimSpace (aa_Type actor),
      a_ActorID = TrimSpace (aa_ID actor), a_Action = ''order.cancel_requested'',
      a_CorrelationID = correlationID, a_CreatedAt = now,
      a_Details = [(''reason'', TrimSpace (aa_Reason actor))]\<rparr>"

definition Service_CancelOrderContext :: "'s Store \<Rightarrow> draws \<Rightarrow> string \<Rightarrow> string \<Rightarrow> AuditActor
    \<Rightarrow> ('s Service, error, Order) op" where
  "Service_CancelOrderContext S d orderID correlationID actor sv =
     (case validateCancelActor actor of
        Some err \<Rightarrow> (Inl err, sv)
      | None \<Rightarrow>
        (case st_GetOrder S orderID (sv_store sv) of
           Inl err \<Rightarrow> (Inl err, sv)
         | Inr order \<Rightarrow>
           if o_Status order = StatusCompleted \<or> o_Status order = StatusCancelled
           then (Inl (ErrInvalidStateTransition []), sv)
           else (case ValidateOrderTransition (o_Status order) StatusCancellationPending of
              Some err \<Rightarrow> (Inl err, sv)
            | None \<Rightarrow>
              (let now = dr_clock d 0;
                   (messageID, counter) = Service_nextID ''msg'' (dr_rand d 0) (dr_clock d 1) (sv_counter sv);
                   event = cancel_event messageID orderID correlationID now actor order;
                   audit = cancel_audit orderID correlationID now actor order;
                   (r, store) = st_UpdateOrderStatus S orderID StatusCancellationPending now event audit
                     (sv_store sv)
               in (r, \<lparr>sv_counter = counter, sv_store = store\<rparr>)))))"

subsection \<open>What validation accepts\<close>

definition item_ok :: "string \<Rightarrow> OrderItemInput \<Rightarrow> bool" where
  "item_ok currency item \<longleftrightarrow> TrimSpace (ii_SKU item) \<noteq> [] \<and> 1 \<le> sint (ii_Quantity item) \<and>
     0 \<le> sint (m_Amount (ii_UnitPrice item)) \<and> m_Currency (ii_UnitPrice item) = currency"

abbreviation item_sku :: "OrderItemInput \<Rightarrow> string" where
  "item_sku item \<equiv> TrimSpace (ii_SKU item)"

lemma require_Nil [simp]: "require bad field issue = [] \<longleftrightarrow> \<not> bad"
  by (simp add: require_def)

lemma validation_result_None [simp]: "validation_result errs = None \<longleftrightarrow> errs = []"
  by (simp add: validation_result_def)

lemma validation_result_Some:
  "validation_result errs = Some e \<Longrightarrow> e = ValidationError errs \<and> errs \<noteq> []"
  by (auto simp: validation_result_def split: if_splits)

lemma validate_items_Nil:
  "validate_items currency idx seen items = [] \<longleftrightarrow>
     (\<forall>item\<in>set items. item_ok currency item) \<and> distinct (map item_sku items) \<and>
     (\<forall>item\<in>set items. mapget seen (item_sku item) = None)"
proof (induction items arbitrary: idx seen)
  case (Cons item items)
  show ?case
  proof (cases "item_ok currency item \<and> mapget seen (item_sku item) = None")
    case True
    then have "validate_items currency idx seen (item # items) =
        validate_items currency (idx + 1) (mapset (item_sku item) idx seen) items"
      by (simp add: item_ok_def require_def)
    with True Cons.IH [of "idx + 1" "mapset (item_sku item) idx seen"] show ?thesis
      by (auto split: if_splits)
  next
    case False
    then have "validate_items currency idx seen (item # items) \<noteq> []"
      by (auto simp: item_ok_def not_le Let_def split: option.splits if_splits)
    with False show ?thesis by auto
  qed
qed simp

lemma validateCreateOrder_error:
  "validateCreateOrder m k req = Some e \<Longrightarrow> \<exists>errs. e = ValidationError errs \<and> errs \<noteq> []"
  unfolding validateCreateOrder_def by (blast dest: validation_result_Some)

lemma validateCreateOrder_None:
  "validateCreateOrder m k req = None \<longleftrightarrow>
     TrimSpace m \<noteq> [] \<and> 12 \<le> length (TrimSpace k) \<and> TrimSpace (co_ExternalOrderID req) \<noteq> [] \<and>
     length (co_Currency req) = 3 \<and> TrimSpace (c_Email (co_Customer req)) \<noteq> [] \<and>
     TrimSpace (ad_Country (co_ShippingAddress req)) \<noteq> [] \<and> co_Items req \<noteq> [] \<and>
     (\<forall>item\<in>set (co_Items req). item_ok (co_Currency req) item) \<and>
     distinct (map item_sku (co_Items req)) \<and>
     TrimSpace (pm_Provider (co_PaymentMethod req)) \<noteq> [] \<and>
     TrimSpace (pm_PaymentToken (co_PaymentMethod req)) \<noteq> []"
  unfolding validateCreateOrder_def validation_result_None append_is_Nil_conv require_Nil
    validate_items_Nil
  by (simp add: not_less)

subsection \<open>Totals\<close>

definition exact_subtotal :: "OrderItemInput list \<Rightarrow> int" where
  "exact_subtotal items =
     sum_list (map (\<lambda>item. sint (ii_Quantity item) * sint (m_Amount (ii_UnitPrice item))) items)"

lemma items_subtotal_acc:
  "foldl (\<lambda>amount item. amount + ii_Quantity item * m_Amount (ii_UnitPrice item)) a items =
     a + word_of_int (exact_subtotal items)"
proof (induction items arbitrary: a)
  case (Cons item items)
  then show ?case by (simp add: exact_subtotal_def)
qed (simp add: exact_subtotal_def)

lemma items_subtotal_exact: "items_subtotal items = word_of_int (exact_subtotal items)"
  by (simp add: items_subtotal_def items_subtotal_acc)

lemma sint_word_of_int_64:
  "- (2 ^ 63) \<le> i \<Longrightarrow> i < 2 ^ 63 \<Longrightarrow> sint (word_of_int i :: int64) = i"
  by (simp add: int_word_sint)

lemma exact_subtotal_nonneg:
  "\<forall>item\<in>set items. item_ok currency item \<Longrightarrow> 0 \<le> exact_subtotal items"
  unfolding exact_subtotal_def
  by (rule sum_list_nonneg) (auto simp: item_ok_def)

lemma new_order_total:
  "m_Amount (t_Total (o_Totals (new_order d oid m req))) = word_of_int (exact_subtotal (co_Items req) + 1200)"
  by (simp add: new_order_def Let_def items_subtotal_exact)

lemma new_order_fields [simp]:
  "o_OrderID (new_order d oid m req) = oid" "o_MerchantID (new_order d oid m req) = m"
  "o_ExternalOrderID (new_order d oid m req) = co_ExternalOrderID req"
  "o_Status (new_order d oid m req) = StatusPendingFulfillment"
  "m_Amount (t_Subtotal (o_Totals (new_order d oid m req))) = word_of_int (exact_subtotal (co_Items req))"
  by (simp_all add: new_order_def Let_def items_subtotal_exact)

subsection \<open>The service over any store\<close>

definition drawn_order_id :: "draws \<Rightarrow> 's Service \<Rightarrow> string" where
  "drawn_order_id d sv = fst (Service_nextID ''ord'' (dr_rand d 0) (dr_clock d 1) (sv_counter sv))"

definition drawn_message_id :: "draws \<Rightarrow> 's Service \<Rightarrow> string" where
  "drawn_message_id d sv = fst (Service_nextID ''msg'' (dr_rand d 1) (dr_clock d 2)
     (snd (Service_nextID ''ord'' (dr_rand d 0) (dr_clock d 1) (sv_counter sv))))"

definition requested_order :: "draws \<Rightarrow> string \<Rightarrow> CreateOrderCommand \<Rightarrow> 's Service \<Rightarrow> Order" where
  "requested_order d m req sv = new_order d (drawn_order_id d sv) m req"

definition requested_event :: "draws \<Rightarrow> string \<Rightarrow> string \<Rightarrow> CreateOrderCommand \<Rightarrow> 's Service \<Rightarrow> OutboxEvent" where
  "requested_event d corr m req sv =
     created_event (drawn_message_id d sv) corr m (dr_clock d 0) (requested_order d m req sv)"

definition requested_audit :: "draws \<Rightarrow> string \<Rightarrow> string \<Rightarrow> CreateOrderCommand \<Rightarrow> 's Service \<Rightarrow> AuditLog" where
  "requested_audit d corr m req sv = create_audit corr m (dr_clock d 0) (requested_order d m req sv)"

lemma requested_order_fields [simp]:
  "o_OrderID (requested_order d m req sv) = drawn_order_id d sv"
  "o_ExternalOrderID (requested_order d m req sv) = co_ExternalOrderID req"
  "o_MerchantID (requested_order d m req sv) = m"
  "o_Status (requested_order d m req sv) = StatusPendingFulfillment"
  by (simp_all add: requested_order_def)

text \<open>A validated creation is one insertion of the order that the command describes.\<close>

lemma CreateOrder_valid:
  assumes "validateCreateOrder m k req = None"
  shows "\<exists>counter. Service_CreateOrderContext S d m k corr req sv =
    (let (r, store) = st_InsertOrder S m k (requested_order d m req sv) (requested_event d corr m req sv)
       (requested_audit d corr m req sv) (sv_store sv)
     in (r, \<lparr>sv_counter = counter, sv_store = store\<rparr>))"
  using assms
  by (auto simp: Service_CreateOrderContext_def drawn_order_id_def drawn_message_id_def
      requested_order_def requested_event_def requested_audit_def split_beta Let_def)

lemma CreateOrder_invalid:
  "validateCreateOrder m k req = Some e \<Longrightarrow> Service_CreateOrderContext S d m k corr req sv = (Inl e, sv)"
  by (simp add: Service_CreateOrderContext_def)

context order_store
begin

lemma create_replay:
  assumes "inv (sv_store sv)" "validateCreateOrder m k req = None" "key_ref (sv_store sv) m k = Some oid"
  shows "\<exists>old sv'. lg_orders (view (sv_store sv)) oid = Some old \<and>
    Service_CreateOrderContext S d m k corr req sv = (Inr (Some old, True), sv') \<and>
    sv_store sv' = sv_store sv"
proof -
  from insert_replay [OF assms(1,3)] obtain old where "lg_orders (view (sv_store sv)) oid = Some old"
    "\<And>order event audit. st_InsertOrder S m k order event audit (sv_store sv) = (Inr (Some old, True), sv_store sv)"
    by (metis option.inject)
  with CreateOrder_valid [OF assms(2), of S d corr sv] show ?thesis by auto
qed

lemma create_duplicate:
  assumes "inv (sv_store sv)" "validateCreateOrder m k req = None" "key_ref (sv_store sv) m k = None"
    "ext_ref (sv_store sv) m (co_ExternalOrderID req) = Some oid"
    "storable (sv_store sv) m k (requested_order d m req sv) (requested_event d corr m req sv)
       (requested_audit d corr m req sv)"
  shows "\<exists>sv'. Service_CreateOrderContext S d m k corr req sv = (Inl ErrDuplicateOrder, sv') \<and>
    sv_store sv' = sv_store sv"
  using CreateOrder_valid [OF assms(2), of S d corr sv]
    insert_duplicate [OF assms(1,3), of "requested_order d m req sv" oid] assms(4,5) by auto

lemma create_new:
  assumes "inv (sv_store sv)" "validateCreateOrder m k req = None" "key_ref (sv_store sv) m k = None"
    "ext_ref (sv_store sv) m (co_ExternalOrderID req) = None"
    "lg_orders (view (sv_store sv)) (drawn_order_id d sv) = None"
    "storable (sv_store sv) m k (requested_order d m req sv) (requested_event d corr m req sv)
       (requested_audit d corr m req sv)"
  shows "\<exists>sv'. Service_CreateOrderContext S d m k corr req sv =
      (Inr (Some (requested_order d m req sv), False), sv') \<and> inv (sv_store sv') \<and>
    view (sv_store sv') = insert_ledger (requested_order d m req sv) (requested_event d corr m req sv)
      (requested_audit d corr m req sv) (view (sv_store sv)) \<and>
    key_ref (sv_store sv') m k = Some (drawn_order_id d sv) \<and>
    ext_ref (sv_store sv') m (co_ExternalOrderID req) = Some (drawn_order_id d sv)"
proof -
  have "o_MerchantID (requested_order d m req sv) = m" "IsValidOrderStatus (o_Status (requested_order d m req sv))"
    "o_ExternalOrderID (requested_order d m req sv) = co_ExternalOrderID req"
    "o_OrderID (requested_order d m req sv) = drawn_order_id d sv" by simp_all
  from insert_new [OF assms(1,3) _ _ this(1,2) assms(6)] this(3,4) assms(4,5) obtain s' where
    "st_InsertOrder S m k (requested_order d m req sv) (requested_event d corr m req sv)
       (requested_audit d corr m req sv) (sv_store sv) = (Inr (Some (requested_order d m req sv), False), s')"
    "inv s'" "view s' = insert_ledger (requested_order d m req sv) (requested_event d corr m req sv)
      (requested_audit d corr m req sv) (view (sv_store sv))"
    "key_ref s' m k = Some (drawn_order_id d sv)"
    "ext_ref s' m (co_ExternalOrderID req) = Some (drawn_order_id d sv)" by auto
  with CreateOrder_valid [OF assms(2), of S d corr sv] show ?thesis by auto
qed

text \<open>A creation under a new key, also on a store that may refuse it.\<close>

lemma create_fresh:
  assumes "inv (sv_store sv)" "validateCreateOrder m k req = None" "key_ref (sv_store sv) m k = None"
    "lg_orders (view (sv_store sv)) (drawn_order_id d sv) = None"
    and run: "Service_CreateOrderContext S d m k corr req sv = (res, sv')"
  shows "inv (sv_store sv') \<and> (case res of Inl _ \<Rightarrow> view (sv_store sv') = view (sv_store sv)
    | Inr result \<Rightarrow> result = (Some (requested_order d m req sv), False) \<and>
        stored (requested_order d m req sv) (requested_event d corr m req sv) (requested_audit d corr m req sv)
          (view (sv_store sv)) (view (sv_store sv')) \<and>
        key_ref (sv_store sv') m k = Some (drawn_order_id d sv))"
proof -
  from CreateOrder_valid [OF assms(2), of S d corr sv] run have ins: "st_InsertOrder S m k
      (requested_order d m req sv) (requested_event d corr m req sv) (requested_audit d corr m req sv)
      (sv_store sv) = (res, sv_store sv')"
    by (auto simp: split_beta Let_def prod_eq_iff)
  from insert_fresh [OF assms(1,3) _ _ _ ins] assms(4) show ?thesis by (simp split: sum.splits)
qed

text \<open>Retrying a creation that was accepted replays the order, as it is stored.\<close>

lemma create_then_retry_id:
  assumes "inv (sv_store sv)" "validateCreateOrder m k req = None"
    "Service_CreateOrderContext S d m k corr req sv = (Inr (Some order, replayed), sv')"
    "lg_orders (view (sv_store sv)) (drawn_order_id d sv) = None"
    "validateCreateOrder m k req' = None"
  shows "\<exists>old sv''. Service_CreateOrderContext S d' m k corr' req' sv' = (Inr (Some old, True), sv'') \<and>
    lg_orders (view (sv_store sv')) (o_OrderID order) = Some old \<and> sv_store sv'' = sv_store sv'"
proof (cases "key_ref (sv_store sv) m k")
  case (Some oid)
  with create_replay [OF assms(1,2), of oid d corr] assms(3)
  have same: "sv_store sv' = sv_store sv" "lg_orders (view (sv_store sv)) oid = Some order" by auto
  with stored_status [OF assms(1)] have "o_OrderID order = oid" by auto
  with same create_replay [of sv' m k req' oid d' corr'] assms(1,5) Some show ?thesis by auto
next
  case None
  from create_fresh [OF assms(1,2) None assms(4) assms(3)]
  have "inv (sv_store sv')" "key_ref (sv_store sv') m k = Some (o_OrderID order)" by auto
  with create_replay [of sv' m k req' "o_OrderID order" d' corr'] assms(5) show ?thesis by auto
qed

lemma create_then_retry:
  assumes "inv (sv_store sv)" "validateCreateOrder m k req = None"
    "Service_CreateOrderContext S d m k corr req sv = (Inr (Some order, replayed), sv')"
    "lg_orders (view (sv_store sv)) (drawn_order_id d sv) = None"
    "validateCreateOrder m k req' = None"
    "storable (sv_store sv) m k (requested_order d m req sv) (requested_event d corr m req sv)
       (requested_audit d corr m req sv)"
  shows "\<exists>sv''. Service_CreateOrderContext S d' m k corr' req' sv' = (Inr (Some order, True), sv'') \<and>
    sv_store sv'' = sv_store sv'"
proof -
  have "lg_orders (view (sv_store sv')) (o_OrderID order) = Some order"
  proof (cases "key_ref (sv_store sv) m k")
    case (Some oid)
    with create_replay [OF assms(1,2), of oid d corr] assms(3) stored_status [OF assms(1)] show ?thesis by auto
  next
    case None
    then show ?thesis
      using create_duplicate [OF assms(1,2) None _ assms(6)] create_new [OF assms(1,2) None _ assms(4,6)] assms(3)
      by (cases "ext_ref (sv_store sv) m (co_ExternalOrderID req)") (auto simp: insert_ledger_def)
  qed
  with create_then_retry_id [OF assms(1-5), of d' corr'] show ?thesis by auto
qed

text \<open>
  A cancellation: when it succeeds it was allowed and is recorded; when it fails the ledger is
  as before; and it succeeds if it is allowed and the store accepts its event.
\<close>

lemma cancel_effect:
  assumes inv: "inv (sv_store sv)"
    and run: "Service_CancelOrderContext S d oid corr actor sv = (r, sv')"
  shows "inv (sv_store sv') \<and> (\<not> ok r \<longrightarrow> view (sv_store sv') = view (sv_store sv)) \<and>
    (ok r \<longrightarrow> validateCancelActor actor = None \<and> (\<exists>order mid. lg_orders (view (sv_store sv)) oid = Some order \<and>
       CanTransitionOrderStatus (o_Status order) StatusCancellationPending \<and>
       recorded oid (moves_to StatusCancellationPending) [cancel_event mid oid corr (dr_clock d 0) actor order]
         (cancel_audit oid corr (dr_clock d 0) actor order) (view (sv_store sv)) (view (sv_store sv'))))"
proof (cases "validateCancelActor actor = None \<and> (\<exists>order. lg_orders (view (sv_store sv)) oid = Some order \<and>
        CanTransitionOrderStatus (o_Status order) StatusCancellationPending)")
  case False
  then have "\<exists>e. r = Inl e \<and> sv' = sv"
    using run by (auto simp: Service_CancelOrderContext_def get_order [OF inv] split: option.splits if_splits)
  with inv show ?thesis by auto
next
  case True
  then obtain order where o: "validateCancelActor actor = None" "lg_orders (view (sv_store sv)) oid = Some order"
    "CanTransitionOrderStatus (o_Status order) StatusCancellationPending" by blast
  from o(3) have live: "o_Status order \<noteq> StatusCompleted" "o_Status order \<noteq> StatusCancelled"
    by (auto simp: CanTransition_iff status_step_iff)
  obtain mid counter where id: "Service_nextID ''msg'' (dr_rand d 0) (dr_clock d 1) (sv_counter sv) = (mid, counter)"
    by fastforce
  let ?e = "cancel_event mid oid corr (dr_clock d 0) actor order"
  let ?a = "cancel_audit oid corr (dr_clock d 0) actor order"
  have upd: "st_UpdateOrderStatus S oid StatusCancellationPending (dr_clock d 0) ?e ?a (sv_store sv) = (r, sv_store sv')"
    using run o live id by (auto simp: Service_CancelOrderContext_def get_order [OF inv] Let_def split: prod.splits)
  with update_status [OF inv upd] o show ?thesis by (auto simp: outcome_def)
qed

lemma cancel_succeeds:
  assumes "inv (sv_store sv)" "validateCancelActor actor = None" "lg_orders (view (sv_store sv)) oid = Some order"
    and "CanTransitionOrderStatus (o_Status order) StatusCancellationPending"
    and "\<And>mid. appendable (sv_store sv) (cancel_event mid oid corr (dr_clock d 0) actor order)
      (cancel_audit oid corr (dr_clock d 0) actor order)"
  shows "ok (fst (Service_CancelOrderContext S d oid corr actor sv))"
proof -
  obtain mid counter where id: "Service_nextID ''msg'' (dr_rand d 0) (dr_clock d 1) (sv_counter sv) = (mid, counter)"
    by fastforce
  from assms(4) have live: "o_Status order \<noteq> StatusCompleted" "o_Status order \<noteq> StatusCancelled"
    by (auto simp: CanTransition_iff status_step_iff)
  have "e_OrderID (cancel_event mid oid corr (dr_clock d 0) actor order) = oid" by (simp add: cancel_event_def)
  from update_succeeds [OF assms(1,3,4,5) this, of "dr_clock d 0"] assms(2-4) live id show ?thesis
    by (auto simp: Service_CancelOrderContext_def get_order [OF assms(1)] Let_def split: prod.splits)
qed

end

subsection \<open>Sample commands\<close>

definition sample_cmd :: "int64 \<Rightarrow> int64 \<Rightarrow> CreateOrderCommand" where
  "sample_cmd quantity price =
     \<lparr>co_ExternalOrderID = ''ext-1'', co_Currency = ''USD'',
      co_Customer = \<lparr>c_ID = ''c1'', c_Email = ''a@b.c'', c_FullName = ''A''\<rparr>,
      co_ShippingAddress = \<lparr>ad_Line1 = ''1 Road'', ad_Line2 = [], ad_City = ''X'', ad_State = ''Y'',
        ad_PostalCode = ''1'', ad_Country = ''US''\<rparr>,
      co_Items = [\<lparr>ii_SKU = ''sku-1'', ii_Quantity = quantity,
        ii_UnitPrice = \<lparr>m_Amount = price, m_Currency = ''USD''\<rparr>\<rparr>],
      co_PaymentMethod = \<lparr>pm_Provider = ''card'', pm_PaymentToken = ''tok''\<rparr>\<rparr>"

definition sample_draws :: draws where
  "sample_draws = \<lparr>dr_clock = (\<lambda>_. 7), dr_rand = (\<lambda>_. Some (replicate 16 CHR ''a'')), dr_lower = id\<rparr>"

definition sample_service :: "MemoryStore Service" where
  "sample_service = \<lparr>sv_counter = 0, sv_store = NewMemoryStore\<rparr>"

lemma sample_trims:
  "TrimSpace ''m1'' \<noteq> []" "12 \<le> length (TrimSpace ''key-000000001'')" "TrimSpace ''ext-1'' \<noteq> []"
  "TrimSpace ''a@b.c'' \<noteq> []" "TrimSpace ''US'' \<noteq> []" "TrimSpace ''sku-1'' \<noteq> []"
  "TrimSpace ''card'' \<noteq> []" "TrimSpace ''tok'' \<noteq> []"
  by code_simp+

lemma sample_cmd_valid:
  "1 \<le> sint quantity \<Longrightarrow> 0 \<le> sint price \<Longrightarrow>
   validateCreateOrder ''m1'' ''key-000000001'' (sample_cmd quantity price) = None"
  unfolding validateCreateOrder_None using sample_trims by (simp add: sample_cmd_def item_ok_def)

subsection \<open>Properties\<close>

text \<open>
  C24. \<open>validateCreateOrder\<close> accepts a command exactly when the merchant, external id, e-mail,
  country, payment provider and payment token are not blank, the trimmed idempotency key has at least twelve
  bytes, the currency three, and there is at least one item, all with a SKU, a quantity
  of at least one, a price that is not negative and the currency of the order, no two items
  having the same trimmed SKU. Any other command gets a validation error naming a field.
\<close>

theorem validate_create_order_exact:
  "(validateCreateOrder m k req = None \<longleftrightarrow>
     TrimSpace m \<noteq> [] \<and> 12 \<le> length (TrimSpace k) \<and> TrimSpace (co_ExternalOrderID req) \<noteq> [] \<and>
     length (co_Currency req) = 3 \<and> TrimSpace (c_Email (co_Customer req)) \<noteq> [] \<and>
     TrimSpace (ad_Country (co_ShippingAddress req)) \<noteq> [] \<and> co_Items req \<noteq> [] \<and>
     list_all (\<lambda>item. TrimSpace (ii_SKU item) \<noteq> [] \<and> 1 \<le> sint (ii_Quantity item) \<and>
       0 \<le> sint (m_Amount (ii_UnitPrice item)) \<and>
       m_Currency (ii_UnitPrice item) = co_Currency req) (co_Items req) \<and>
     distinct (map (\<lambda>item. TrimSpace (ii_SKU item)) (co_Items req)) \<and>
     TrimSpace (pm_Provider (co_PaymentMethod req)) \<noteq> [] \<and>
     TrimSpace (pm_PaymentToken (co_PaymentMethod req)) \<noteq> []) \<and>
   (validateCreateOrder m k req = None \<or>
     (\<exists>errs. validateCreateOrder m k req = Some (ValidationError errs) \<and> errs \<noteq> []))"
  using validateCreateOrder_error [of m k req]
  by (cases "validateCreateOrder m k req")
    (auto simp: validateCreateOrder_None [symmetric] list_all_iff item_ok_def [symmetric])

text \<open>
  When the exact total of a validated command (quantities times prices plus the flat
  shipping of 1200) fits a signed 64-bit integer, the order's totals are exact: the subtotal
  is the sum over the items, the total adds shipping, and neither is negative.
\<close>

theorem order_totals_exact:
  fixes d :: draws and oid :: string
  assumes "validateCreateOrder m k req = None" "exact_subtotal (co_Items req) + 1200 < 2 ^ 63"
  defines "totals \<equiv> o_Totals (new_order d oid m req)"
  shows "sint (m_Amount (t_Subtotal totals)) = exact_subtotal (co_Items req) \<and>
    sint (m_Amount (t_Total totals)) =
      sint (m_Amount (t_Subtotal totals)) + sint (m_Amount (t_Shipping totals)) \<and>
    sint (m_Amount (t_Shipping totals)) = 1200 \<and> 0 \<le> exact_subtotal (co_Items req)"
proof -
  have nn: "0 \<le> exact_subtotal (co_Items req)"
    using assms(1) exact_subtotal_nonneg [of _ "co_Currency req"] by (simp add: validateCreateOrder_None)
  have "sint (m_Amount (t_Subtotal totals)) = exact_subtotal (co_Items req)"
    unfolding totals_def new_order_fields by (rule sint_word_of_int_64) (use nn assms(2) in simp_all)
  moreover have "sint (m_Amount (t_Total totals)) = exact_subtotal (co_Items req) + 1200"
    unfolding totals_def new_order_total by (rule sint_word_of_int_64) (use nn assms(2) in simp_all)
  moreover have "sint (m_Amount (t_Shipping totals)) = 1200"
    by (simp add: totals_def new_order_def Let_def)
  ultimately show ?thesis using nn by simp
qed

text \<open>
  C25. Nothing bounds the amounts of a command: validation accepts an order for which the
  64-bit total wraps around to a negative amount.
\<close>

theorem order_total_can_overflow:
  "\<exists>req. validateCreateOrder ''m1'' ''key-000000001'' req = None \<and>
     sint (m_Amount (t_Total (o_Totals (new_order sample_draws ''ord_1'' ''m1'' req)))) < 0"
proof (intro exI conjI)
  let ?req = "sample_cmd 2 (word_of_int (2 ^ 62))"
  have p: "sint (word_of_int (2 ^ 62) :: int64) = 2 ^ 62" by (rule sint_word_of_int_64) simp_all
  show "validateCreateOrder ''m1'' ''key-000000001'' ?req = None"
    by (rule sample_cmd_valid) (simp_all only: p, simp_all)
  have "exact_subtotal (co_Items ?req) = 2 * 2 ^ 62"
    by (simp only: exact_subtotal_def sample_cmd_def CreateOrderCommand.simps OrderItemInput.simps
        Money.simps list.map sum_list.Cons sum_list.Nil p) simp
  then show "sint (m_Amount (t_Total (o_Totals (new_order sample_draws ''ord_1'' ''m1'' ?req)))) < 0"
    by (simp add: new_order_total int_word_sint)
qed

lemma WithEnvelopeDefaults_requested [simp]:
  "WithEnvelopeDefaults (requested_event d corr m req sv) = requested_event d corr m req sv"
  by (rule OutboxEvent_eqI)
    (simp_all add: requested_event_def created_event_def EventSchemaVersion_def WithEnvelopeDefaults_payload)

text \<open>
  A validated creation under a new idempotency key and external order id stores exactly
  the order it returns, in the initial status and with the items of the command, appends one
  \<open>order.created\<close> event that carries the order, merchant and correlation ids and the total,
  appends one audit log, and registers both keys for later replays.
\<close>

theorem create_order_stores_order:
  assumes "ms_inv (sv_store sv)" "validateCreateOrder m k req = None"
    and "mapget (ordersByIdempotency (sv_store sv)) (scopedKey m k) = None"
    and "mapget (ordersByExternal (sv_store sv)) (scopedKey m (co_ExternalOrderID req)) = None"
    and "mapget (orders (sv_store sv)) (drawn_order_id d sv) = None"
  shows "\<exists>order event audit sv'.
    Service_CreateOrderContext MemoryStore_Store d m k corr req sv = (Inr (Some order, False), sv') \<and>
    ms_inv (sv_store sv') \<and>
    mapget (orders (sv_store sv')) = (mapget (orders (sv_store sv)))(drawn_order_id d sv \<mapsto> order) \<and>
    o_OrderID order = drawn_order_id d sv \<and> o_MerchantID order = m \<and>
    o_ExternalOrderID order = co_ExternalOrderID req \<and> o_Status order = StatusPendingFulfillment \<and>
    map item_terms (o_Items order) =
      map (\<lambda>item. (ii_SKU item, ii_Quantity item, ii_UnitPrice item)) (co_Items req) \<and>
    outbox (sv_store sv') = outbox (sv_store sv) @ [event] \<and>
    e_EventType event = ''order.created'' \<and> e_OrderID event = o_OrderID order \<and>
    e_MerchantID event = m \<and> e_CorrelationID event = corr \<and> e_CausationID event = e_MessageID event \<and>
    mapget (e_Payload event) ''total_amount'' = Some (AInt (sint (m_Amount (t_Total (o_Totals order))))) \<and>
    auditLogs (sv_store sv') = auditLogs (sv_store sv) @ [audit] \<and> a_OrderID audit = o_OrderID order \<and>
    mapget (ordersByIdempotency (sv_store sv')) (scopedKey m k) = Some (o_OrderID order) \<and>
    mapget (ordersByExternal (sv_store sv')) (scopedKey m (co_ExternalOrderID req)) = Some (o_OrderID order)"
proof -
  let ?o = "requested_order d m req sv" and ?e = "requested_event d corr m req sv"
    and ?a = "requested_audit d corr m req sv"
  have fresh: "ms_key_ref (sv_store sv) m k = None" "ms_ext_ref (sv_store sv) m (co_ExternalOrderID req) = None"
    "lg_orders (ms_view (sv_store sv)) (drawn_order_id d sv) = None"
    using assms(3-5) by (simp_all add: ms_key_ref_def ms_ext_ref_def)
  from ms.create_new [OF assms(1,2) fresh, of corr] obtain sv' where
    c: "Service_CreateOrderContext MemoryStore_Store d m k corr req sv = (Inr (Some ?o, False), sv')"
      "ms_inv (sv_store sv')"
    and v: "ms_view (sv_store sv') = insert_ledger ?o ?e ?a (ms_view (sv_store sv))"
    and k: "ms_key_ref (sv_store sv') m k = Some (o_OrderID ?o)"
      "ms_ext_ref (sv_store sv') m (co_ExternalOrderID req) = Some (o_OrderID ?o)" by auto
  have "mapget (orders (sv_store sv')) = (mapget (orders (sv_store sv)))(drawn_order_id d sv \<mapsto> ?o)"
    "outbox (sv_store sv') = outbox (sv_store sv) @ [?e]"
    "auditLogs (sv_store sv') = auditLogs (sv_store sv) @ [?a]"
    using v by (simp_all add: ms_view_def insert_ledger_def)
  moreover have "map item_terms (o_Items ?o) =
      map (\<lambda>item. (ii_SKU item, ii_Quantity item, ii_UnitPrice item)) (co_Items req)"
    by (simp add: requested_order_def new_order_def order_items_def item_terms_def Let_def)
  ultimately show ?thesis using c k
    by (intro exI [of _ ?o] exI [of _ ?e] exI [of _ ?a] exI [of _ sv'])
      (simp add: ms_key_ref_def ms_ext_ref_def requested_event_def created_event_def
        requested_audit_def create_audit_def)
qed

text \<open>
  C12. Creation is idempotent: once a creation has returned an order, every later validated
  command of the same merchant under the same idempotency key returns that same order marked
  as replayed and leaves the store as it is, whatever the command asks for.
\<close>

theorem create_order_idempotent:
  assumes "ms_inv (sv_store sv)" "validateCreateOrder m k req = None" "validateCreateOrder m k req' = None"
    and "mapget (orders (sv_store sv)) (drawn_order_id d sv) = None"
    and "Service_CreateOrderContext MemoryStore_Store d m k corr req sv = (Inr (Some order, replayed), sv')"
  shows "\<exists>sv''. Service_CreateOrderContext MemoryStore_Store d' m k corr' req' sv' =
      (Inr (Some order, True), sv'') \<and> sv_store sv'' = sv_store sv'"
  using ms.create_then_retry [OF assms(1,2,5) _ assms(3)] assms(4) by simp

theorem create_order_idempotent_witness:
  "\<exists>order sv' sv''.
     Service_CreateOrderContext MemoryStore_Store sample_draws ''m1'' ''key-000000001'' ''c1''
       (sample_cmd 2 500) sample_service = (Inr (Some order, False), sv') \<and>
     Service_CreateOrderContext MemoryStore_Store sample_draws ''m1'' ''key-000000001'' ''c2''
       (sample_cmd 9 1) sv' = (Inr (Some order, True), sv'') \<and> sv_store sv'' = sv_store sv'"
proof -
  let ?o = "requested_order sample_draws ''m1'' (sample_cmd 2 500) sample_service"
  have v: "validateCreateOrder ''m1'' ''key-000000001'' (sample_cmd 2 500) = None"
    "validateCreateOrder ''m1'' ''key-000000001'' (sample_cmd 9 1) = None"
    by (rule sample_cmd_valid; simp)+
  have i: "ms_inv (sv_store sample_service)" "mapget (orders (sv_store sample_service)) oid = None" for oid
    by (simp_all add: sample_service_def NewMemoryStore_inv) (simp add: NewMemoryStore_def)
  obtain sv' where c: "Service_CreateOrderContext MemoryStore_Store sample_draws ''m1'' ''key-000000001'' ''c1''
       (sample_cmd 2 500) sample_service = (Inr (Some ?o, False), sv')"
    using ms.create_new [OF i(1) v(1), of sample_draws "''c1''"]
    by (auto simp: sample_service_def ms_key_ref_def ms_ext_ref_def NewMemoryStore_def)
  from create_order_idempotent [OF i(1) v i(2) c] c show ?thesis by blast
qed

text \<open>
  Idempotency keys are scoped to a merchant as long as merchant ids have no colon: two
  merchants never share an entry of the index, whatever keys they choose. With a colon in a
  merchant id the scoping fails, since the separator is not escaped: merchant \<open>a:b\<close> with key
  \<open>c\<close> is indexed as merchant \<open>a\<close> with key \<open>b:c\<close>.
\<close>

theorem idempotency_scope:
  "(\<forall>m m' v v'. CHR '':'' \<notin> set m \<and> CHR '':'' \<notin> set m' \<longrightarrow>
      scopedKey m v = scopedKey m' v' \<longrightarrow> m = m' \<and> v = v') \<and>
   scopedKey ''a:b'' ''c'' = scopedKey ''a'' ''b:c''"
proof
  show "\<forall>m m' v v'. CHR '':'' \<notin> set m \<and> CHR '':'' \<notin> set m' \<longrightarrow>
      scopedKey m v = scopedKey m' v' \<longrightarrow> m = m' \<and> v = v'"
    using scopedKey_inj by blast
qed (simp add: scopedKey_def)

text \<open>
  C26. A cancellation request succeeds exactly when its actor names a reason, a type and an id
  and the order exists in a status from which it can still be cancelled (pending, reserved,
  authorized, shipped or already pending cancellation). On success the order is in
  \<open>cancellation_pending\<close> with its terms kept, and one \<open>order.cancel_requested\<close> event and one
  audit log naming the actor are appended; on failure nothing changes.
\<close>

theorem cancel_order_behaviour:
  assumes "ms_inv (sv_store sv)"
    and "Service_CancelOrderContext MemoryStore_Store d oid corr actor sv = (r, sv')"
  shows "(ok r \<longleftrightarrow> TrimSpace (aa_Reason actor) \<noteq> [] \<and> TrimSpace (aa_Type actor) \<noteq> [] \<and>
      TrimSpace (aa_ID actor) \<noteq> [] \<and>
      (\<exists>order. mapget (orders (sv_store sv)) oid = Some order \<and>
        o_Status order \<in> {StatusPendingFulfillment, StatusInventoryReserved, StatusPaymentAuthorized,
          StatusShipmentCreated, StatusCancellationPending})) \<and>
    (\<not> ok r \<longrightarrow> sv' = sv) \<and>
    (ok r \<longrightarrow> ms_inv (sv_store sv') \<and> (\<exists>order mid. mapget (orders (sv_store sv)) oid = Some order \<and>
       recorded oid (moves_to StatusCancellationPending) [cancel_event mid oid corr (dr_clock d 0) actor order]
         (cancel_audit oid corr (dr_clock d 0) actor order) (ms_view (sv_store sv)) (ms_view (sv_store sv'))))"
proof -
  have a: "validateCancelActor actor = None \<longleftrightarrow> TrimSpace (aa_Reason actor) \<noteq> [] \<and>
      TrimSpace (aa_Type actor) \<noteq> [] \<and> TrimSpace (aa_ID actor) \<noteq> []"
    by (simp add: validateCancelActor_def)
  have t: "CanTransitionOrderStatus st StatusCancellationPending \<longleftrightarrow>
      st \<in> {StatusPendingFulfillment, StatusInventoryReserved, StatusPaymentAuthorized,
          StatusShipmentCreated, StatusCancellationPending}" for st
    by (auto simp: CanTransition_iff status_step_iff)
  have failed: "\<not> ok r \<longrightarrow> sv' = sv"
    using assms(2) by (auto simp: Service_CancelOrderContext_def MemoryStore_Store_def MemoryStore_GetOrder_def
        MemoryStore_UpdateOrderStatus_def Let_def split: option.splits if_splits prod.splits)
  have go: "ok r" if "validateCancelActor actor = None" "mapget (orders (sv_store sv)) oid = Some order"
    "CanTransitionOrderStatus (o_Status order) StatusCancellationPending" for order
    using ms.cancel_succeeds [OF assms(1) that(1), where oid = oid and order = order and d = d and corr = corr]
      that(2,3) assms(2) by simp
  note effect = ms.cancel_effect [OF assms, unfolded ms_view_simps]
  show ?thesis unfolding t [symmetric]
  proof (intro conjI impI iffI)
    assume "ok r"
    with effect have "validateCancelActor actor = None" by blast
    then show "TrimSpace (aa_Reason actor) \<noteq> []" "TrimSpace (aa_Type actor) \<noteq> []" "TrimSpace (aa_ID actor) \<noteq> []"
      by (simp_all add: a)
  next
    assume "TrimSpace (aa_Reason actor) \<noteq> [] \<and> TrimSpace (aa_Type actor) \<noteq> [] \<and> TrimSpace (aa_ID actor) \<noteq> [] \<and>
      (\<exists>order. mapget (orders (sv_store sv)) oid = Some order \<and>
        CanTransitionOrderStatus (o_Status order) StatusCancellationPending)"
    with go a show "ok r" by blast
  qed (use effect failed in blast)+
qed

theorem cancel_order_behaviour_witness:
  "ok (fst (Service_CancelOrderContext MemoryStore_Store sample_draws ''ord_1'' ''corr''
      \<lparr>aa_Type = ''user'', aa_ID = ''u1'', aa_Reason = ''late''\<rparr>
      \<lparr>sv_counter = 0, sv_store = sample_store\<rparr>))"
proof -
  let ?sv = "\<lparr>sv_counter = 0, sv_store = sample_store\<rparr>"
    and ?a = "\<lparr>aa_Type = ''user'', aa_ID = ''u1'', aa_Reason = ''late''\<rparr>"
  obtain r sv' where run: "Service_CancelOrderContext MemoryStore_Store sample_draws ''ord_1'' ''corr'' ?a ?sv = (r, sv')"
    by fastforce
  have "TrimSpace ''late'' \<noteq> []" "TrimSpace ''user'' \<noteq> []" "TrimSpace ''u1'' \<noteq> []" by code_simp+
  with cancel_order_behaviour [OF _ run] run sample_store_inv show ?thesis by (simp add: sample_order_def)
qed

end
