(* ===== verification/Pg_Creation.thy ===== *)
theory Pg_Creation
  imports Pg_Contract Order_Service
begin

text \<open>
  Repeated attempts to create an order on the PostgreSQL store, each over a connection that may
  fail at any statement: however often a client retries, at most one order comes of it.
\<close>

lemmas pg_create_replay = order_store.create_replay [OF pg.order_store_axioms]

subsection \<open>One insertion under faults\<close>

lemma quiet_inv [simp]: "pg_inv p (quiet db) = wf_db p db"
  by (simp add: pg_inv_def)

lemma key_ref_quiet [simp]: "pg_key_ref (quiet (pg_db s)) = pg_key_ref s"
  by (simp add: pg_key_ref_def fun_eq_iff)

lemma view_quiet [simp]: "pg_view p (quiet (pg_db s)) = pg_view p s"
  by (simp add: pg_view_def)

lemma same_db:
  assumes "pg_db s' = pg_db s"
  shows "pg_key_ref s' = pg_key_ref s" "pg_view p s' = pg_view p s"
  using assms by (simp_all add: pg_key_ref_def pg_view_def fun_eq_iff)

lemma insert_known:
  assumes "wf_db p (pg_db s)" "pg_key_ref s m k = Some oid"
    and "pg_InsertOrder p m k order event audit s = (r, s')"
  shows "pg_db s' = pg_db s \<and> (\<forall>x. r = Inr x \<longrightarrow> (\<exists>old. x = (Some old, True) \<and> o_OrderID old = oid))"
proof -
  from assms(1,2) pg.insert_replay [of p "quiet (pg_db s)" m k oid order event audit] obtain old where
    old: "lg_orders (pg_view p s) oid = Some old"
    and calm: "pg_InsertOrder p m k order event audit (quiet (pg_db s)) = (Inr (Some old, True), quiet (pg_db s))"
    by (auto simp: pg_Store_def)
  have "o_OrderID old = oid" using pg.stored_status [of p "quiet (pg_db s)" oid old] assms(1) old by simp
  with atomicD [OF atomic_methods(1) assms(3) calm] show ?thesis by (cases r) auto
qed

lemma insert_unknown:
  assumes "wf_db p (pg_db s)" "pg_key_ref s m k = None" "o_MerchantID order = m"
    and "pg_InsertOrder p m k order event audit s = (r, s')"
  shows "pg_db s' = pg_db s \<and> \<not> ok r \<or>
    wf_db p (pg_db s') \<and> stored order event audit (pg_view p s) (pg_view p s') \<and>
    pg_key_ref s' m k = Some (o_OrderID order) \<and> (\<forall>x. r = Inr x \<longrightarrow> x = (Some order, False))"
proof -
  obtain r0 s0 where calm: "pg_InsertOrder p m k order event audit (quiet (pg_db s)) = (r0, s0)" by fastforce
  note a = atomicD [OF atomic_methods(1) assms(4) calm]
  have fresh: "pg_inv p s0 \<and> (case r0 of Inl _ \<Rightarrow> s0 = quiet (pg_db s)
    | Inr x \<Rightarrow> x = (Some order, False) \<and> stored order event audit (pg_view p s) (pg_view p s0) \<and>
        pg_key_ref s0 m k = Some (o_OrderID order))"
    using pg_insert_fresh [OF _ _ assms(3) calm] assms(1,2) by (simp split: sum.splits)
  show ?thesis
  proof (cases r0)
    case (Inl e)
    with fresh a show ?thesis by auto
  next
    case (Inr x)
    show ?thesis
    proof (cases "pg_db s' = pg_db s0")
      case True
      with Inr fresh a(2) same_db [OF True] show ?thesis by (auto simp: pg_inv_def)
    next
      case False
      with a show ?thesis by auto
    qed
  qed
qed

subsection \<open>Concurrent insertions\<close>

text \<open>
  The look-up of the key may miss an insertion that another transaction commits just after it.
  The statements that follow then run on a database that has the key or the external order id,
  and the unique constraints stop them.
\<close>

definition key_taken :: "string \<Rightarrow> string \<Rightarrow> database \<Rightarrow> bool" where
  "key_taken m k db \<longleftrightarrow> list_ex (\<lambda>r. ik_merchant_id r = m \<and> ik_idempotency_key r = k) (idempotency_keys db)"

definition external_taken :: "string \<Rightarrow> string \<Rightarrow> database \<Rightarrow> bool" where
  "external_taken m x db \<longleftrightarrow> list_ex (\<lambda>q. ow_merchant_id q = m \<and> ow_external_order_id q = x) (orders_t db)"

lemma triple_void: "triple (\<lambda>_. False) m Q"
  by (simp add: triple_def)

lemma insert_over_key: "triple (key_taken m k) (insert_new_order p m k order event audit) (\<lambda>_ _. False)"
proof -
  let ?K = "key_taken m k"
  have "preserves ?K (statement (insert_merchant p m))"
    by (rule triple_statement) (auto simp: insert_merchant_def key_taken_def split: if_splits)
  then have up: "preserves ?K (upsertMerchant p m)" unfolding upsertMerchant_def by (intro preserves_intros)
  have row: "preserves ?K (statement (insert_order_row p r))" for r
    by (rule triple_statement) (auto simp: insert_order_row_def key_taken_def)
  have item: "preserves ?K (statement (insert_item_row p r))" for r
    by (rule triple_statement) (auto simp: insert_item_row_def key_taken_def)
  have key: "triple ?K (statement (insert_key_row p \<lparr>ik_merchant_id = m, ik_idempotency_key = k, ik_order_id = oid\<rparr>)) (\<lambda>_ _. False)" for oid
    by (rule triple_statement) (auto simp: insert_key_row_def key_taken_def)
  show ?thesis unfolding insert_new_order_def
    by (rule triple_bind [OF up], rule triple_bind [OF triple_catching [OF row]],
        rule triple_bind [OF preserves_fold [OF triple_wrapped [OF item]]], rule triple_bind [OF triple_wrapped [OF key]], rule triple_void)
qed

lemma insert_over_external:
  "triple (external_taken m (o_ExternalOrderID order)) (insert_new_order p m k order event audit) (\<lambda>_ _. False)"
proof -
  let ?X = "external_taken m (o_ExternalOrderID order)"
  have "preserves ?X (statement (insert_merchant p m))"
    by (rule triple_statement) (auto simp: insert_merchant_def external_taken_def split: if_splits)
  then have up: "preserves ?X (upsertMerchant p m)" unfolding upsertMerchant_def by (intro preserves_intros)
  have row: "triple ?X (statement (insert_order_row p (row_of_order m order))) (\<lambda>_ _. False)"
    by (rule triple_statement) (auto simp: insert_order_row_def external_taken_def row_of_order_def)
  show ?thesis unfolding insert_new_order_def
    by (rule triple_bind [OF up], rule triple_bind [OF triple_catching [OF row]], rule triple_void)
qed

lemma transaction_void:
  assumes "triple P body (\<lambda>_ _. False)" "P (pg_db s)" "transaction b c body s = (r, s')"
  shows "\<not> ok r \<and> pg_db s' = pg_db s"
  using assms(3)
proof (cases rule: transaction_begun)
  case (ran s0 x s1)
  with tripleD [OF assms(1), of s0 x s1] assms(2) show ?thesis by simp
next
  case (broken s0 x s1 e)
  with tripleD [OF assms(1), of s0 x s1] assms(2) show ?thesis by simp
qed simp_all

subsection \<open>Attempts\<close>

record attempt =
  try_draws :: draws
  try_correlation :: string
  try_command :: CreateOrderCommand
  try_faults :: "fault option list"

definition over_connection :: "fault option list \<Rightarrow> pg Service \<Rightarrow> pg Service" where
  "over_connection faults sv = sv\<lparr>sv_store := (sv_store sv)\<lparr>pg_faults := faults\<rparr>\<rparr>"

fun attempts :: "pg_params \<Rightarrow> string \<Rightarrow> string \<Rightarrow> attempt list \<Rightarrow> pg Service \<Rightarrow> (error + Order option \<times> bool) list \<times> pg Service" where
  "attempts p m k [] sv = ([], sv)"
| "attempts p m k (t # ts) sv =
     (let (r, sv1) = Service_CreateOrderContext (pg_Store p) (try_draws t) m k (try_correlation t) (try_command t)
            (over_connection (try_faults t) sv);
          (rs, sv2) = attempts p m k ts sv1
      in (r # rs, sv2))"

definition answers_for :: "string \<Rightarrow> error + Order option \<times> bool \<Rightarrow> bool" where
  "answers_for oid r \<longleftrightarrow> (case r of Inl _ \<Rightarrow> True | Inr (order, _) \<Rightarrow> map_option o_OrderID order = Some oid)"

definition new_orders :: "(error + Order option \<times> bool) list \<Rightarrow> nat" where
  "new_orders rs = length (filter (\<lambda>r. case r of Inl _ \<Rightarrow> False | Inr (_, replayed) \<Rightarrow> \<not> replayed) rs)"

lemma new_orders_simps [simp]:
  "new_orders [] = 0" "new_orders (Inl e # rs) = new_orders rs"
  "new_orders (Inr (order, replayed) # rs) = (if replayed then 0 else 1) + new_orders rs"
  by (simp_all add: new_orders_def)

lemma answers_for_simps [simp]:
  "answers_for oid (Inl e)" "answers_for oid (Inr (order, replayed)) \<longleftrightarrow> map_option o_OrderID order = Some oid"
  by (simp_all add: answers_for_def)

lemma over_connection_simps [simp]:
  "sv_store (over_connection faults sv) = (sv_store sv)\<lparr>pg_faults := faults\<rparr>"
  "pg_key_ref (s\<lparr>pg_faults := faults\<rparr>) = pg_key_ref s" "pg_view p (s\<lparr>pg_faults := faults\<rparr>) = pg_view p s"
  by (simp_all add: over_connection_def pg_key_ref_def pg_view_def fun_eq_iff)

text \<open>An attempt either is refused by validation or is one insertion.\<close>

lemma attempt_insertion:
  assumes "Service_CreateOrderContext S d m k corr req sv = (r, sv')"
  obtains (refused) e where "r = Inl e" "sv_store sv' = sv_store sv"
  | (inserted) order event audit where "o_MerchantID order = m"
      "st_InsertOrder S m k order event audit (sv_store sv) = (r, sv_store sv')"
proof (cases "validateCreateOrder m k req")
  case (Some e)
  with CreateOrder_invalid [OF Some, of S d corr sv] assms refused show thesis by auto
next
  case None
  from CreateOrder_valid [OF None, of S d corr sv] assms have "st_InsertOrder S m k
      (requested_order d m req sv) (requested_event d corr m req sv) (requested_audit d corr m req sv)
      (sv_store sv) = (r, sv_store sv')"
    by (auto simp: split_beta Let_def prod_eq_iff)
  with inserted [of "requested_order d m req sv"] show thesis by simp
qed

lemma attempts_known:
  "wf_db p (pg_db (sv_store sv)) \<Longrightarrow> pg_key_ref (sv_store sv) m k = Some oid \<Longrightarrow> attempts p m k ts sv = (rs, sv') \<Longrightarrow>
   pg_db (sv_store sv') = pg_db (sv_store sv) \<and> list_all (answers_for oid) rs \<and> new_orders rs = 0"
proof (induction ts arbitrary: sv rs)
  case (Cons t ts)
  let ?sv = "over_connection (try_faults t) sv"
  from Cons.prems(3) obtain r sv1 rs' where first: "Service_CreateOrderContext (pg_Store p) (try_draws t) m k
      (try_correlation t) (try_command t) ?sv = (r, sv1)"
    and rest: "attempts p m k ts sv1 = (rs', sv')" and rs: "rs = r # rs'"
    by (auto split: prod.splits)
  from first have one: "pg_db (sv_store sv1) = pg_db (sv_store sv) \<and> (\<forall>x. r = Inr x \<longrightarrow> (\<exists>old. x = (Some old, True) \<and> o_OrderID old = oid))"
  proof (cases rule: attempt_insertion)
    case (inserted order event audit)
    with insert_known [of p "sv_store ?sv" m k oid order event audit r "sv_store sv1"] Cons.prems(1,2) show ?thesis
      by (simp add: pg_Store_def)
  qed simp
  then have db: "pg_db (sv_store sv1) = pg_db (sv_store sv)" by simp
  from Cons.IH [OF _ _ rest] one Cons.prems(1,2) same_db(1) [OF db] rs show ?case by (cases r) auto
qed simp

text \<open>The first attempt that takes effect decides the order.\<close>

lemma attempts_once:
  assumes "wf_db p (pg_db (sv_store sv))" "pg_key_ref (sv_store sv) m k = None" "attempts p m k ts sv = (rs, sv')"
  shows "pg_db (sv_store sv') = pg_db (sv_store sv) \<and> (\<forall>r\<in>set rs. \<not> ok r) \<or>
    (\<exists>order event audit. wf_db p (pg_db (sv_store sv')) \<and>
       stored order event audit (pg_view p (sv_store sv)) (pg_view p (sv_store sv')) \<and>
       pg_key_ref (sv_store sv') m k = Some (o_OrderID order) \<and> list_all (answers_for (o_OrderID order)) rs \<and> new_orders rs \<le> 1)"
  using assms
proof (induction ts arbitrary: sv rs)
  case (Cons t ts)
  let ?sv = "over_connection (try_faults t) sv"
  from Cons.prems(3) obtain r sv1 rs' where first: "Service_CreateOrderContext (pg_Store p) (try_draws t) m k
      (try_correlation t) (try_command t) ?sv = (r, sv1)"
    and rest: "attempts p m k ts sv1 = (rs', sv')" and rs: "rs = r # rs'"
    by (auto split: prod.splits)
  have step: "pg_db (sv_store sv1) = pg_db (sv_store sv) \<and> \<not> ok r \<or>
      (\<exists>order event audit. wf_db p (pg_db (sv_store sv1)) \<and> stored order event audit (pg_view p (sv_store sv)) (pg_view p (sv_store sv1)) \<and>
         pg_key_ref (sv_store sv1) m k = Some (o_OrderID order) \<and> (\<forall>x. r = Inr x \<longrightarrow> x = (Some order, False)))"
    using first
  proof (cases rule: attempt_insertion)
    case (inserted order event audit)
    have "pg_db (sv_store sv1) = pg_db (sv_store sv) \<and> \<not> ok r \<or>
        wf_db p (pg_db (sv_store sv1)) \<and> stored order event audit (pg_view p (sv_store sv)) (pg_view p (sv_store sv1)) \<and>
        pg_key_ref (sv_store sv1) m k = Some (o_OrderID order) \<and> (\<forall>x. r = Inr x \<longrightarrow> x = (Some order, False))"
      using insert_unknown [of p "sv_store ?sv" m k order event audit r "sv_store sv1"] Cons.prems(1,2) inserted
      by (simp add: pg_Store_def)
    then show ?thesis by blast
  qed simp
  then show ?case
  proof (elim disjE exE conjE)
    assume db: "pg_db (sv_store sv1) = pg_db (sv_store sv)" and fail: "\<not> ok r"
    from fail obtain e where "r = Inl e" by (cases r) auto
    with Cons.IH [OF _ _ rest] Cons.prems(1,2) db same_db [OF db] rs show ?thesis by auto
  next
    fix order event audit
    assume o: "wf_db p (pg_db (sv_store sv1))" "stored order event audit (pg_view p (sv_store sv)) (pg_view p (sv_store sv1))"
      "pg_key_ref (sv_store sv1) m k = Some (o_OrderID order)" "\<forall>x. r = Inr x \<longrightarrow> x = (Some order, False)"
    from attempts_known [OF o(1,3) rest] have later: "pg_db (sv_store sv') = pg_db (sv_store sv1)"
      "list_all (answers_for (o_OrderID order)) rs'" "new_orders rs' = 0" by auto
    have "list_all (answers_for (o_OrderID order)) rs \<and> new_orders rs \<le> 1" using o(4) later(2,3) rs by (cases r) auto
    with o(1-3) same_db [OF later(1)] later(1) show ?thesis by auto
  qed
qed simp

text \<open>From then on a creation over a working connection replays that order.\<close>

lemma attempt_replayed:
  assumes "wf_db p (pg_db (sv_store sv))" "pg_key_ref (sv_store sv) m k = Some oid" "validateCreateOrder m k req = None"
  shows "\<exists>old sv'. Service_CreateOrderContext (pg_Store p) d m k corr req (over_connection [] sv) = (Inr (Some old, True), sv') \<and>
    o_OrderID old = oid \<and> pg_db (sv_store sv') = pg_db (sv_store sv)"
proof -
  have inv: "pg_inv p (sv_store (over_connection [] sv))" using assms(1) by (simp add: pg_inv_def)
  from pg_create_replay [OF inv assms(3), of oid d corr] assms(2) obtain old sv' where
    "lg_orders (pg_view p (sv_store (over_connection [] sv))) oid = Some old"
    "Service_CreateOrderContext (pg_Store p) d m k corr req (over_connection [] sv) = (Inr (Some old, True), sv')"
    "sv_store sv' = sv_store (over_connection [] sv)" by auto
  with pg.stored_status [OF inv] show ?thesis by auto
qed

end
