(* ===== verification/Jwt.thy ===== *)
theory Jwt
  imports Order_Model Sha256
begin

text \<open>
  Operations tokens of \<open>internal/api/server.go\<close>: the bearer header, the base64url decoding of
  \<open>encoding/base64\<close> (\<open>RawURLEncoding\<close>), the claims and \<open>validateOpsJWT\<close>. \<open>encoding/json\<close> enters
  as the functions that read a header object, a claims object, a string and a list of
  strings.
\<close>

subsection \<open>Base64url\<close>

text \<open>
  The decoder skips line breaks, takes groups of four characters, and accepts a last group
  of two or three whose unused bits it drops without a check.
\<close>

definition b64_alphabet :: string where
  "b64_alphabet = ''ABCDEFGHIJKLMNOPQRSTUVWXYZabcdefghijklmnopqrstuvwxyz0123456789-_''"

fun index_of :: "'a \<Rightarrow> 'a list \<Rightarrow> nat option" where
  "index_of x [] = None"
| "index_of x (y # ys) = (if x = y then Some 0 else map_option Suc (index_of x ys))"

definition b64_val :: "char \<Rightarrow> nat option" where
  "b64_val c = index_of c b64_alphabet"

fun b64_quanta :: "nat list \<Rightarrow> string option" where
  "b64_quanta [] = Some []"
| "b64_quanta [a] = None"
| "b64_quanta [a, b] = Some [char_of (a * 4 + b div 16)]"
| "b64_quanta [a, b, c] = Some [char_of (a * 4 + b div 16), char_of (b mod 16 * 16 + c div 4)]"
| "b64_quanta (a # b # c # d # r) =
     map_option (\<lambda>bs. char_of (a * 4 + b div 16) # char_of (b mod 16 * 16 + c div 4) #
       char_of (c mod 4 * 64 + d) # bs) (b64_quanta r)"

definition RawURL_DecodeString :: "string \<Rightarrow> string option" where
  "RawURL_DecodeString s =
     (let vals = map b64_val (filter (\<lambda>c. c \<noteq> CHR 0x0D \<and> c \<noteq> CHR 0x0A) s)
      in if None \<in> set vals then None else b64_quanta (map the vals))"

text \<open>The encoder, as the reference for what is decoded.\<close>

definition b64_char :: "nat \<Rightarrow> char" where
  "b64_char n = b64_alphabet ! n"

fun RawURL_EncodeToString :: "string \<Rightarrow> string" where
  "RawURL_EncodeToString [] = []"
| "RawURL_EncodeToString [x] =
     (let a = of_char x in [b64_char (a div 4), b64_char (a mod 4 * 16)])"
| "RawURL_EncodeToString [x, y] =
     (let a = of_char x; b = of_char y
      in [b64_char (a div 4), b64_char (a mod 4 * 16 + b div 16), b64_char (b mod 16 * 4)])"
| "RawURL_EncodeToString (x # y # z # r) =
     (let a = of_char x; b = of_char y; c = of_char z
      in b64_char (a div 4) # b64_char (a mod 4 * 16 + b div 16) # b64_char (b mod 16 * 4 + c div 64) #
         b64_char (c mod 64) # RawURL_EncodeToString r)"

subsection \<open>Tokens\<close>

definition EqualFold_Bearer :: "string \<Rightarrow> bool" where
  "EqualFold_Bearer s \<longleftrightarrow> map ascii_lower s = ''bearer''"

definition bearerToken :: "string \<Rightarrow> string" where
  "bearerToken header =
     (case Cut (TrimSpace header) (CHR '' '') of
        (authType, token, found) \<Rightarrow>
          if \<not> found \<or> \<not> EqualFold_Bearer authType then [] else TrimSpace token)"

type_synonym jwtAudience = "string list"

record opsJWTClaims =
  jc_Subject :: string
  jc_Issuer :: string
  jc_Audience :: jwtAudience
  jc_ExpiresAt :: int
  jc_Role :: string
  jc_Roles :: "string list"

record json_reader =
  js_header :: "string \<Rightarrow> error + any gomap"
  js_claims :: "string \<Rightarrow> error + opsJWTClaims"
  js_string :: "string \<Rightarrow> error + string"
  js_strings :: "string \<Rightarrow> error + string list"

definition jwtAudience_UnmarshalJSON :: "json_reader \<Rightarrow> string \<Rightarrow> error + jwtAudience" where
  "jwtAudience_UnmarshalJSON js raw =
     (case js_string js raw of
        Inr single \<Rightarrow> Inr [single]
      | Inl _ \<Rightarrow> (case js_strings js raw of Inl err \<Rightarrow> Inl err | Inr many \<Rightarrow> Inr many))"

definition jwtAudience_Contains :: "jwtAudience \<Rightarrow> string \<Rightarrow> bool" where
  "jwtAudience_Contains a want = list_ex (\<lambda>got. got = want) a"

definition hasOperationsRole :: "opsJWTClaims \<Rightarrow> bool" where
  "hasOperationsRole c =
     list_ex (\<lambda>role. TrimSpace role \<in> set [''operations'', ''ops'']) (jc_Roles c @ [jc_Role c])"

definition decodeJWTPart :: "(string \<Rightarrow> error + 'a) \<Rightarrow> string \<Rightarrow> 'a option" where
  "decodeJWTPart read part =
     (case RawURL_DecodeString part of
        None \<Rightarrow> None
      | Some raw \<Rightarrow> (case read raw of Inl _ \<Rightarrow> None | Inr v \<Rightarrow> Some v))"

definition opsJWTSecrets :: "string \<Rightarrow> string list \<Rightarrow> string list" where
  "opsJWTSecrets current previous = filter (\<lambda>value. value \<noteq> []) (map TrimSpace (current # previous))"

definition matchesAnyOpsJWTSecret :: "string \<Rightarrow> string \<Rightarrow> string list \<Rightarrow> bool" where
  "matchesAnyOpsJWTSecret signingInput got secrets = list_ex (\<lambda>secret. got = hmac_Sum secret signingInput) secrets"

definition validateOpsJWT :: "json_reader \<Rightarrow> string \<Rightarrow> string list \<Rightarrow> string \<Rightarrow> string \<Rightarrow> time \<Rightarrow> string option" where
  "validateOpsJWT js token secrets issuer audience now =
     (if secrets = [] then None
      else
        (let parts = Split token (CHR ''.'') in
         if length parts \<noteq> 3 then None
         else
           (case decodeJWTPart (js_header js) (parts ! 0) of
              None \<Rightarrow> None
            | Some hdr \<Rightarrow>
              if mapget hdr ''alg'' \<noteq> Some (AStr ''HS256'') then None
              else
                (let signingInput = parts ! 0 @ ''.'' @ parts ! 1 in
                 case RawURL_DecodeString (parts ! 2) of
                   None \<Rightarrow> None
                 | Some got \<Rightarrow>
                   if \<not> matchesAnyOpsJWTSecret signingInput got secrets then None
                   else
                     (case decodeJWTPart (js_claims js) (parts ! 1) of
                        None \<Rightarrow> None
                      | Some claims \<Rightarrow>
                        if TrimSpace (jc_Subject claims) = [] \<or> jc_ExpiresAt claims \<le> Unix_seconds now \<or>
                           \<not> hasOperationsRole claims then None
                        else if issuer \<noteq> [] \<and> jc_Issuer claims \<noteq> issuer then None
                        else if audience \<noteq> [] \<and> \<not> jwtAudience_Contains (jc_Audience claims) audience then None
                        else Some (jc_Subject claims))))))"

subsection \<open>Facts\<close>

lemma length_alphabet: "length b64_alphabet = 64"
  by (simp add: b64_alphabet_def)

lemma distinct_alphabet: "distinct b64_alphabet"
  by code_simp

lemma index_of_nth: "distinct xs \<Longrightarrow> i < length xs \<Longrightarrow> index_of (xs ! i) xs = Some i"
proof (induction xs arbitrary: i)
  case (Cons x xs)
  then show ?case by (cases i) auto
qed simp

lemma b64_val_char: "n < 64 \<Longrightarrow> b64_val (b64_char n) = Some n"
  by (simp add: b64_val_def b64_char_def index_of_nth distinct_alphabet length_alphabet)

lemma b64_char_in: "n < 64 \<Longrightarrow> b64_char n \<in> set b64_alphabet"
  by (simp add: b64_char_def length_alphabet)

lemma of_char_bounds:
  "(of_char c :: nat) div 4 < 64" "(of_char c :: nat) div 16 < 16" "(of_char c :: nat) div 64 < 4"
proof -
  have c: "(of_char c :: nat) < 256" using nat_of_char_less_256 [of c] by simp
  then show "(of_char c :: nat) div 4 < 64" "(of_char c :: nat) div 16 < 16" "(of_char c :: nat) div 64 < 4"
    by (intro less_mult_imp_div_less; simp)+
qed

lemma mix_bounds:
  fixes a b :: nat
  shows "b < 16 \<Longrightarrow> a mod 4 * 16 + b < 64" "b < 4 \<Longrightarrow> a mod 16 * 4 + b < 64"
  using mod_less_divisor [of 4 a] mod_less_divisor [of 16 a] by linarith+

fun sextets :: "string \<Rightarrow> nat list" where
  "sextets [] = []"
| "sextets [x] = [of_char x div 4, of_char x mod 4 * 16]"
| "sextets [x, y] = [of_char x div 4, of_char x mod 4 * 16 + of_char y div 16, of_char y mod 16 * 4]"
| "sextets (x # y # z # r) = [of_char x div 4, of_char x mod 4 * 16 + of_char y div 16,
     of_char y mod 16 * 4 + of_char z div 64, of_char z mod 64] @ sextets r"

lemma Encode_sextets: "RawURL_EncodeToString s = map b64_char (sextets s)"
  by (induction s rule: sextets.induct) (simp_all add: Let_def)

lemma sextets_small: "list_all (\<lambda>n. n < 64) (sextets s)"
proof (induction s rule: sextets.induct)
  case (2 x)
  then show ?case using of_char_bounds(1) [of x] mix_bounds(1) [of 0 "of_char x"] by simp
next
  case (3 x y)
  then show ?case using of_char_bounds [of x] mix_bounds(1) [OF of_char_bounds(2) [of y], of "of_char x"]
      mix_bounds(2) [of 0 "of_char y"] by simp
next
  case (4 x y z r)
  then show ?case using of_char_bounds [of x] mix_bounds(1) [OF of_char_bounds(2) [of y], of "of_char x"]
      mix_bounds(2) [OF of_char_bounds(3) [of z], of "of_char y"] by simp
qed simp

lemma sextets_quanta: "b64_quanta (sextets s) = Some s"
proof (induction s rule: sextets.induct)
  case (3 x y)
  have "(of_char x mod 4 * 16 + of_char y div 16) div 16 = (of_char x mod 4 :: nat)"
    "(of_char x mod 4 * 16 + of_char y div 16) mod 16 = (of_char y div 16 :: nat)"
    using of_char_bounds(2) [of y] by simp_all
  then show ?case by (simp add: mult.commute)
next
  case (4 x y z r)
  have "(of_char x mod 4 * 16 + of_char y div 16) div 16 = (of_char x mod 4 :: nat)"
    "(of_char x mod 4 * 16 + of_char y div 16) mod 16 = (of_char y div 16 :: nat)"
    "(of_char y mod 16 * 4 + of_char z div 64) div 4 = (of_char y mod 16 :: nat)"
    "(of_char y mod 16 * 4 + of_char z div 64) mod 4 = (of_char z div 64 :: nat)"
    using of_char_bounds(2) [of y] of_char_bounds(3) [of z] by simp_all
  with 4 show ?case by (simp add: mult.commute)
qed (simp_all add: mult.commute)

lemma alphabet_safe: "\<forall>c\<in>set b64_alphabet. c \<noteq> CHR 0x0D \<and> c \<noteq> CHR 0x0A \<and> c \<noteq> CHR ''.''"
  by code_simp

lemma RawURL_Encode_chars: "set (RawURL_EncodeToString s) \<subseteq> set b64_alphabet"
  using sextets_small [of s] by (auto simp: Encode_sextets list_all_iff b64_char_in)

lemma dot_not_in_Encode: "CHR ''.'' \<notin> set (RawURL_EncodeToString s)"
  using RawURL_Encode_chars alphabet_safe by blast

lemma RawURL_Decode_Encode [simp]: "RawURL_DecodeString (RawURL_EncodeToString s) = Some s"
proof -
  have f: "filter (\<lambda>c. c \<noteq> CHR 0x0D \<and> c \<noteq> CHR 0x0A) (RawURL_EncodeToString s) = RawURL_EncodeToString s"
    using RawURL_Encode_chars [of s] alphabet_safe by (auto simp: filter_id_conv)
  have "map b64_val (map b64_char ns) = map Some ns" if "list_all (\<lambda>n. n < 64) ns" for ns
    using that by (induction ns) (auto simp: b64_val_char)
  then have v: "map b64_val (RawURL_EncodeToString s) = map Some (sextets s)"
    using sextets_small [of s] by (simp only: Encode_sextets)
  show ?thesis unfolding RawURL_DecodeString_def f v by (auto simp: Let_def comp_def sextets_quanta)
qed

lemma validateOpsJWT_iff:
  "validateOpsJWT js token secrets issuer audience now = Some subject \<longleftrightarrow>
   (\<exists>h p sg hdr claims got. Split token (CHR ''.'') = [h, p, sg] \<and>
      decodeJWTPart (js_header js) h = Some hdr \<and> mapget hdr ''alg'' = Some (AStr ''HS256'') \<and>
      RawURL_DecodeString sg = Some got \<and> (\<exists>secret\<in>set secrets. got = hmac_Sum secret (h @ ''.'' @ p)) \<and>
      decodeJWTPart (js_claims js) p = Some claims \<and> subject = jc_Subject claims \<and>
      TrimSpace (jc_Subject claims) \<noteq> [] \<and> Unix_seconds now < jc_ExpiresAt claims \<and> hasOperationsRole claims \<and>
      (issuer = [] \<or> jc_Issuer claims = issuer) \<and>
      (audience = [] \<or> jwtAudience_Contains (jc_Audience claims) audience))"
  (is "?L = ?R")
proof
  assume L: ?L
  then have len: "length (Split token (CHR ''.'')) = 3"
    by (auto simp: validateOpsJWT_def Let_def split: if_splits)
  then obtain h p sg where parts: "Split token (CHR ''.'') = [h, p, sg]"
    by (auto simp: numeral_3_eq_3 length_Suc_conv)
  from L show ?R
    by (auto simp: validateOpsJWT_def parts Let_def matchesAnyOpsJWTSecret_def list_ex_iff not_le
        split: if_splits option.splits)
next
  assume ?R
  then show ?L
    by (auto simp: validateOpsJWT_def matchesAnyOpsJWTSecret_def list_ex_iff Let_def)
qed

text \<open>A token as an issuer writes it: three base64url parts, the last the HMAC of the first two.\<close>

definition signed_token :: "string \<Rightarrow> string \<Rightarrow> string \<Rightarrow> string" where
  "signed_token secret rawHeader rawClaims =
     (let input = RawURL_EncodeToString rawHeader @ ''.'' @ RawURL_EncodeToString rawClaims
      in input @ ''.'' @ RawURL_EncodeToString (hmac_Sum secret input))"

lemma Split_signed_token:
  "Split (signed_token secret rawHeader rawClaims) (CHR ''.'') =
     [RawURL_EncodeToString rawHeader, RawURL_EncodeToString rawClaims,
      RawURL_EncodeToString (hmac_Sum secret (RawURL_EncodeToString rawHeader @ ''.'' @ RawURL_EncodeToString rawClaims))]"
  using Split_append [OF dot_not_in_Encode] Split_single [OF dot_not_in_Encode]
  by (simp add: signed_token_def Let_def)

lemma signed_token_validates:
  assumes "secret \<in> set secrets" "js_header js rawHeader = Inr hdr" "mapget hdr ''alg'' = Some (AStr ''HS256'')"
    and "js_claims js rawClaims = Inr claims" "TrimSpace (jc_Subject claims) \<noteq> []"
    and "Unix_seconds now < jc_ExpiresAt claims" "hasOperationsRole claims"
    and "issuer = [] \<or> jc_Issuer claims = issuer"
    and "audience = [] \<or> jwtAudience_Contains (jc_Audience claims) audience"
  shows "validateOpsJWT js (signed_token secret rawHeader rawClaims) secrets issuer audience now =
    Some (jc_Subject claims)"
  unfolding validateOpsJWT_iff Split_signed_token using assms
  by (auto simp: decodeJWTPart_def)

lemma validateOpsJWT_no_secrets: "validateOpsJWT js token [] issuer audience now = None"
  by (simp add: validateOpsJWT_def)

lemma signed_token_visible: "list_all visible (signed_token secret rawHeader rawClaims)"
proof -
  have "\<forall>c\<in>set b64_alphabet. visible c" by code_simp
  then have "list_all visible (RawURL_EncodeToString t)" for t
    using RawURL_Encode_chars [of t] by (auto simp: list_all_iff)
  moreover have "visible (CHR ''.'')" by code_simp
  ultimately show ?thesis by (simp add: signed_token_def Let_def)
qed

lemma bearerToken_Bearer:
  assumes "list_all visible token" "token \<noteq> []"
  shows "bearerToken (''Bearer '' @ token) = token"
proof -
  have v: "visible (CHR ''B'')" by code_simp
  have "visible (last token)" using assms by (auto simp: list_all_iff)
  then have t: "TrimSpace (''Bearer '' @ token) = ''Bearer '' @ token"
    using v assms(2) by (intro TrimSpace_ends) simp
  have e: "EqualFold_Bearer ''Bearer''" by code_simp
  have "Cut (''Bearer'' @ CHR '' '' # token) (CHR '' '') = (''Bearer'', token, True)" by (rule Cut_append) simp
  with t e TrimSpace_visible [OF assms(1)] show ?thesis by (simp add: bearerToken_def)
qed

end
