(* ===== verification/Http_Api.thy ===== *)
theory Http_Api
  imports Order_Service Jwt "HOL-Library.List_Lexorder" "HOL-Library.Char_ord"
begin

text \<open>
  The HTTP server of \<open>internal/api/server.go\<close> over any store and any rate limiter: routing,
  authentication, decoding, the order and shipment endpoints, error mapping, readiness and
  the metrics text. Tracing spans and log lines have no influence on requests and are left
  out.

  A request carries the first value of each header under its canonical name. A response is
  built by the recorder: headers, the status of the first \<open>WriteHeader\<close> and the bodies
  written, as the values handed to the JSON encoder. \<open>encoding/json\<close> enters as the reader of
  each request type: its answer to \<open>Decode\<close> under a body limit, and whether the second
  \<open>Decode\<close> reports the end of input. \<open>env\<close> holds what one request draws from outside.
\<close>

subsection \<open>Requests and responses\<close>

record http_request =
  rq_Method :: string
  rq_Path :: string
  rq_Header :: "string gomap"
  rq_Body :: string

record customerRequest =
  cr_ID :: string
  cr_Email :: string
  cr_FullName :: string

record addressRequest =
  ar_Line1 :: string
  ar_Line2 :: string
  ar_City :: string
  ar_State :: string
  ar_PostalCode :: string
  ar_Country :: string

record moneyRequest =
  mr_Amount :: int64
  mr_Currency :: string

record orderItemRequest =
  ir_SKU :: string
  ir_Quantity :: int64
  ir_UnitPrice :: moneyRequest

record paymentMethodRequest =
  pr_Provider :: string
  pr_PaymentToken :: string

record createOrderRequest =
  cor_ExternalOrderID :: string
  cor_Currency :: string
  cor_Customer :: customerRequest
  cor_ShippingAddress :: addressRequest
  cor_Items :: "orderItemRequest list"
  cor_PaymentMethod :: paymentMethodRequest

record cancelOrderRequest =
  xr_Reason :: string
  xr_Type :: string
  xr_ID :: string

definition toCommand :: "createOrderRequest \<Rightarrow> CreateOrderCommand" where
  "toCommand r =
     \<lparr>co_ExternalOrderID = cor_ExternalOrderID r, co_Currency = cor_Currency r,
      co_Customer = \<lparr>c_ID = cr_ID (cor_Customer r), c_Email = cr_Email (cor_Customer r),
        c_FullName = cr_FullName (cor_Customer r)\<rparr>,
      co_ShippingAddress = \<lparr>ad_Line1 = ar_Line1 (cor_ShippingAddress r),
        ad_Line2 = ar_Line2 (cor_ShippingAddress r), ad_City = ar_City (cor_ShippingAddress r),
        ad_State = ar_State (cor_ShippingAddress r), ad_PostalCode = ar_PostalCode (cor_ShippingAddress r),
        ad_Country = ar_Country (cor_ShippingAddress r)\<rparr>,
      co_Items = map (\<lambda>item. \<lparr>ii_SKU = ir_SKU item, ii_Quantity = ir_Quantity item,
        ii_UnitPrice = \<lparr>m_Amount = mr_Amount (ir_UnitPrice item), m_Currency = mr_Currency (ir_UnitPrice item)\<rparr>\<rparr>)
        (cor_Items r),
      co_PaymentMethod = \<lparr>pm_Provider = pr_Provider (cor_PaymentMethod r),
        pm_PaymentToken = pr_PaymentToken (cor_PaymentMethod r)\<rparr>\<rparr>"

record responseMeta =
  rm_RequestID :: string
  rm_CorrelationID :: string
  rm_Timestamp :: "time option"

record errorDetail =
  ed_Field :: string
  ed_Issue :: string

record errorObject =
  eo_Code :: string
  eo_Message :: string
  eo_Retryable :: bool
  eo_Details :: "errorDetail list"

datatype http_body =
    AcceptedBody (ab_order: string) (ab_merchant: string) (ab_status: OrderStatus) (ab_at: time) responseMeta
  | OrderBody Order responseMeta
  | ShipmentBody ShipmentRecord responseMeta
  | ErrorBody errorObject responseMeta
  | HealthBody time
  | ReadyBody "string gomap" time
  | TextBody string

record statusRecorder =
  rec_Header :: "string gomap"
  rec_status :: int
  rec_bodies :: "http_body list"
  rec_panicked :: bool

record actor =
  ac_MerchantID :: string
  ac_ActorID :: string
  ac_Ops :: bool

record requestState =
  qs_ActorType :: string
  qs_ActorID :: string
  qs_MerchantID :: string

subsection \<open>The server\<close>

datatype decode_error = MaxBytesError | OtherDecodeError

type_synonym 'a json_decoder = "int \<Rightarrow> string \<Rightarrow> (decode_error + 'a) \<times> bool"

record QueueDepth =
  qd_Queue :: string
  qd_MessagesReady :: int
  qd_Consumers :: int

record 's OutboxBacklogProvider =
  ob_PendingOutboxCount :: "'s \<Rightarrow> error + int"
  ob_OldestPendingOutboxAgeSeconds :: "time \<Rightarrow> 's \<Rightarrow> error + string"

type_synonym readiness_check = "time \<Rightarrow> error option"

record ('s, 'l) Server =
  srv_store :: "'s Store"
  srv_apiKeys :: "string gomap"
  srv_limiter :: "(time \<Rightarrow> string \<Rightarrow> ('l, error, bool) op) option"
  srv_opsSecrets :: "string list"
  srv_opsIssuer :: string
  srv_opsAudience :: string
  srv_queueMetrics :: "(time \<Rightarrow> error + QueueDepth list) option"
  srv_outboxMetrics :: "'s OutboxBacklogProvider option"
  srv_sagaMetrics :: "('s \<Rightarrow> error + (OrderStatus \<times> nat) list) option"
  srv_metricsToken :: string
  srv_readiness :: "readiness_check gomap"
  srv_localOpsToken :: bool
  srv_maxBodyBytes :: int

record ('s, 'l) Options =
  op_RateLimiter :: "(time \<Rightarrow> string \<Rightarrow> ('l, error, bool) op) option"
  op_OpsJWTSecret :: string
  op_OpsJWTPreviousSecrets :: "string list"
  op_OpsJWTIssuer :: string
  op_OpsJWTAudience :: string
  op_QueueMetrics :: "(time \<Rightarrow> error + QueueDepth list) option"
  op_OutboxBacklog :: "'s OutboxBacklogProvider option"
  op_SagaMetrics :: "('s \<Rightarrow> error + (OrderStatus \<times> nat) list) option"
  op_MetricsBearerToken :: string
  op_ReadinessChecks :: "readiness_check option gomap"
  op_APIKeys :: "string gomap"
  op_AllowLocalOpsToken :: bool
  op_MaxRequestBodyBytes :: int

text \<open>The order of the list stands for the iteration order of the map of checks.\<close>

definition readiness_map :: "readiness_check option gomap \<Rightarrow> readiness_check gomap" where
  "readiness_map checks =
     foldl (\<lambda>m (name, check). case check of
          Some c \<Rightarrow> if TrimSpace name = [] then m else mapset (TrimSpace name) c m
        | None \<Rightarrow> m) [(''store'', \<lambda>_. None)] checks"

definition NewServerWithOptions :: "'s Store \<Rightarrow> ('s, 'l) Options \<Rightarrow> ('s, 'l) Server" where
  "NewServerWithOptions store options =
     \<lparr>srv_store = store, srv_apiKeys = op_APIKeys options, srv_limiter = op_RateLimiter options,
      srv_opsSecrets = opsJWTSecrets (op_OpsJWTSecret options) (op_OpsJWTPreviousSecrets options),
      srv_opsIssuer = TrimSpace (op_OpsJWTIssuer options),
      srv_opsAudience = TrimSpace (op_OpsJWTAudience options),
      srv_queueMetrics = op_QueueMetrics options, srv_outboxMetrics = op_OutboxBacklog options,
      srv_sagaMetrics = op_SagaMetrics options, srv_metricsToken = TrimSpace (op_MetricsBearerToken options),
      srv_readiness = readiness_map (op_ReadinessChecks options),
      srv_localOpsToken = op_AllowLocalOpsToken options,
      srv_maxBodyBytes = (if op_MaxRequestBodyBytes options \<le> 0 then 2 ^ 20 else op_MaxRequestBodyBytes options)\<rparr>"

definition LocalDemoAPIKeys :: "string gomap" where
  "LocalDemoAPIKeys = [(''fh_live_merchant_demo'', ''mer_01hzy6v4egscg4r7kb3m7jq2dk''),
     (''fh_live_second_demo'', ''mer_01hzy8v4egscg4r7kb3m7jq9qx'')]"

definition NewServer :: "'s Store \<Rightarrow> ('s, 'l) Server" where
  "NewServer store = NewServerWithOptions store
     \<lparr>op_RateLimiter = None, op_OpsJWTSecret = [], op_OpsJWTPreviousSecrets = [], op_OpsJWTIssuer = [],
      op_OpsJWTAudience = [], op_QueueMetrics = None, op_OutboxBacklog = None, op_SagaMetrics = None,
      op_MetricsBearerToken = [], op_ReadinessChecks = [], op_APIKeys = LocalDemoAPIKeys,
      op_AllowLocalOpsToken = True, op_MaxRequestBodyBytes = 0\<rparr>"

record json_codec =
  cd_create :: "createOrderRequest json_decoder"
  cd_cancel :: "cancelOrderRequest json_decoder"
  cd_jwt :: json_reader

record env =
  en_now :: time
  en_draws :: draws

text \<open>The state a request works on: the service, the limiter, the counters, and its own response.\<close>

record ('s, 'l) hx =
  hx_service :: "'s Service"
  hx_limiter :: 'l
  hx_counter :: "64 word"
  hx_requests :: "64 word"
  hx_errors :: "64 word"
  hx_actor :: requestState
  hx_rec :: statusRecorder

definition Header_Get :: "http_request \<Rightarrow> string \<Rightarrow> string" where
  "Header_Get r key = mapstr (rq_Header r) key"

definition WriteHeader :: "int \<Rightarrow> statusRecorder \<Rightarrow> statusRecorder" where
  "WriteHeader status rec = (if rec_status rec \<noteq> 0 then rec else rec\<lparr>rec_status := status\<rparr>)"

definition statusRecorder_Write :: "http_body \<Rightarrow> statusRecorder \<Rightarrow> statusRecorder" where
  "statusRecorder_Write body rec =
     (let rec = (if rec_status rec = 0 then rec\<lparr>rec_status := 200\<rparr> else rec)
      in rec\<lparr>rec_bodies := rec_bodies rec @ [body]\<rparr>)"

definition set_header :: "string \<Rightarrow> string \<Rightarrow> ('s, 'l) hx \<Rightarrow> ('s, 'l) hx" where
  "set_header key value x = x\<lparr>hx_rec := (hx_rec x)\<lparr>rec_Header := mapset key value (rec_Header (hx_rec x))\<rparr>\<rparr>"

definition writeJSON :: "int \<Rightarrow> http_body \<Rightarrow> ('s, 'l) hx \<Rightarrow> ('s, 'l) hx" where
  "writeJSON status payload x =
     (let x = set_header ''Content-Type'' ''application/json'' x
      in x\<lparr>hx_rec := statusRecorder_Write payload (WriteHeader status (hx_rec x))\<rparr>)"

definition writeError :: "env \<Rightarrow> string \<Rightarrow> string \<Rightarrow> int \<Rightarrow> string \<Rightarrow> string \<Rightarrow> bool \<Rightarrow> errorDetail list
    \<Rightarrow> ('s, 'l) hx \<Rightarrow> ('s, 'l) hx" where
  "writeError env requestID correlationID status code message retryable details x =
     writeJSON status (ErrorBody
       \<lparr>eo_Code = code, eo_Message = message, eo_Retryable = retryable, eo_Details = details\<rparr>
       \<lparr>rm_RequestID = requestID, rm_CorrelationID = correlationID, rm_Timestamp = Some (en_now env)\<rparr>)
     (x\<lparr>hx_errors := hx_errors x + 1\<rparr>)"

definition detail :: "string \<Rightarrow> string \<Rightarrow> errorDetail" where
  "detail field issue = \<lparr>ed_Field = field, ed_Issue = issue\<rparr>"

fun handleCommerceError :: "env \<Rightarrow> string \<Rightarrow> string \<Rightarrow> error \<Rightarrow> ('s, 'l) hx \<Rightarrow> ('s, 'l) hx" where
  "handleCommerceError env rid cid (ValidationError fs) x =
     writeError env rid cid 422 ''validation_failed'' ''Request body contains invalid fields.'' False
       (map (\<lambda>f. detail (fe_Field f) (fe_Issue f)) fs) x"
| "handleCommerceError env rid cid ErrDuplicateOrder x =
     writeError env rid cid 409 ''duplicate_order''
       ''The external order ID has already been accepted for this merchant.'' False [] x"
| "handleCommerceError env rid cid (ErrInvalidStateTransition w) x =
     writeError env rid cid 409 ''invalid_state_transition''
       ''The requested state transition is not allowed.'' False [] x"
| "handleCommerceError env rid cid ErrNotFound x =
     writeError env rid cid 404 ''not_found'' ''Resource not found.'' False [] x"
| "handleCommerceError env rid cid err x =
     writeError env rid cid 500 ''internal_error'' ''Unexpected server error.'' True [] x"

definition route_not_found :: "env \<Rightarrow> string \<Rightarrow> string \<Rightarrow> ('s, 'l) hx \<Rightarrow> ('s, 'l) hx" where
  "route_not_found env rid cid x = writeError env rid cid 404 ''not_found'' ''Route not found.'' False [] x"

subsection \<open>Authentication\<close>

definition recordActor :: "actor \<Rightarrow> ('s, 'l) hx \<Rightarrow> ('s, 'l) hx" where
  "recordActor act x =
     (if ac_Ops act
      then x\<lparr>hx_actor := (hx_actor x)\<lparr>qs_ActorType := ''ops'', qs_ActorID := ac_ActorID act\<rparr>\<rparr>
      else x\<lparr>hx_actor := \<lparr>qs_ActorType = ''merchant'', qs_ActorID = ac_MerchantID act,
        qs_MerchantID = ac_MerchantID act\<rparr>\<rparr>)"

definition merchant_actor :: "string \<Rightarrow> actor" where
  "merchant_actor merchantID = \<lparr>ac_MerchantID = merchantID, ac_ActorID = [], ac_Ops = False\<rparr>"

definition ops_actor :: "string \<Rightarrow> actor" where
  "ops_actor subject = \<lparr>ac_MerchantID = [], ac_ActorID = subject, ac_Ops = True\<rparr>"

definition unauthorized :: "env \<Rightarrow> string \<Rightarrow> string \<Rightarrow> string \<Rightarrow> ('s, 'l) hx \<Rightarrow> ('s, 'l) hx" where
  "unauthorized env rid cid message x = writeError env rid cid 401 ''unauthorized'' message False [] x"

definition authenticateMerchant :: "('s, 'l) Server \<Rightarrow> env \<Rightarrow> http_request \<Rightarrow> string \<Rightarrow> string \<Rightarrow> ('s, 'l) hx
    \<Rightarrow> actor option \<times> ('s, 'l) hx" where
  "authenticateMerchant s env r rid cid x =
     (case mapget (srv_apiKeys s) (Header_Get r ''X-Api-Key'') of
        None \<Rightarrow> (None, unauthorized env rid cid ''Merchant API key is missing or invalid.'' x)
      | Some merchantID \<Rightarrow>
          let act = merchant_actor merchantID in (Some act, recordActor act x))"

definition authenticate :: "('s, 'l) Server \<Rightarrow> json_codec \<Rightarrow> env \<Rightarrow> http_request \<Rightarrow> string \<Rightarrow> string \<Rightarrow> ('s, 'l) hx
    \<Rightarrow> actor option \<times> ('s, 'l) hx" where
  "authenticate s codec env r rid cid x =
     (let apiKey = Header_Get r ''X-Api-Key''; token = bearerToken (Header_Get r ''Authorization'') in
      if apiKey \<noteq> [] then
        (case mapget (srv_apiKeys s) apiKey of
           None \<Rightarrow> (None, unauthorized env rid cid ''Merchant API key is missing or invalid.'' x)
         | Some merchantID \<Rightarrow> let act = merchant_actor merchantID in (Some act, recordActor act x))
      else if token \<noteq> [] then
        if srv_localOpsToken s \<and> srv_opsSecrets s = [] \<and> token = ''ops-token''
        then (let act = ops_actor ''local-ops'' in (Some act, recordActor act x))
        else
          (case validateOpsJWT (cd_jwt codec) token (srv_opsSecrets s) (srv_opsIssuer s) (srv_opsAudience s) (en_now env) of
             Some subject \<Rightarrow> let act = ops_actor subject in (Some act, recordActor act x)
           | None \<Rightarrow> (None, unauthorized env rid cid ''Operations token is missing or invalid.'' x))
      else (None, unauthorized env rid cid ''Authentication is required.'' x))"

definition authorizeMetrics :: "('s, 'l) Server \<Rightarrow> env \<Rightarrow> http_request \<Rightarrow> string \<Rightarrow> string \<Rightarrow> ('s, 'l) hx
    \<Rightarrow> bool \<times> ('s, 'l) hx" where
  "authorizeMetrics s env r rid cid x =
     (if srv_metricsToken s = [] then (True, x)
      else if bearerToken (Header_Get r ''Authorization'') = srv_metricsToken s
      then (True, x\<lparr>hx_actor := (hx_actor x)\<lparr>qs_ActorType := ''metrics'', qs_ActorID := ''prometheus''\<rparr>\<rparr>)
      else (False, unauthorized env rid cid ''Metrics bearer token is missing or invalid.'' x))"

definition allowWrite :: "('s, 'l) Server \<Rightarrow> env \<Rightarrow> string \<Rightarrow> string \<Rightarrow> string \<Rightarrow> ('s, 'l) hx \<Rightarrow> bool \<times> ('s, 'l) hx" where
  "allowWrite s env merchantID rid cid x =
     (case srv_limiter s of
        None \<Rightarrow> (True, x)
      | Some Allow \<Rightarrow>
        (case Allow (en_now env) (''merchant:'' @ merchantID @ '':write'') (hx_limiter x) of
           (Inl err, l) \<Rightarrow>
             (False, writeError env rid cid 503 ''dependency_unavailable'' ''Rate limiter is unavailable.'' True []
                (x\<lparr>hx_limiter := l\<rparr>))
         | (Inr allowed, l) \<Rightarrow>
             if \<not> allowed
             then (False, writeError env rid cid 429 ''rate_limited''
                     ''Too many order creation requests for this merchant.'' True [] (x\<lparr>hx_limiter := l\<rparr>))
             else (True, x\<lparr>hx_limiter := l\<rparr>)))"

definition decodeJSON :: "('s, 'l) Server \<Rightarrow> 'a json_decoder \<Rightarrow> env \<Rightarrow> http_request \<Rightarrow> string \<Rightarrow> string \<Rightarrow> ('s, 'l) hx
    \<Rightarrow> 'a option \<times> ('s, 'l) hx" where
  "decodeJSON s decode env r rid cid x =
     (case decode (srv_maxBodyBytes s) (rq_Body r) of
        (Inl MaxBytesError, _) \<Rightarrow>
          (None, writeError env rid cid 413 ''payload_too_large''
             ''Request body exceeds the maximum allowed size.'' False [] x)
      | (Inl OtherDecodeError, _) \<Rightarrow>
          (None, writeError env rid cid 400 ''invalid_json'' ''Request body is not valid JSON.'' False [] x)
      | (Inr dest, atEOF) \<Rightarrow>
          if \<not> atEOF
          then (None, writeError env rid cid 400 ''invalid_json'' ''Request body is not valid JSON.'' False [] x)
          else (Some dest, x))"

subsection \<open>Orders and shipments\<close>

definition meta_of :: "string \<Rightarrow> string \<Rightarrow> responseMeta" where
  "meta_of rid cid = \<lparr>rm_RequestID = rid, rm_CorrelationID = cid, rm_Timestamp = None\<rparr>"

definition forbidden :: "env \<Rightarrow> string \<Rightarrow> string \<Rightarrow> string \<Rightarrow> ('s, 'l) hx \<Rightarrow> ('s, 'l) hx" where
  "forbidden env rid cid message x = writeError env rid cid 403 ''forbidden'' message False [] x"

definition panic :: "('s, 'l) hx \<Rightarrow> ('s, 'l) hx" where
  "panic x = x\<lparr>hx_rec := (hx_rec x)\<lparr>rec_panicked := True\<rparr>\<rparr>"

definition Server_createOrder :: "('s, 'l) Server \<Rightarrow> json_codec \<Rightarrow> env \<Rightarrow> http_request \<Rightarrow> string \<Rightarrow> string
    \<Rightarrow> ('s, 'l) hx \<Rightarrow> ('s, 'l) hx" where
  "Server_createOrder s codec env r rid cid x =
     (case authenticateMerchant s env r rid cid x of
        (None, x) \<Rightarrow> x
      | (Some act, x) \<Rightarrow>
        (case allowWrite s env (ac_MerchantID act) rid cid x of
           (False, x) \<Rightarrow> x
         | (True, x) \<Rightarrow>
           (case decodeJSON s (cd_create codec) env r rid cid x of
              (None, x) \<Rightarrow> x
            | (Some req, x) \<Rightarrow>
              (case Service_CreateOrderContext (srv_store s) (en_draws env) (ac_MerchantID act)
                      (Header_Get r ''Idempotency-Key'') cid (toCommand req) (hx_service x) of
                 (Inl err, sv) \<Rightarrow> handleCommerceError env rid cid err (x\<lparr>hx_service := sv\<rparr>)
               | (Inr (None, replayed), sv) \<Rightarrow> panic (x\<lparr>hx_service := sv\<rparr>)
               | (Inr (Some order, replayed), sv) \<Rightarrow>
                 (let x = x\<lparr>hx_service := sv\<rparr>;
                      x = (if replayed then set_header ''X-Idempotent-Replay'' ''true'' x else x)
                  in writeJSON 202 (AcceptedBody (o_OrderID order) (o_MerchantID order) (o_Status order)
                       (o_CreatedAt order) (meta_of rid cid)) x)))))"

definition Server_getOrder :: "('s, 'l) Server \<Rightarrow> json_codec \<Rightarrow> env \<Rightarrow> http_request \<Rightarrow> string \<Rightarrow> string \<Rightarrow> string
    \<Rightarrow> ('s, 'l) hx \<Rightarrow> ('s, 'l) hx" where
  "Server_getOrder s codec env r orderID rid cid x =
     (case authenticate s codec env r rid cid x of
        (None, x) \<Rightarrow> x
      | (Some act, x) \<Rightarrow>
        (case Service_GetOrderContext (srv_store s) orderID (hx_service x) of
           Inl err \<Rightarrow> handleCommerceError env rid cid err x
         | Inr order \<Rightarrow>
           if \<not> ac_Ops act \<and> ac_MerchantID act \<noteq> o_MerchantID order
           then forbidden env rid cid ''The caller cannot access this order.'' x
           else writeJSON 200 (OrderBody order (meta_of rid cid)) x))"

definition Server_getShipment :: "('s, 'l) Server \<Rightarrow> json_codec \<Rightarrow> env \<Rightarrow> http_request \<Rightarrow> string \<Rightarrow> string \<Rightarrow> string
    \<Rightarrow> ('s, 'l) hx \<Rightarrow> ('s, 'l) hx" where
  "Server_getShipment s codec env r shipmentID rid cid x =
     (case authenticate s codec env r rid cid x of
        (None, x) \<Rightarrow> x
      | (Some act, x) \<Rightarrow>
        (case Service_GetShipmentContext (srv_store s) shipmentID (hx_service x) of
           Inl err \<Rightarrow> handleCommerceError env rid cid err x
         | Inr shipment \<Rightarrow>
           if \<not> ac_Ops act \<and> ac_MerchantID act \<noteq> sr_MerchantID shipment
           then forbidden env rid cid ''The caller cannot access this shipment.'' x
           else writeJSON 200 (ShipmentBody shipment (meta_of rid cid)) x))"

definition Server_cancelOrder :: "('s, 'l) Server \<Rightarrow> json_codec \<Rightarrow> env \<Rightarrow> http_request \<Rightarrow> string \<Rightarrow> string \<Rightarrow> string
    \<Rightarrow> ('s, 'l) hx \<Rightarrow> ('s, 'l) hx" where
  "Server_cancelOrder s codec env r orderID rid cid x =
     (case authenticate s codec env r rid cid x of
        (None, x) \<Rightarrow> x
      | (Some act, x) \<Rightarrow>
        (case decodeJSON s (cd_cancel codec) env r rid cid x of
           (None, x) \<Rightarrow> x
         | (Some req, x) \<Rightarrow>
           if TrimSpace (xr_Reason req) = [] \<or> TrimSpace (xr_Type req) = [] \<or> TrimSpace (xr_ID req) = []
           then writeError env rid cid 422 ''validation_failed'' ''Request body contains invalid fields.'' False
             [detail ''reason'' ''is required'', detail ''requested_by.type'' ''is required'',
              detail ''requested_by.id'' ''is required''] x
           else
             (case Service_GetOrderContext (srv_store s) orderID (hx_service x) of
                Inl err \<Rightarrow> handleCommerceError env rid cid err x
              | Inr order \<Rightarrow>
                if \<not> ac_Ops act \<and> ac_MerchantID act \<noteq> o_MerchantID order
                then forbidden env rid cid ''The caller cannot access this order.'' x
                else
                  (case Service_CancelOrderContext (srv_store s) (en_draws env) orderID cid
                          \<lparr>aa_Type = xr_Type req, aa_ID = xr_ID req, aa_Reason = xr_Reason req\<rparr> (hx_service x) of
                     (Inl err, sv) \<Rightarrow> handleCommerceError env rid cid err (x\<lparr>hx_service := sv\<rparr>)
                   | (Inr order, sv) \<Rightarrow>
                     writeJSON 202 (AcceptedBody (o_OrderID order) (o_MerchantID order) (o_Status order)
                       (o_UpdatedAt order) (meta_of rid cid)) (x\<lparr>hx_service := sv\<rparr>)))))"

subsection \<open>Routes\<close>

definition orderRouteMatch :: "string \<Rightarrow> (string \<times> string) option" where
  "orderRouteMatch path =
     (case CutPrefix path ''/api/v1/orders/'' of
        (rest, found) \<Rightarrow>
          if \<not> found \<or> rest = [] then None
          else (case Split rest (CHR ''/'') of
              [p] \<Rightarrow> if p = [] then None else Some (p, [])
            | [p, q] \<Rightarrow> if p = [] \<or> q \<noteq> ''cancel'' then None else Some (p, ''cancel'')
            | _ \<Rightarrow> None))"

definition shipmentRouteMatch :: "string \<Rightarrow> string option" where
  "shipmentRouteMatch path =
     (case CutPrefix path ''/api/v1/shipments/'' of
        (rest, found) \<Rightarrow>
          if \<not> found \<or> rest = [] then None else if CHR ''/'' \<in> set rest then None else Some rest)"

definition orderRoute :: "('s, 'l) Server \<Rightarrow> json_codec \<Rightarrow> env \<Rightarrow> http_request \<Rightarrow> string \<Rightarrow> string \<Rightarrow> string \<Rightarrow> string
    \<Rightarrow> ('s, 'l) hx \<Rightarrow> ('s, 'l) hx" where
  "orderRoute s codec env r orderID action rid cid x =
     (if action = ''cancel'' \<and> rq_Method r = ''POST'' then Server_cancelOrder s codec env r orderID rid cid x
      else if action = [] \<and> rq_Method r = ''GET'' then Server_getOrder s codec env r orderID rid cid x
      else route_not_found env rid cid x)"

subsection \<open>Readiness and metrics\<close>

text \<open>The checks run in the order of their names, each within a time-out that its answer reflects.\<close>

definition readiness_results :: "('s, 'l) Server \<Rightarrow> env \<Rightarrow> (string \<times> error option) list" where
  "readiness_results s env =
     map (\<lambda>name. (name, case mapget (srv_readiness s) name of Some check \<Rightarrow> check (en_now env) | None \<Rightarrow> None))
       (sort (map fst (srv_readiness s)))"

definition writeReadiness :: "('s, 'l) Server \<Rightarrow> env \<Rightarrow> string \<Rightarrow> string \<Rightarrow> ('s, 'l) hx \<Rightarrow> ('s, 'l) hx" where
  "writeReadiness s env rid cid x =
     (let results = readiness_results s env;
          checks = map (\<lambda>(name, err). (name, if err = None then ''up'' else ''down'')) results;
          details = concat (map (\<lambda>(name, err). case err of None \<Rightarrow> [] | Some e \<Rightarrow> [detail name (Error e)]) results)
      in if details \<noteq> []
         then writeError env rid cid 503 ''dependency_unavailable'' ''One or more readiness checks failed.'' True details x
         else writeJSON 200 (ReadyBody checks (en_now env)) x)"

definition prometheusLabelValue :: "string \<Rightarrow> string" where
  "prometheusLabelValue value =
     concat (map (\<lambda>c. if c = CHR 0x5C then [CHR 0x5C, CHR 0x5C]
                      else if c = CHR 0x0A then [CHR 0x5C, CHR ''n'']
                      else if c = CHR 0x22 then [CHR 0x5C, CHR 0x22] else [c]) value)"

definition metric_head :: "string \<Rightarrow> string \<Rightarrow> string \<Rightarrow> string list" where
  "metric_head name kind help =
     [''# HELP '' @ name @ '' '' @ help @ [CHR 0x0A], ''# TYPE '' @ name @ '' '' @ kind @ [CHR 0x0A]]"

definition metric_line :: "string \<Rightarrow> string \<Rightarrow> string" where
  "metric_line name value = name @ '' '' @ value @ [CHR 0x0A]"

definition label :: "string \<Rightarrow> string \<Rightarrow> string" where
  "label key value = ''{'' @ key @ ''='' @ [CHR 0x22] @ prometheusLabelValue value @ [CHR 0x22] @ ''}''"

definition outbox_lines :: "('s, 'l) Server \<Rightarrow> env \<Rightarrow> 's \<Rightarrow> string list" where
  "outbox_lines s env store =
     (case srv_outboxMetrics s of
        None \<Rightarrow> []
      | Some m \<Rightarrow>
        metric_head ''fulfillhub_outbox_metrics_up'' ''gauge'' ''Whether outbox metrics were collected successfully.'' @
        (case ob_PendingOutboxCount m store of
           Inl err \<Rightarrow> [metric_line ''fulfillhub_outbox_metrics_up'' ''0'']
         | Inr count \<Rightarrow>
           [metric_line ''fulfillhub_outbox_metrics_up'' ''1''] @
           metric_head ''fulfillhub_outbox_unpublished_total'' ''gauge'' ''Unpublished outbox events waiting for relay.'' @
           [metric_line ''fulfillhub_outbox_unpublished_total'' (FormatInt count)] @
           (case ob_OldestPendingOutboxAgeSeconds m (en_now env) store of
              Inl err \<Rightarrow> []
            | Inr age \<Rightarrow>
              metric_head ''fulfillhub_outbox_oldest_unpublished_age_seconds'' ''gauge''
                ''Age in seconds of the oldest unpublished outbox event.'' @
              [metric_line ''fulfillhub_outbox_oldest_unpublished_age_seconds'' age])))"

definition saga_lines :: "('s, 'l) Server \<Rightarrow> 's \<Rightarrow> string list" where
  "saga_lines s store =
     (case srv_sagaMetrics s of
        None \<Rightarrow> []
      | Some counts_of \<Rightarrow>
        metric_head ''fulfillhub_order_status_metrics_up'' ''gauge''
          ''Whether order status metrics were collected successfully.'' @
        (case counts_of store of
           Inl err \<Rightarrow> [metric_line ''fulfillhub_order_status_metrics_up'' ''0'']
         | Inr counts \<Rightarrow>
           [metric_line ''fulfillhub_order_status_metrics_up'' ''1''] @
           metric_head ''fulfillhub_orders_total'' ''gauge'' ''Orders grouped by lifecycle status.'' @
           map (\<lambda>status. metric_line (''fulfillhub_orders_total'' @ label ''status'' status)
             (FormatInt (case mapget counts status of Some n \<Rightarrow> int n | None \<Rightarrow> 0))) ValidOrderStatuses))"

definition queue_lines :: "('s, 'l) Server \<Rightarrow> env \<Rightarrow> string list" where
  "queue_lines s env =
     (case srv_queueMetrics s of
        None \<Rightarrow> []
      | Some depths_at \<Rightarrow>
        metric_head ''fulfillhub_rabbitmq_queue_metrics_up'' ''gauge''
          ''Whether RabbitMQ queue metrics were collected successfully.'' @
        (case depths_at (en_now env) of
           Inl err \<Rightarrow> [metric_line ''fulfillhub_rabbitmq_queue_metrics_up'' ''0'']
         | Inr depths \<Rightarrow>
           [metric_line ''fulfillhub_rabbitmq_queue_metrics_up'' ''1''] @
           metric_head ''fulfillhub_rabbitmq_queue_messages_ready'' ''gauge''
             ''Ready messages reported by RabbitMQ queue inspection.'' @
           map (\<lambda>d. metric_line (''fulfillhub_rabbitmq_queue_messages_ready'' @ label ''queue'' (qd_Queue d))
             (FormatInt (qd_MessagesReady d))) depths @
           metric_head ''fulfillhub_rabbitmq_queue_consumers'' ''gauge''
             ''Consumers reported by RabbitMQ queue inspection.'' @
           map (\<lambda>d. metric_line (''fulfillhub_rabbitmq_queue_consumers'' @ label ''queue'' (qd_Queue d))
             (FormatInt (qd_Consumers d))) depths))"

definition write_text :: "string \<Rightarrow> ('s, 'l) hx \<Rightarrow> ('s, 'l) hx" where
  "write_text line x = x\<lparr>hx_rec := statusRecorder_Write (TextBody line) (hx_rec x)\<rparr>"

definition writeMetrics :: "('s, 'l) Server \<Rightarrow> env \<Rightarrow> ('s, 'l) hx \<Rightarrow> ('s, 'l) hx" where
  "writeMetrics s env x =
     fold write_text
       (metric_head ''fulfillhub_http_requests_total'' ''counter'' ''Total HTTP requests handled.'' @
        [metric_line ''fulfillhub_http_requests_total'' (FormatInt (uint (hx_requests x)))] @
        metric_head ''fulfillhub_http_errors_total'' ''counter'' ''Total HTTP error responses returned.'' @
        [metric_line ''fulfillhub_http_errors_total'' (FormatInt (uint (hx_errors x)))] @
        outbox_lines s env (sv_store (hx_service x)) @ saga_lines s (sv_store (hx_service x)) @ queue_lines s env)
       (set_header ''Content-Type'' ''text/plain; version=0.0.4'' x)"

subsection \<open>The handler\<close>

definition headerOrNew :: "string \<Rightarrow> string \<Rightarrow> 64 word \<Rightarrow> string" where
  "headerOrNew value prefix n =
     (if TrimSpace value \<noteq> [] then value else prefix @ ''_'' @ pad_int 12 (unat n))"

definition headerOrDefault :: "string \<Rightarrow> string \<Rightarrow> string" where
  "headerOrDefault value fallback = (if TrimSpace value \<noteq> [] then value else fallback)"

definition dispatch :: "('s, 'l) Server \<Rightarrow> json_codec \<Rightarrow> env \<Rightarrow> http_request \<Rightarrow> string \<Rightarrow> string
    \<Rightarrow> ('s, 'l) hx \<Rightarrow> ('s, 'l) hx" where
  "dispatch s codec env r rid cid x =
     (if rq_Method r = ''GET'' \<and> rq_Path r = ''/healthz'' then writeJSON 200 (HealthBody (en_now env)) x
      else if rq_Method r = ''GET'' \<and> rq_Path r = ''/readyz'' then writeReadiness s env rid cid x
      else if rq_Method r = ''GET'' \<and> rq_Path r = ''/metrics'' then
        (case authorizeMetrics s env r rid cid x of (False, x) \<Rightarrow> x | (True, x) \<Rightarrow> writeMetrics s env x)
      else if rq_Method r = ''POST'' \<and> rq_Path r = ''/api/v1/orders'' then Server_createOrder s codec env r rid cid x
      else if HasPrefix (rq_Path r) ''/api/v1/orders/'' then
        (case orderRouteMatch (rq_Path r) of
           None \<Rightarrow> route_not_found env rid cid x
         | Some (orderID, action) \<Rightarrow> orderRoute s codec env r orderID action rid cid x)
      else if rq_Method r = ''GET'' \<and> HasPrefix (rq_Path r) ''/api/v1/shipments/'' then
        (case shipmentRouteMatch (rq_Path r) of
           None \<Rightarrow> route_not_found env rid cid x
         | Some shipmentID \<Rightarrow> Server_getShipment s codec env r shipmentID rid cid x)
      else route_not_found env rid cid x)"

definition fresh_recorder :: statusRecorder where
  "fresh_recorder = \<lparr>rec_Header = [], rec_status = 0, rec_bodies = [], rec_panicked = False\<rparr>"

definition ServeHTTP :: "('s, 'l) Server \<Rightarrow> json_codec \<Rightarrow> env \<Rightarrow> http_request \<Rightarrow> ('s, 'l) hx \<Rightarrow> ('s, 'l) hx" where
  "ServeHTTP s codec env r x =
     (let x = x\<lparr>hx_requests := hx_requests x + 1, hx_counter := hx_counter x + 1,
                hx_actor := \<lparr>qs_ActorType = [], qs_ActorID = [], qs_MerchantID = []\<rparr>, hx_rec := fresh_recorder\<rparr>;
          requestID = headerOrNew (Header_Get r ''X-Request-Id'') ''req'' (hx_counter x);
          correlationID = headerOrDefault (Header_Get r ''X-Correlation-Id'') requestID;
          x = set_header ''X-Request-Id'' requestID x;
          x = set_header ''X-Correlation-Id'' correlationID x
      in dispatch s codec env r requestID correlationID x)"

end
