(* ===== verification/Rate_Limit.thy ===== *)
theory Rate_Limit
  imports Order_Model
begin

text \<open>
  The rate limiters of \<open>internal/ratelimit\<close>: \<open>MemoryLimiter\<close> and \<open>RedisLimiter\<close>. Both count
  the requests of a key in a fixed window that starts with the first request. The clock is
  an argument. Counters are unbounded here: reaching 2^63 takes more requests than a window
  can hold.
\<close>

subsection \<open>In memory\<close>

record bucket =
  bk_count :: int
  bk_reset :: time

record MemoryLimiter =
  lm_limit :: int
  lm_window :: duration
  lm_buckets :: "bucket gomap"

definition NewMemoryLimiter :: "int \<Rightarrow> duration \<Rightarrow> MemoryLimiter" where
  "NewMemoryLimiter limit window = \<lparr>lm_limit = limit, lm_window = window, lm_buckets = []\<rparr>"

definition MemoryLimiter_Allow :: "time \<Rightarrow> string \<Rightarrow> (MemoryLimiter, error, bool) op" where
  "MemoryLimiter_Allow now key l =
     (let current = (case mapget (lm_buckets l) key of Some b \<Rightarrow> b | None \<Rightarrow> \<lparr>bk_count = 0, bk_reset = 0\<rparr>);
          current = (if IsZero (bk_reset current) \<or> \<not> now < bk_reset current
                     then \<lparr>bk_count = 0, bk_reset = now + lm_window l\<rparr> else current);
          current = current\<lparr>bk_count := bk_count current + 1\<rparr>
      in (Inr (bk_count current \<le> lm_limit l), l\<lparr>lm_buckets := mapset key current (lm_buckets l)\<rparr>))"

subsection \<open>In Redis\<close>

text \<open>
  The Redis server is outside the repository: its commands \<open>INCR\<close> and \<open>PEXPIRE\<close> at a given
  server time are parameters. A script runs as one step of the server.
\<close>

record 'r redis =
  rd_INCR :: "time \<Rightarrow> string \<Rightarrow> ('r, error, int) op"
  rd_PEXPIRE :: "time \<Rightarrow> string \<Rightarrow> int \<Rightarrow> ('r, error, unit) op"

definition redisLimiterScript :: "'r redis \<Rightarrow> time \<Rightarrow> string \<Rightarrow> int \<Rightarrow> ('r, error, int) op" where
  "redisLimiterScript srv now key ttl r =
     (case rd_INCR srv now key r of
        (Inl err, r) \<Rightarrow> (Inl err, r)
      | (Inr current, r) \<Rightarrow>
          if current = 1 then
            (case rd_PEXPIRE srv now key ttl r of
               (Inl err, r) \<Rightarrow> (Inl err, r)
             | (Inr _, r) \<Rightarrow> (Inr current, r))
          else (Inr current, r))"

text \<open>\<open>Duration.Milliseconds\<close>: integer division, truncating.\<close>

definition Milliseconds :: "duration \<Rightarrow> int" where
  "Milliseconds d = (if 0 \<le> d then d div 1000000 else - (- d div 1000000))"

definition redis_key :: "string \<Rightarrow> string" where
  "redis_key key = ''rate_limit:'' @ key"

lemma redis_key_inject [simp]: "redis_key key = redis_key key' \<longleftrightarrow> key = key'"
  by (simp add: redis_key_def)

record RedisLimiter =
  rl_limit :: int
  rl_window :: duration

definition RedisLimiter_Allow :: "RedisLimiter \<Rightarrow> 'r redis \<Rightarrow> time \<Rightarrow> string \<Rightarrow> ('r, error, bool) op" where
  "RedisLimiter_Allow l srv now key r =
     (if rl_window l \<le> 0 then (Inl (ErrorString ''rate limit window must be positive''), r)
      else
        (case redisLimiterScript srv now (redis_key key) (Milliseconds (rl_window l)) r of
           (Inl err, r) \<Rightarrow> (Inl (wrap_error ''increment rate limit'' err), r)
         | (Inr count, r) \<Rightarrow> (Inr (count \<le> rl_limit l), r)))"

subsection \<open>The contract of a fixed-window limiter\<close>

text \<open>
  \<open>count s key now\<close> is the number of requests of the key in its window at \<open>now\<close> (0 when it
  has none running) and \<open>until s key\<close> the end of that window.
\<close>

locale fixed_window =
  fixes allow :: "time \<Rightarrow> string \<Rightarrow> ('s, error, bool) op" and inv :: "'s \<Rightarrow> bool"
    and count :: "'s \<Rightarrow> string \<Rightarrow> time \<Rightarrow> int" and until :: "'s \<Rightarrow> string \<Rightarrow> time"
    and limit :: int and window :: duration
  assumes allow_ok: "inv s \<Longrightarrow> 0 \<le> now \<Longrightarrow> allow now key s = (r, s') \<Longrightarrow>
      inv s' \<and> r = Inr (count s key now + 1 \<le> limit)"
    and allow_count: "inv s \<Longrightarrow> 0 \<le> now \<Longrightarrow> allow now key s = (r, s') \<Longrightarrow>
      until s' key = (if count s key now = 0 then now + window else until s key) \<and>
      (\<forall>t\<ge>now. t < until s' key \<longrightarrow> count s' key t = count s key now + 1)"
    and allow_other: "inv s \<Longrightarrow> 0 \<le> now \<Longrightarrow> allow now key s = (r, s') \<Longrightarrow> key' \<noteq> key \<Longrightarrow>
      until s' key' = until s key' \<and> count s' key' t = count s key' t"
    and count_nonneg: "inv s \<Longrightarrow> 0 \<le> count s key t"

text \<open>The answers to a sequence of requests, each a time and a key.\<close>

fun answers :: "(time \<Rightarrow> string \<Rightarrow> ('s, error, bool) op) \<Rightarrow> (time \<times> string) list \<Rightarrow> 's \<Rightarrow> (error + bool) list" where
  "answers allow [] s = []"
| "answers allow ((now, key) # reqs) s = (case allow now key s of (r, s') \<Rightarrow> r # answers allow reqs s')"

definition granted :: "string \<Rightarrow> (time \<times> string) list \<Rightarrow> (error + bool) list \<Rightarrow> bool list" where
  "granted key reqs rs = map (\<lambda>(_, r). r = Inr True) (filter (\<lambda>((_, k), _). k = key) (zip reqs rs))"

context fixed_window
begin

lemma window_answers:
  assumes "inv s" "\<forall>(t, k)\<in>set reqs. 0 \<le> t" "sorted (map fst reqs)"
    and "\<forall>(t, k)\<in>set reqs. k = key \<longrightarrow> t < T"
    and "\<forall>(t, k)\<in>set reqs. t < T \<longrightarrow> count s key t = c" "T = until s key" "0 < c"
  shows "granted key reqs (answers allow reqs s) =
    map (\<lambda>i. c + int i + 1 \<le> limit) [0..<length (filter (\<lambda>(t, k). k = key) reqs)]"
  using assms
proof (induction reqs arbitrary: s c)
  case (Cons q reqs)
  obtain now k where q: "q = (now, k)" by fastforce
  obtain r s' where a: "allow now k s = (r, s')" by fastforce
  have ok: "inv s'" "r = Inr (count s k now + 1 \<le> limit)" and pos: "0 \<le> now"
    using allow_ok [OF Cons.prems(1) _ a] Cons.prems(2) q by auto
  have later: "\<forall>(t, k)\<in>set reqs. 0 \<le> t" "sorted (map fst reqs)" "\<forall>(t, k)\<in>set reqs. now \<le> t"
    "\<forall>(t, k)\<in>set reqs. k = key \<longrightarrow> t < T" using Cons.prems(2-4) q by auto
  show ?case
  proof (cases "k = key")
    case True
    have c: "count s key now = c" "now < T" using Cons.prems(4,5) q True by auto
    have u: "until s' key = T" "\<forall>(t, k)\<in>set reqs. t < T \<longrightarrow> count s' key t = c + 1"
      using allow_count [OF Cons.prems(1) pos a] True c Cons.prems(6,7) later(3) by auto
    have "granted key reqs (answers allow reqs s') =
        map (\<lambda>i. c + 1 + int i + 1 \<le> limit) [0..<length (filter (\<lambda>(t, k). k = key) reqs)]"
      using Cons.IH [OF ok(1) later(1,2,4) u(2)] u(1) Cons.prems(7) by simp
    moreover have "granted key (q # reqs) (answers allow (q # reqs) s) =
        (c + 1 \<le> limit) # granted key reqs (answers allow reqs s')"
      using a q True ok(2) c by (simp add: granted_def)
    ultimately show ?thesis using q True
      by (simp add: upt_conv_Cons map_Suc_upt [symmetric] add_ac del: upt_Suc)
  next
    case False
    have o: "until s' key = until s key" "\<And>t. count s' key t = count s key t"
      using allow_other [OF Cons.prems(1) pos a, of key] False by auto
    have "granted key (q # reqs) (answers allow (q # reqs) s) = granted key reqs (answers allow reqs s')"
      using a q False by (simp add: granted_def)
    moreover have "\<forall>(t, k)\<in>set reqs. t < T \<longrightarrow> count s' key t = c" using Cons.prems(5) o(2) by auto
    ultimately show ?thesis using Cons.IH [OF ok(1) later(1,2,4)] o(1) Cons.prems(6,7) q False by simp
  qed
qed (simp add: granted_def)

lemma fresh_window_answers:
  assumes "inv s" "0 \<le> t0" "sorted (t0 # map fst reqs)" "count s key t0 = 0"
    and "\<forall>(t, k)\<in>set reqs. k = key \<longrightarrow> t < t0 + window" "0 \<le> limit"
  shows "granted key ((t0, key) # reqs) (answers allow ((t0, key) # reqs) s) =
    map (\<lambda>i. int i < limit) [0..<Suc (length (filter (\<lambda>(t, k). k = key) reqs))]"
proof -
  obtain r s' where a: "allow t0 key s = (r, s')" by fastforce
  have ok: "inv s'" "r = Inr (0 < limit)" using allow_ok [OF assms(1,2) a] assms(4) by auto
  have u: "until s' key = t0 + window" "\<forall>(t, k)\<in>set reqs. t < t0 + window \<longrightarrow> count s' key t = 1"
    using allow_count [OF assms(1,2) a] assms(3,4) by auto
  have "granted key reqs (answers allow reqs s') =
      map (\<lambda>i. 1 + int i + 1 \<le> limit) [0..<length (filter (\<lambda>(t, k). k = key) reqs)]"
    using assms(2,3) by (intro window_answers [OF ok(1) _ _ assms(5) u(2) u(1) [symmetric]]) auto
  moreover have "granted key ((t0, key) # reqs) (answers allow ((t0, key) # reqs) s) =
      (0 < limit) # granted key reqs (answers allow reqs s')"
    using a ok(2) by (simp add: granted_def)
  ultimately show ?thesis
    by (simp add: upt_conv_Cons map_Suc_upt [symmetric] comp_def del: upt_Suc) (auto simp: algebra_simps)
qed

end

subsection \<open>The limiters keep the contract\<close>

definition bucket_live :: "bucket \<Rightarrow> time \<Rightarrow> bool" where
  "bucket_live b now \<longleftrightarrow> bk_reset b \<noteq> 0 \<and> now < bk_reset b"

definition ml_inv :: "int \<Rightarrow> duration \<Rightarrow> MemoryLimiter \<Rightarrow> bool" where
  "ml_inv limit window l \<longleftrightarrow> lm_limit l = limit \<and> lm_window l = window \<and> 0 < window \<and>
     (\<forall>k b. mapget (lm_buckets l) k = Some b \<longrightarrow> 1 \<le> bk_count b)"

definition ml_count :: "MemoryLimiter \<Rightarrow> string \<Rightarrow> time \<Rightarrow> int" where
  "ml_count l key now = (case mapget (lm_buckets l) key of
     Some b \<Rightarrow> if bucket_live b now then bk_count b else 0 | None \<Rightarrow> 0)"

definition ml_until :: "MemoryLimiter \<Rightarrow> string \<Rightarrow> time" where
  "ml_until l key = (case mapget (lm_buckets l) key of Some b \<Rightarrow> bk_reset b | None \<Rightarrow> 0)"

lemma MemoryLimiter_Allow_effect:
  fixes key :: string and now :: time
  assumes "ml_inv limit window l"
  defines "c \<equiv> ml_count l key now"
  shows "MemoryLimiter_Allow now key l = (Inr (c + 1 \<le> limit), l\<lparr>lm_buckets := mapset key
    \<lparr>bk_count = c + 1, bk_reset = (if c = 0 then now + window else ml_until l key)\<rparr> (lm_buckets l)\<rparr>)"
proof (cases "mapget (lm_buckets l) key")
  case None
  then show ?thesis using assms by (simp add: MemoryLimiter_Allow_def ml_inv_def ml_count_def)
next
  case (Some b)
  then have "1 \<le> bk_count b" using assms(1) by (auto simp: ml_inv_def)
  with Some assms show ?thesis
    by (cases b) (auto simp: MemoryLimiter_Allow_def ml_inv_def ml_count_def ml_until_def bucket_live_def)
qed

lemma ml_count_nonneg: "ml_inv limit window l \<Longrightarrow> 0 \<le> ml_count l key now"
  by (fastforce simp: ml_count_def ml_inv_def split: option.splits)

lemma ml_count_live: "ml_count l key now \<noteq> 0 \<Longrightarrow> ml_until l key \<noteq> 0 \<and> now < ml_until l key"
  by (auto simp: ml_count_def ml_until_def bucket_live_def split: option.splits if_splits)

lemma ml_set:
  "ml_until (l\<lparr>lm_buckets := mapset k b (lm_buckets l)\<rparr>) k' = (if k = k' then bk_reset b else ml_until l k')"
  "ml_count (l\<lparr>lm_buckets := mapset k b (lm_buckets l)\<rparr>) k' t =
     (if k = k' then if bucket_live b t then bk_count b else 0 else ml_count l k' t)"
  by (simp_all add: ml_until_def ml_count_def)

interpretation ml: fixed_window MemoryLimiter_Allow "ml_inv limit window" ml_count ml_until limit window
proof
  fix l now key r l' key' t
  assume inv: "ml_inv limit window l" and pos: "0 \<le> (now :: time)" and run: "MemoryLimiter_Allow now key l = (r, l')"
  note eff = MemoryLimiter_Allow_effect [OF inv, where now = now and key = key, unfolded run prod.inject]
  note c = ml_count_nonneg [OF inv, of key now] and live = ml_count_live [of l key now]
  show "ml_inv limit window l' \<and> r = Inr (ml_count l key now + 1 \<le> limit)"
    using inv eff c by (auto simp: ml_inv_def)
  show "ml_until l' key = (if ml_count l key now = 0 then now + window else ml_until l key) \<and>
      (\<forall>t\<ge>now. t < ml_until l' key \<longrightarrow> ml_count l' key t = ml_count l key now + 1)"
    using inv eff live pos
    by (auto simp: ml_inv_def ml_set bucket_live_def)
  show "ml_until l' key' = ml_until l key' \<and> ml_count l' key' t = ml_count l key' t" if "key' \<noteq> key"
    using eff that by (simp add: ml_set)
qed (rule ml_count_nonneg)

text \<open>
  What the limiter relies on of the server (commands \<open>INCR\<close> and \<open>PEXPIRE\<close> of the Redis
  manual): \<open>val\<close> and \<open>ttl\<close> are the stored value and the expiry of a key; an expired or
  missing key counts as 0; \<open>INCR\<close> keeps the expiry of a key that has not expired.
\<close>

definition redis_value :: "('r \<Rightarrow> string \<Rightarrow> int) \<Rightarrow> ('r \<Rightarrow> string \<Rightarrow> time option) \<Rightarrow> 'r \<Rightarrow> string \<Rightarrow> time \<Rightarrow> int" where
  "redis_value val ttl r key now =
     (case ttl r key of Some e \<Rightarrow> if e \<le> now then 0 else val r key | None \<Rightarrow> val r key)"

definition redis_contract :: "'r redis \<Rightarrow> ('r \<Rightarrow> string \<Rightarrow> int) \<Rightarrow> ('r \<Rightarrow> string \<Rightarrow> time option) \<Rightarrow> bool" where
  "redis_contract srv val ttl \<longleftrightarrow>
     (\<forall>now key r. \<exists>r'. rd_INCR srv now key r = (Inr (redis_value val ttl r key now + 1), r') \<and>
        val r' = (val r)(key := redis_value val ttl r key now + 1) \<and>
        ttl r' = (ttl r)(key := (case ttl r key of Some e \<Rightarrow> if e \<le> now then None else Some e | None \<Rightarrow> None))) \<and>
     (\<forall>now key ms r. 0 < ms \<longrightarrow> (\<exists>r'. rd_PEXPIRE srv now key ms r = (Inr (), r') \<and>
        val r' = val r \<and> ttl r' = (ttl r)(key := Some (now + ms * 1000000))))"

definition rl_inv :: "('r \<Rightarrow> string \<Rightarrow> int) \<Rightarrow> ('r \<Rightarrow> string \<Rightarrow> time option) \<Rightarrow> 'r \<Rightarrow> bool" where
  "rl_inv val ttl r \<longleftrightarrow> (\<forall>key. 0 \<le> val r key \<and> (val r key \<noteq> 0 \<longrightarrow> ttl r key \<noteq> None))"

definition rl_until :: "('r \<Rightarrow> string \<Rightarrow> time option) \<Rightarrow> 'r \<Rightarrow> string \<Rightarrow> time" where
  "rl_until ttl r key = (case ttl r (redis_key key) of Some e \<Rightarrow> e | None \<Rightarrow> 0)"

lemma RedisLimiter_Allow_effect:
  fixes key :: string and now :: time
  assumes "redis_contract srv val ttl" "1000000 \<le> rl_window l" "rl_inv val ttl r"
  defines "K \<equiv> redis_key key" and "c \<equiv> redis_value val ttl r (redis_key key) now"
  shows "\<exists>r'. RedisLimiter_Allow l srv now key r = (Inr (c + 1 \<le> rl_limit l), r') \<and>
    val r' = (val r)(K := c + 1) \<and>
    ttl r' = (ttl r)(K := if c = 0 then Some (now + Milliseconds (rl_window l) * 1000000) else ttl r K)"
proof -
  have ms: "0 < Milliseconds (rl_window l)" using assms(2) by (simp add: Milliseconds_def)
  from assms(1) obtain r1 where incr: "rd_INCR srv now K r = (Inr (c + 1), r1)" "val r1 = (val r)(K := c + 1)"
    "ttl r1 = (ttl r)(K := (case ttl r K of Some e \<Rightarrow> if e \<le> now then None else Some e | None \<Rightarrow> None))"
    unfolding redis_contract_def c_def K_def by blast
  show ?thesis
  proof (cases "c = 0")
    case True
    from assms(1) ms obtain r2 where "rd_PEXPIRE srv now K (Milliseconds (rl_window l)) r1 = (Inr (), r2)"
      "val r2 = val r1" "ttl r2 = (ttl r1)(K := Some (now + Milliseconds (rl_window l) * 1000000))"
      unfolding redis_contract_def by blast
    then show ?thesis using True incr assms(2)
      by (simp add: RedisLimiter_Allow_def redisLimiterScript_def K_def)
  next
    case False
    then obtain e where "ttl r K = Some e" "now < e"
      using assms(3) by (auto simp: c_def redis_value_def rl_inv_def K_def split: option.splits if_splits)
    then show ?thesis using False incr assms(2)
      by (simp add: RedisLimiter_Allow_def redisLimiterScript_def K_def)
  qed
qed

lemma redis_fixed_window:
  assumes "redis_contract srv val ttl" "1000000 \<le> rl_window l"
  shows "fixed_window (RedisLimiter_Allow l srv) (rl_inv val ttl)
    (\<lambda>r key. redis_value val ttl r (redis_key key)) (rl_until ttl) (rl_limit l)
    (Milliseconds (rl_window l) * 1000000)"
proof
  fix s now key r s' key' t
  assume inv: "rl_inv val ttl s" and pos: "0 \<le> (now :: time)" and run: "RedisLimiter_Allow l srv now key s = (r, s')"
  have ms: "0 < Milliseconds (rl_window l)" using assms(2) by (simp add: Milliseconds_def)
  let ?K = "redis_key key" and ?c = "redis_value val ttl s (redis_key key) now"
  have eff: "r = Inr (?c + 1 \<le> rl_limit l)" "val s' = (val s)(?K := ?c + 1)"
    "ttl s' = (ttl s)(?K := if ?c = 0 then Some (now + Milliseconds (rl_window l) * 1000000) else ttl s ?K)"
    using RedisLimiter_Allow_effect [OF assms inv, where key = key and now = now] run by auto
  have c: "0 \<le> ?c" using inv by (auto simp: redis_value_def rl_inv_def split: option.splits)
  have live: "?c \<noteq> 0 \<Longrightarrow> \<exists>e. ttl s ?K = Some e \<and> now < e"
    using inv by (auto simp: redis_value_def rl_inv_def split: option.splits if_splits)
  show "rl_inv val ttl s' \<and> r = Inr (?c + 1 \<le> rl_limit l)"
    using inv eff c live by (auto simp: rl_inv_def)
  show "rl_until ttl s' key = (if ?c = 0 then now + Milliseconds (rl_window l) * 1000000 else rl_until ttl s key) \<and>
      (\<forall>t\<ge>now. t < rl_until ttl s' key \<longrightarrow> redis_value val ttl s' ?K t = ?c + 1)"
    using eff live by (auto simp: rl_until_def redis_value_def [of val ttl s'])
  show "rl_until ttl s' key' = rl_until ttl s key' \<and>
      redis_value val ttl s' (redis_key key') t = redis_value val ttl s (redis_key key') t"
    if "key' \<noteq> key"
  proof -
    have "val s' (redis_key key') = val s (redis_key key')" "ttl s' (redis_key key') = ttl s (redis_key key')"
      using eff(2,3) that by auto
    then show ?thesis by (simp add: rl_until_def redis_value_def split: option.split)
  qed
next
  fix s key t
  show "rl_inv val ttl s \<Longrightarrow> 0 \<le> redis_value val ttl s (redis_key key) t"
    by (auto simp: redis_value_def rl_inv_def split: option.splits)
qed

subsection \<open>Properties\<close>

text \<open>
  C21. The in-memory limiter grants exactly the first \<open>limit\<close> requests of a window: when a key
  has no window running, the requests of that key in the window opened by the next one are
  granted up to the limit and refused after it, whatever requests of other keys come in
  between.
\<close>

theorem memory_limiter_window:
  assumes "ml_inv limit window l" "0 \<le> t0" "sorted (t0 # map fst reqs)" "ml_count l key t0 = 0"
    and "\<forall>(t, k)\<in>set reqs. k = key \<longrightarrow> t < t0 + window" "0 \<le> limit"
  shows "granted key ((t0, key) # reqs) (answers MemoryLimiter_Allow ((t0, key) # reqs) l) =
    map (\<lambda>i. int i < limit) [0..<Suc (length (filter (\<lambda>(t, k). k = key) reqs))]"
  by (fact ml.fresh_window_answers [OF assms])

theorem memory_limiter_window_witness:
  "granted ''a'' ((1, ''a'') # [(2, ''b''), (3, ''a''), (5, ''a'')])
     (answers MemoryLimiter_Allow ((1, ''a'') # [(2, ''b''), (3, ''a''), (5, ''a'')]) (NewMemoryLimiter 2 60)) =
   [True, True, False]"
  using memory_limiter_window [of 2 60 "NewMemoryLimiter 2 60" 1 "[(2, ''b''), (3, ''a''), (5, ''a'')]" "''a''"]
  by (simp add: ml_inv_def ml_count_def NewMemoryLimiter_def)

text \<open>
  C34. The Redis limiter does the same, over any server whose \<open>INCR\<close> and \<open>PEXPIRE\<close> behave as
  documented, with the window truncated to whole milliseconds; a window below one
  millisecond is excluded, since it becomes an expiry of 0.
\<close>

theorem redis_limiter_window:
  assumes "redis_contract srv val ttl" "1000000 \<le> rl_window l"
    and "rl_inv val ttl r" "0 \<le> t0" "sorted (t0 # map fst reqs)"
    and "redis_value val ttl r (redis_key key) t0 = 0"
    and "\<forall>(t, k)\<in>set reqs. k = key \<longrightarrow> t < t0 + Milliseconds (rl_window l) * 1000000" "0 \<le> rl_limit l"
  shows "granted key ((t0, key) # reqs) (answers (RedisLimiter_Allow l srv) ((t0, key) # reqs) r) =
    map (\<lambda>i. int i < rl_limit l) [0..<Suc (length (filter (\<lambda>(t, k). k = key) reqs))]"
  by (fact fixed_window.fresh_window_answers [OF redis_fixed_window [OF assms(1,2)] assms(3-8)])

text \<open>A server as a pair of functions.\<close>

definition sample_redis :: "((string \<Rightarrow> int) \<times> (string \<Rightarrow> time option)) redis" where
  "sample_redis = \<lparr>
     rd_INCR = (\<lambda>now key r.
       let v = redis_value fst snd r key now
       in (Inr (v + 1), (fst r)(key := v + 1),
           (snd r)(key := (case snd r key of Some e \<Rightarrow> if e \<le> now then None else Some e | None \<Rightarrow> None)))),
     rd_PEXPIRE = (\<lambda>now key ms r. (Inr (), fst r, (snd r)(key := Some (now + ms * 1000000))))\<rparr>"

lemma sample_redis_contract: "redis_contract sample_redis fst snd"
  by (simp add: redis_contract_def sample_redis_def Let_def)

theorem redis_limiter_window_witness:
  "granted ''a'' ((1, ''a'') # [(2, ''b''), (3, ''a''), (5, ''a'')])
     (answers (RedisLimiter_Allow \<lparr>rl_limit = 2, rl_window = Minute\<rparr> sample_redis)
       ((1, ''a'') # [(2, ''b''), (3, ''a''), (5, ''a'')]) (\<lambda>_. 0, \<lambda>_. None)) = [True, True, False]"
  using redis_limiter_window [OF sample_redis_contract, of "\<lparr>rl_limit = 2, rl_window = Minute\<rparr>"
      "(\<lambda>_. 0, \<lambda>_. None)" 1 "[(2, ''b''), (3, ''a''), (5, ''a'')]" "''a''"]
  by (simp add: rl_inv_def redis_value_def Milliseconds_def)

end
