(* ===== verification/Api_Behaviour.thy ===== *)
theory Api_Behaviour
  imports Http_Api Rate_Limit
begin

text \<open>
  What the HTTP server guarantees: every request is answered once in the documented envelope,
  a merchant sees and changes only its own orders, requests without a credential change
  nothing, and the routes and tokens are recognised exactly.
\<close>

subsection \<open>Answers\<close>

text \<open>The statuses and codes of the error envelope.\<close>

definition error_table :: "(int \<times> string) list" where
  "error_table = [(401, ''unauthorized''), (403, ''forbidden''), (404, ''not_found''),
     (409, ''duplicate_order''), (409, ''invalid_state_transition''), (422, ''validation_failed''),
     (429, ''rate_limited''), (503, ''dependency_unavailable''), (400, ''invalid_json''),
     (413, ''payload_too_large''), (500, ''internal_error'')]"

definition is_error :: "http_body \<Rightarrow> bool" where
  "is_error b = (case b of ErrorBody _ _ \<Rightarrow> True | _ \<Rightarrow> False)"

lemma is_error_simps [simp]:
  "is_error (ErrorBody eo m)" "\<not> is_error (AcceptedBody a b c d m)" "\<not> is_error (OrderBody ord m)"
  "\<not> is_error (ShipmentBody sh m)" "\<not> is_error (HealthBody t)" "\<not> is_error (ReadyBody cs t)"
  "\<not> is_error (TextBody txt)"
  by (simp_all add: is_error_def)

definition blank :: "64 word \<Rightarrow> ('s, 'l) hx \<Rightarrow> bool" where
  "blank n x \<longleftrightarrow> hx_errors x = n \<and> rec_status (hx_rec x) = 0 \<and> rec_bodies (hx_rec x) = [] \<and>
     \<not> rec_panicked (hx_rec x)"

definition failed :: "string \<Rightarrow> string \<Rightarrow> 64 word \<Rightarrow> ('s, 'l) hx \<Rightarrow> bool" where
  "failed rid cid n x \<longleftrightarrow> hx_errors x = n + 1 \<and> \<not> rec_panicked (hx_rec x) \<and>
     (\<exists>eo t. rec_bodies (hx_rec x) =
        [ErrorBody eo \<lparr>rm_RequestID = rid, rm_CorrelationID = cid, rm_Timestamp = Some t\<rparr>] \<and>
        (rec_status (hx_rec x), eo_Code eo) \<in> set error_table)"

definition served :: "64 word \<Rightarrow> http_body list \<Rightarrow> ('s, 'l) hx \<Rightarrow> bool" where
  "served n bodies x \<longleftrightarrow> hx_errors x = n \<and> \<not> rec_panicked (hx_rec x) \<and>
     rec_status (hx_rec x) \<in> {200, 202} \<and> rec_bodies (hx_rec x) = bodies \<and> bodies \<noteq> [] \<and>
     list_all (\<lambda>b. \<not> is_error b) bodies"

lemma hx_writes [simp]:
  "hx_service (writeJSON st b x) = hx_service x" "hx_limiter (writeJSON st b x) = hx_limiter x"
  "hx_service (writeError env rid cid st code msg rt ds x) = hx_service x"
  "hx_limiter (writeError env rid cid st code msg rt ds x) = hx_limiter x"
  "hx_service (set_header k v x) = hx_service x" "hx_service (recordActor act x) = hx_service x"
  "hx_service (unauthorized env rid cid msg x) = hx_service x"
  "hx_service (forbidden env rid cid msg x) = hx_service x"
  "hx_service (route_not_found env rid cid x) = hx_service x"
  by (simp_all add: writeJSON_def writeError_def set_header_def recordActor_def unauthorized_def forbidden_def
      route_not_found_def Let_def)

lemma hx_handleCommerceError [simp]:
  "hx_service (handleCommerceError env rid cid err x) = hx_service x"
  by (cases err) simp_all

lemma blank_keeps [simp]:
  "blank n (x\<lparr>hx_service := sv\<rparr>) = blank n x" "blank n (x\<lparr>hx_limiter := l\<rparr>) = blank n x"
  "blank n (recordActor act x) = blank n x" "blank n (set_header k v x) = blank n x"
  "blank n (x\<lparr>hx_actor := a\<rparr>) = blank n x"
  by (simp_all add: blank_def recordActor_def set_header_def)

lemma writeError_fails:
  "blank n x \<Longrightarrow> (st, code) \<in> set error_table \<Longrightarrow> failed rid cid n (writeError env rid cid st code msg rt ds x)"
  by (auto simp: blank_def failed_def writeError_def writeJSON_def set_header_def statusRecorder_Write_def
      WriteHeader_def Let_def error_table_def)

lemma writeJSON_serves:
  "blank n x \<Longrightarrow> st \<in> {200, 202} \<Longrightarrow> \<not> is_error b \<Longrightarrow> served n [b] (writeJSON st b x)"
  by (auto simp: blank_def served_def writeJSON_def set_header_def statusRecorder_Write_def WriteHeader_def Let_def)

lemma handleCommerceError_fails:
  "blank n x \<Longrightarrow> failed rid cid n (handleCommerceError env rid cid err x)"
  by (cases err) (simp_all add: writeError_fails error_table_def)

lemma refusals_fail:
  "blank n x \<Longrightarrow> failed rid cid n (unauthorized env rid cid msg x)"
  "blank n x \<Longrightarrow> failed rid cid n (forbidden env rid cid msg x)"
  "blank n x \<Longrightarrow> failed rid cid n (route_not_found env rid cid x)"
  by (simp_all add: unauthorized_def forbidden_def route_not_found_def writeError_fails error_table_def)

subsection \<open>Credentials\<close>

text \<open>Whom a request authenticates as, if anyone.\<close>

definition credential :: "('s, 'l) Server \<Rightarrow> json_codec \<Rightarrow> env \<Rightarrow> http_request \<Rightarrow> actor option" where
  "credential s codec env r =
     (let apiKey = Header_Get r ''X-Api-Key''; token = bearerToken (Header_Get r ''Authorization'') in
      if apiKey \<noteq> [] then map_option merchant_actor (mapget (srv_apiKeys s) apiKey)
      else if token = [] then None
      else if srv_localOpsToken s \<and> srv_opsSecrets s = [] \<and> token = ''ops-token'' then Some (ops_actor ''local-ops'')
      else map_option ops_actor (validateOpsJWT (cd_jwt codec) token (srv_opsSecrets s) (srv_opsIssuer s)
             (srv_opsAudience s) (en_now env)))"

lemma authenticate_credential:
  assumes "authenticate s codec env r rid cid x = (a, x')" "blank n x"
  shows "a = credential s codec env r \<and> hx_service x' = hx_service x \<and>
    (case a of None \<Rightarrow> failed rid cid n x' | Some _ \<Rightarrow> blank n x')"
  using assms
  by (auto simp: authenticate_def credential_def Let_def refusals_fail split: if_splits option.splits)

lemma authenticateMerchant_credential:
  assumes "authenticateMerchant s env r rid cid x = (a, x')" "blank n x"
  shows "a = map_option merchant_actor (mapget (srv_apiKeys s) (Header_Get r ''X-Api-Key'')) \<and>
    hx_service x' = hx_service x \<and> (case a of None \<Rightarrow> failed rid cid n x' | Some _ \<Rightarrow> blank n x')"
  using assms by (auto simp: authenticateMerchant_def Let_def refusals_fail split: option.splits)

lemma allowWrite_result:
  assumes "allowWrite s env m rid cid x = (b, x')" "blank n x"
  shows "hx_service x' = hx_service x \<and> (if b then blank n x' else failed rid cid n x')"
  using assms by (auto simp: allowWrite_def writeError_fails error_table_def split: option.splits prod.splits
      sum.splits if_splits)

lemma decodeJSON_result:
  assumes "decodeJSON s dec env r rid cid x = (v, x')" "blank n x"
  shows "hx_service x' = hx_service x \<and> (case v of None \<Rightarrow> failed rid cid n x' | Some _ \<Rightarrow> x' = x)"
  using assms by (auto simp: decodeJSON_def writeError_fails error_table_def split: prod.splits
      sum.splits if_splits decode_error.splits)

subsection \<open>What each endpoint does\<close>

text \<open>After the guards, the handlers run on a blank response with the store untouched.\<close>

definition finish_create :: "('s, 'l) Server \<Rightarrow> env \<Rightarrow> http_request \<Rightarrow> string \<Rightarrow> string \<Rightarrow> string \<Rightarrow> createOrderRequest
    \<Rightarrow> ('s, 'l) hx \<Rightarrow> ('s, 'l) hx" where
  "finish_create s env r rid cid m req x =
     (case Service_CreateOrderContext (srv_store s) (en_draws env) m
             (Header_Get r ''Idempotency-Key'') cid (toCommand req) (hx_service x) of
        (Inl err, sv) \<Rightarrow> handleCommerceError env rid cid err (x\<lparr>hx_service := sv\<rparr>)
      | (Inr (None, replayed), sv) \<Rightarrow> panic (x\<lparr>hx_service := sv\<rparr>)
      | (Inr (Some order, replayed), sv) \<Rightarrow>
        (let x = x\<lparr>hx_service := sv\<rparr>;
             x = (if replayed then set_header ''X-Idempotent-Replay'' ''true'' x else x)
         in writeJSON 202 (AcceptedBody (o_OrderID order) (o_MerchantID order) (o_Status order)
              (o_CreatedAt order) (meta_of rid cid)) x))"

definition guarded :: "string \<Rightarrow> string \<Rightarrow> 64 word \<Rightarrow> ('s, 'l) hx \<Rightarrow> ('s, 'l) hx \<Rightarrow> (('s, 'l) hx \<Rightarrow> bool) \<Rightarrow> bool" where
  "guarded rid cid n x x' P \<longleftrightarrow> failed rid cid n x' \<and> hx_service x' = hx_service x \<or>
     (\<exists>y. blank n y \<and> hx_service y = hx_service x \<and> P y)"

lemma guarded_refused: "failed rid cid n x' \<Longrightarrow> hx_service x' = hx_service x \<Longrightarrow> guarded rid cid n x x' P"
  by (simp add: guarded_def)

lemma guarded_passed: "blank n y \<Longrightarrow> hx_service y = hx_service x \<Longrightarrow> P y \<Longrightarrow> guarded rid cid n x x' P"
  by (auto simp: guarded_def)

lemma guarded_mono: "guarded rid cid n x x' P \<Longrightarrow> (\<And>y. P y \<Longrightarrow> Q y) \<Longrightarrow> guarded rid cid n x x' Q"
  by (auto simp: guarded_def)

lemma createOrder_guarded:
  assumes "blank n x"
  shows "guarded rid cid n x (Server_createOrder s codec env r rid cid x) (\<lambda>y. \<exists>m req.
    mapget (srv_apiKeys s) (Header_Get r ''X-Api-Key'') = Some m \<and>
    Server_createOrder s codec env r rid cid x = finish_create s env r rid cid m req y)"
proof -
  obtain a x1 where 1: "authenticateMerchant s env r rid cid x = (a, x1)" by fastforce
  note auth = authenticateMerchant_credential [OF 1 assms]
  show ?thesis
  proof (cases a)
    case None
    with 1 auth show ?thesis by (intro guarded_refused) (simp_all add: Server_createOrder_def)
  next
    case (Some act)
    with auth have "map_option merchant_actor (mapget (srv_apiKeys s) (Header_Get r ''X-Api-Key'')) = Some act" by simp
    then obtain m where m: "mapget (srv_apiKeys s) (Header_Get r ''X-Api-Key'') = Some m" "ac_MerchantID act = m"
      by (auto simp: merchant_actor_def)
    obtain b x2 where 2: "allowWrite s env m rid cid x1 = (b, x2)" by fastforce
    obtain v x3 where 3: "decodeJSON s (cd_create codec) env r rid cid x2 = (v, x3)" by fastforce
    from allowWrite_result [OF 2] auth Some
    have allow: "hx_service x2 = hx_service x" "if b then blank n x2 else failed rid cid n x2" by auto
    show ?thesis
    proof (cases "b \<and> v \<noteq> None")
      case True
      then obtain req where "v = Some req" by blast
      with True 1 2 3 Some m decodeJSON_result [OF 3] allow show ?thesis
        by (intro guarded_passed [of n x3]) (auto simp: Server_createOrder_def finish_create_def)
    next
      case False
      with 1 2 3 Some m decodeJSON_result [OF 3] allow show ?thesis
        by (intro guarded_refused) (auto simp: Server_createOrder_def split: bool.splits)
    qed
  qed
qed

text \<open>A merchant's creation over a store: the result of the service, answered.\<close>

lemma finish_create_result:
  assumes "blank n x"
    "Service_CreateOrderContext (srv_store s) (en_draws env) m (Header_Get r ''Idempotency-Key'') cid
       (toCommand req) (hx_service x) = (res, sv)"
  shows "hx_service (finish_create s env r rid cid m req x) = sv"
    "res = Inl err \<Longrightarrow> failed rid cid n (finish_create s env r rid cid m req x)"
    "res = Inr (Some order, replayed) \<Longrightarrow> served n [AcceptedBody (o_OrderID order) (o_MerchantID order)
       (o_Status order) (o_CreatedAt order) (meta_of rid cid)] (finish_create s env r rid cid m req x)"
  using assms by (auto simp: finish_create_def Let_def handleCommerceError_fails writeJSON_serves panic_def
      split: sum.splits option.splits prod.splits)

definition finish_cancel :: "('s, 'l) Server \<Rightarrow> env \<Rightarrow> string \<Rightarrow> string \<Rightarrow> string \<Rightarrow> cancelOrderRequest
    \<Rightarrow> ('s, 'l) hx \<Rightarrow> ('s, 'l) hx" where
  "finish_cancel s env orderID rid cid req x =
     (case Service_CancelOrderContext (srv_store s) (en_draws env) orderID cid
             \<lparr>aa_Type = xr_Type req, aa_ID = xr_ID req, aa_Reason = xr_Reason req\<rparr> (hx_service x) of
        (Inl err, sv) \<Rightarrow> handleCommerceError env rid cid err (x\<lparr>hx_service := sv\<rparr>)
      | (Inr order, sv) \<Rightarrow>
        writeJSON 202 (AcceptedBody (o_OrderID order) (o_MerchantID order) (o_Status order)
          (o_UpdatedAt order) (meta_of rid cid)) (x\<lparr>hx_service := sv\<rparr>))"

text \<open>Who may touch a thing that belongs to merchant \<open>m\<close>.\<close>

definition may_access :: "actor \<Rightarrow> string \<Rightarrow> bool" where
  "may_access act m \<longleftrightarrow> ac_Ops act \<or> ac_MerchantID act = m"

lemma cancelOrder_guarded:
  assumes "blank n x"
  shows "guarded rid cid n x (Server_cancelOrder s codec env r oid rid cid x) (\<lambda>y. \<exists>act order req.
    credential s codec env r = Some act \<and>
    Service_GetOrderContext (srv_store s) oid (hx_service x) = Inr order \<and> may_access act (o_MerchantID order) \<and>
    Server_cancelOrder s codec env r oid rid cid x = finish_cancel s env oid rid cid req y)"
proof -
  obtain a x1 where 1: "authenticate s codec env r rid cid x = (a, x1)" by fastforce
  obtain v x2 where 2: "decodeJSON s (cd_cancel codec) env r rid cid x1 = (v, x2)" by fastforce
  note auth = authenticate_credential [OF 1 assms]
  show ?thesis
  proof (cases "a = None \<or> v = None")
    case True
    with 1 2 auth decodeJSON_result [OF 2] show ?thesis
      by (intro guarded_refused) (auto simp: Server_cancelOrder_def split: option.splits)
  next
    case False
    then obtain act req where some: "a = Some act" "v = Some req" by auto
    with 2 auth decodeJSON_result [OF 2] have y: "blank n x2" "hx_service x2 = hx_service x" by auto
    show ?thesis
    proof (cases "TrimSpace (xr_Reason req) = [] \<or> TrimSpace (xr_Type req) = [] \<or> TrimSpace (xr_ID req) = [] \<or>
        (\<forall>order. Service_GetOrderContext (srv_store s) oid (hx_service x) = Inr order \<longrightarrow>
           \<not> may_access act (o_MerchantID order))")
      case True
      with 1 2 some y show ?thesis
        by (intro guarded_refused) (auto simp: Server_cancelOrder_def may_access_def writeError_fails error_table_def
            refusals_fail handleCommerceError_fails split: sum.split)
    next
      case False
      with 1 2 some y auth show ?thesis
        by (intro guarded_passed [of n x2]) (auto simp: Server_cancelOrder_def may_access_def finish_cancel_def)
    qed
  qed
qed

lemma finish_cancel_result:
  assumes "blank n x"
    "Service_CancelOrderContext (srv_store s) (en_draws env) oid cid
       \<lparr>aa_Type = xr_Type req, aa_ID = xr_ID req, aa_Reason = xr_Reason req\<rparr> (hx_service x) = (res, sv)"
  shows "hx_service (finish_cancel s env oid rid cid req x) = sv"
    "res = Inl err \<Longrightarrow> failed rid cid n (finish_cancel s env oid rid cid req x)"
    "res = Inr order \<Longrightarrow> served n [AcceptedBody (o_OrderID order) (o_MerchantID order) (o_Status order)
       (o_UpdatedAt order) (meta_of rid cid)] (finish_cancel s env oid rid cid req x)"
  using assms by (auto simp: finish_cancel_def handleCommerceError_fails writeJSON_serves
      split: sum.splits prod.splits)

lemma getOrder_guarded:
  assumes "blank n x"
  shows "guarded rid cid n x (Server_getOrder s codec env r oid rid cid x) (\<lambda>y. \<exists>act order.
    credential s codec env r = Some act \<and>
    Service_GetOrderContext (srv_store s) oid (hx_service x) = Inr order \<and> may_access act (o_MerchantID order) \<and>
    Server_getOrder s codec env r oid rid cid x = writeJSON 200 (OrderBody order (meta_of rid cid)) y)"
proof -
  obtain a x1 where 1: "authenticate s codec env r rid cid x = (a, x1)" by fastforce
  note auth = authenticate_credential [OF 1 assms]
  show ?thesis
  proof (cases "\<exists>act order. a = Some act \<and> Service_GetOrderContext (srv_store s) oid (hx_service x) = Inr order \<and>
      may_access act (o_MerchantID order)")
    case True
    with 1 auth show ?thesis
      by (intro guarded_passed [of n x1]) (auto simp: Server_getOrder_def may_access_def)
  next
    case False
    with 1 auth show ?thesis
      by (intro guarded_refused) (auto simp: Server_getOrder_def may_access_def refusals_fail
          handleCommerceError_fails split: option.splits sum.splits)
  qed
qed

lemma getShipment_guarded:
  assumes "blank n x"
  shows "guarded rid cid n x (Server_getShipment s codec env r sid rid cid x) (\<lambda>y. \<exists>act shipment.
    credential s codec env r = Some act \<and>
    Service_GetShipmentContext (srv_store s) sid (hx_service x) = Inr shipment \<and>
    may_access act (sr_MerchantID shipment) \<and>
    Server_getShipment s codec env r sid rid cid x = writeJSON 200 (ShipmentBody shipment (meta_of rid cid)) y)"
proof -
  obtain a x1 where 1: "authenticate s codec env r rid cid x = (a, x1)" by fastforce
  note auth = authenticate_credential [OF 1 assms]
  show ?thesis
  proof (cases "\<exists>act shipment. a = Some act \<and>
      Service_GetShipmentContext (srv_store s) sid (hx_service x) = Inr shipment \<and>
      may_access act (sr_MerchantID shipment)")
    case True
    with 1 auth show ?thesis
      by (intro guarded_passed [of n x1]) (auto simp: Server_getShipment_def may_access_def)
  next
    case False
    with 1 auth show ?thesis
      by (intro guarded_refused) (auto simp: Server_getShipment_def may_access_def refusals_fail
          handleCommerceError_fails split: option.splits sum.splits)
  qed
qed

subsection \<open>Probes\<close>

lemma writeReadiness_answer:
  assumes "blank n x"
  shows "hx_service (writeReadiness s env rid cid x) = hx_service x \<and>
    (if list_all (\<lambda>(name, err). err = None) (readiness_results s env)
     then served n [ReadyBody (map (\<lambda>(name, err). (name, ''up'')) (readiness_results s env)) (en_now env)]
       (writeReadiness s env rid cid x)
     else failed rid cid n (writeReadiness s env rid cid x))"
proof -
  let ?ds = "concat (map (\<lambda>(name, err). case err of None \<Rightarrow> [] | Some e \<Rightarrow> [detail name (Error e)]) (readiness_results s env))"
  have ds: "?ds = [] \<longleftrightarrow> list_all (\<lambda>(name, err). err = None) (readiness_results s env)"
    by (auto simp: list_all_iff split: option.splits)
  show ?thesis
  proof (cases "list_all (\<lambda>(name, err). err = None) (readiness_results s env)")
    case True
    then have "map (\<lambda>(name, err). (name, if err = None then ''up'' else ''down'')) (readiness_results s env) =
        map (\<lambda>(name, err). (name, ''up'')) (readiness_results s env)"
      by (auto simp: list_all_iff)
    with True ds assms show ?thesis by (simp only: writeReadiness_def Let_def) (simp add: writeJSON_serves)
  next
    case False
    with ds assms show ?thesis
      by (simp only: writeReadiness_def Let_def) (simp add: writeError_fails error_table_def)
  qed
qed

lemma write_text_hx [simp]: "hx_service (fold write_text lines x) = hx_service x"
  "hx_errors (fold write_text lines x) = hx_errors x"
  "rec_panicked (hx_rec (fold write_text lines x)) = rec_panicked (hx_rec x)"
  by (induction lines arbitrary: x) (simp_all add: write_text_def statusRecorder_Write_def WriteHeader_def Let_def)

lemma write_text_bodies:
  "rec_bodies (hx_rec (fold write_text lines x)) = rec_bodies (hx_rec x) @ map TextBody lines"
  "rec_status (hx_rec (fold write_text lines x)) =
     (if rec_status (hx_rec x) = 0 \<and> lines \<noteq> [] then 200 else rec_status (hx_rec x))"
  by (induction lines arbitrary: x) (auto simp: write_text_def statusRecorder_Write_def WriteHeader_def Let_def)

lemma writeMetrics_answer:
  assumes "blank n x"
  shows "hx_service (writeMetrics s env x) = hx_service x"
    "\<exists>lines. served n (map TextBody lines) (writeMetrics s env x)"
proof -
  have "\<exists>lines. lines \<noteq> [] \<and>
      writeMetrics s env x = fold write_text lines (set_header ''Content-Type'' ''text/plain; version=0.0.4'' x)"
    unfolding writeMetrics_def metric_head_def by (rule exI, rule conjI [rotated], rule refl) simp
  then obtain lines where l: "lines \<noteq> []"
    "writeMetrics s env x = fold write_text lines (set_header ''Content-Type'' ''text/plain; version=0.0.4'' x)" by blast
  then show "hx_service (writeMetrics s env x) = hx_service x" by simp
  have "blank n (set_header ''Content-Type'' ''text/plain; version=0.0.4'' x)" using assms by simp
  with l show "\<exists>lines. served n (map TextBody lines) (writeMetrics s env x)"
    by (intro exI [of _ lines]) (simp add: served_def blank_def write_text_bodies list_all_iff)
qed

lemma authorizeMetrics_result:
  assumes "authorizeMetrics s env r rid cid x = (b, x')" "blank n x"
  shows "hx_service x' = hx_service x \<and> (if b then blank n x' else failed rid cid n x')"
  using assms by (auto simp: authorizeMetrics_def Let_def refusals_fail split: if_splits)

subsection \<open>Every request\<close>

definition request_id :: "http_request \<Rightarrow> ('s, 'l) hx \<Rightarrow> string" where
  "request_id r x = headerOrNew (Header_Get r ''X-Request-Id'') ''req'' (hx_counter x + 1)"

definition correlation_id :: "http_request \<Rightarrow> ('s, 'l) hx \<Rightarrow> string" where
  "correlation_id r x = headerOrDefault (Header_Get r ''X-Correlation-Id'') (request_id r x)"

lemma ServeHTTP_dispatch:
  "\<exists>y. blank (hx_errors x) y \<and> hx_service y = hx_service x \<and>
     ServeHTTP s codec env r x = dispatch s codec env r (request_id r x) (correlation_id r x) y"
  by (rule exI [of _ "set_header ''X-Correlation-Id'' (correlation_id r x) (set_header ''X-Request-Id'' (request_id r x)
      (x\<lparr>hx_requests := hx_requests x + 1, hx_counter := hx_counter x + 1,
         hx_actor := \<lparr>qs_ActorType = [], qs_ActorID = [], qs_MerchantID = []\<rparr>, hx_rec := fresh_recorder\<rparr>))"])
    (simp add: ServeHTTP_def Let_def request_id_def correlation_id_def blank_def set_header_def fresh_recorder_def)

text \<open>The routes: what \<open>dispatch\<close> runs.\<close>

lemma api_routes:
  assumes "\<not> (rq_Method r = ''GET'' \<and> rq_Path r \<in> {''/healthz'', ''/readyz'', ''/metrics''})"
  shows "dispatch s codec env r rid cid x = route_not_found env rid cid x \<or>
    dispatch s codec env r rid cid x = Server_createOrder s codec env r rid cid x \<or>
    (\<exists>oid. dispatch s codec env r rid cid x = Server_getOrder s codec env r oid rid cid x) \<or>
    (\<exists>oid. dispatch s codec env r rid cid x = Server_cancelOrder s codec env r oid rid cid x) \<or>
    (\<exists>sid. dispatch s codec env r rid cid x = Server_getShipment s codec env r sid rid cid x)"
proof -
  have "orderRoute s codec env r oid action rid cid x = route_not_found env rid cid x \<or>
    orderRoute s codec env r oid action rid cid x = Server_getOrder s codec env r oid rid cid x \<or>
    orderRoute s codec env r oid action rid cid x = Server_cancelOrder s codec env r oid rid cid x" for oid action
    by (simp add: orderRoute_def)
  then show ?thesis using assms unfolding dispatch_def
    by (simp split: option.split prod.split) blast
qed

lemma dispatch_cases:
  fixes x :: "('s, 'l) hx"
  assumes "blank n x"
  obtains (inert) "hx_service (dispatch s codec env r rid cid x) = hx_service x"
      "failed rid cid n (dispatch s codec env r rid cid x) \<or>
       (\<exists>b. served n b (dispatch s codec env r rid cid x) \<and>
          (\<forall>c\<in>set b. \<exists>t cs txt. c = HealthBody t \<or> c = ReadyBody cs t \<or> c = TextBody txt) \<and>
          \<not> HasPrefix (rq_Path r) ''/api/'')"
      "HasPrefix (rq_Path r) ''/api/'' \<Longrightarrow> rec_status (hx_rec (dispatch s codec env r rid cid x)) = 404"
  | (create) "dispatch s codec env r rid cid x = Server_createOrder s codec env r rid cid x"
  | (get) oid where "dispatch s codec env r rid cid x = Server_getOrder s codec env r oid rid cid x"
  | (cancel) oid where "dispatch s codec env r rid cid x = Server_cancelOrder s codec env r oid rid cid x"
  | (shipment) sid where "dispatch s codec env r rid cid x = Server_getShipment s codec env r sid rid cid x"
proof -
  have nf: "rec_status (hx_rec (route_not_found env rid cid x)) = 404"
    using assms by (simp add: blank_def route_not_found_def writeError_def writeJSON_def set_header_def
        statusRecorder_Write_def WriteHeader_def Let_def)
  let ?D = "dispatch s codec env r rid cid x"
  consider (health) "rq_Method r = ''GET''" "rq_Path r = ''/healthz''"
    | (ready) "rq_Method r = ''GET''" "rq_Path r = ''/readyz''"
    | (metrics) "rq_Method r = ''GET''" "rq_Path r = ''/metrics''"
    | (api) "\<not> (rq_Method r = ''GET'' \<and> rq_Path r \<in> {''/healthz'', ''/readyz'', ''/metrics''})"
    by blast
  then show thesis
  proof cases
    case health
    with assms show thesis
      by (intro inert) (auto simp: dispatch_def HasPrefix_def intro!: writeJSON_serves exI [of _ "[HealthBody (en_now env)]"])
  next
    case ready
    with writeReadiness_answer [OF assms, of s env rid cid] show thesis
      by (intro inert) (auto simp: dispatch_def HasPrefix_def split: if_splits)
  next
    case metrics
    obtain b y where auth: "authorizeMetrics s env r rid cid x = (b, y)" by fastforce
    with authorizeMetrics_result [OF auth assms] writeMetrics_answer [of n y s env] metrics show thesis
      by (intro inert) (cases b; fastforce simp: dispatch_def HasPrefix_def)+
  next
    case api
    then have "?D = route_not_found env rid cid x \<or> ?D = Server_createOrder s codec env r rid cid x \<or>
        (\<exists>oid. ?D = Server_getOrder s codec env r oid rid cid x) \<or>
        (\<exists>oid. ?D = Server_cancelOrder s codec env r oid rid cid x) \<or>
        (\<exists>sid. ?D = Server_getShipment s codec env r sid rid cid x)"
      by (rule api_routes)
    then show thesis
    proof (elim disjE exE)
      assume "?D = route_not_found env rid cid x"
      with nf refusals_fail(3) [OF assms, of rid cid env] show thesis by (intro inert) simp_all
    qed (rule create get cancel shipment, assumption)+
  qed
qed

subsection \<open>Separation of merchants\<close>

definition body_of :: "string \<Rightarrow> http_body \<Rightarrow> bool" where
  "body_of m b = (case b of AcceptedBody _ merchant _ _ _ \<Rightarrow> merchant = m
     | OrderBody order _ \<Rightarrow> o_MerchantID order = m
     | ShipmentBody shipment _ \<Rightarrow> sr_MerchantID shipment = m
     | _ \<Rightarrow> True)"

lemma body_of_simps [simp]:
  "body_of m (AcceptedBody a merchant c d e) \<longleftrightarrow> merchant = m" "body_of m (OrderBody order meta) \<longleftrightarrow> o_MerchantID order = m"
  "body_of m (ShipmentBody shipment meta) \<longleftrightarrow> sr_MerchantID shipment = m" "body_of m (ErrorBody eo meta)"
  "body_of m (HealthBody t)" "body_of m (ReadyBody cs t)" "body_of m (TextBody txt)"
  by (simp_all add: body_of_def)

text \<open>The step from one ledger to another touches merchant \<open>m\<close> only, and only adds to the logs.\<close>

definition confined :: "string \<Rightarrow> ledger \<Rightarrow> ledger \<Rightarrow> bool" where
  "confined m L L' \<longleftrightarrow>
     (\<forall>oid. lg_orders L' oid = lg_orders L oid \<or>
        (\<exists>new. lg_orders L' oid = Some new \<and> o_MerchantID new = m) \<and>
        (\<forall>old. lg_orders L oid = Some old \<longrightarrow> o_MerchantID old = m)) \<and>
     (\<exists>evs. lg_events L' = lg_events L @ evs \<and> list_all (\<lambda>e. e_MerchantID e = m) evs) \<and>
     (\<exists>logs. lg_audits L' = lg_audits L @ logs \<and> list_all (\<lambda>a. a_MerchantID a = m) logs)"

lemma confined_refl [simp]: "confined m L L"
  by (simp add: confined_def)

lemma confined_stored:
  assumes "stored order event audit L L'" "lg_orders L (o_OrderID order) = None" "o_MerchantID order = m"
    "e_MerchantID event = m" "a_MerchantID audit = m"
  shows "confined m L L'"
proof -
  from assms(1) obtain order' e a where r: "lg_orders L' = (lg_orders L)(o_OrderID order \<mapsto> order')"
    "o_MerchantID order' = o_MerchantID order" "lg_events L' = lg_events L @ [e]" "event_key e = event_key event"
    "lg_audits L' = lg_audits L @ [a]" "audit_key a = audit_key audit"
    unfolding stored_def by blast
  have "e_MerchantID e = m" "a_MerchantID a = m"
    using r(4,6) assms(4,5) by (simp_all add: event_key_def audit_key_def)
  then show ?thesis using r(1-3,5) assms(2,3) by (simp add: confined_def)
qed

lemma confined_recorded:
  assumes "recorded oid T [event] audit L L'" "lg_orders L oid = Some order" "o_MerchantID order = m"
    "e_MerchantID event = m" "a_MerchantID audit = m"
  shows "confined m L L'"
proof -
  from assms(1,2) obtain order' e a where r: "same_terms order order'" "lg_orders L' = (lg_orders L)(oid \<mapsto> order')"
    "lg_events L' = lg_events L @ [e]" "event_key e = event_key event" "lg_audits L' = lg_audits L @ [a]"
    "audit_key a = audit_key audit"
    by (auto simp: recorded_def map_eq_Cons_conv)
  have "a_MerchantID a = m" using r(6) assms(5) by (simp add: audit_key_def)
  moreover have "o_MerchantID order' = m" using r(1) assms(3) by (simp add: same_terms_def)
  moreover have "e_MerchantID e = m" using r(4) assms(4) by (simp add: event_key_def)
  ultimately show ?thesis using r(2,3,5) assms(2,3) by (auto simp: confined_def)
qed

text \<open>What a request of merchant \<open>m\<close> may do to the state and show in its answer.\<close>

definition isolated :: "('s \<Rightarrow> bool) \<Rightarrow> ('s \<Rightarrow> bool) \<Rightarrow> ('s \<Rightarrow> ledger) \<Rightarrow> string \<Rightarrow> ('s, 'l) hx \<Rightarrow> ('s, 'l) hx \<Rightarrow> bool" where
  "isolated sound owned view m x x' \<longleftrightarrow>
     (sound (sv_store (hx_service x)) \<and> owned (sv_store (hx_service x)) \<longrightarrow>
        sound (sv_store (hx_service x')) \<and> owned (sv_store (hx_service x'))) \<and>
     confined m (view (sv_store (hx_service x))) (view (sv_store (hx_service x'))) \<and>
     list_all (body_of m) (rec_bodies (hx_rec x'))"

context tenant_store
begin

lemma create_isolated:
  assumes "inv (sv_store sv)" "owned (sv_store sv)" "admissible m"
    and "lg_orders (view (sv_store sv)) (drawn_order_id d sv) = None"
    and run: "Service_CreateOrderContext S d m k corr req sv = (res, sv')"
  shows "inv (sv_store sv') \<and> owned (sv_store sv') \<and> confined m (view (sv_store sv)) (view (sv_store sv')) \<and>
    (\<forall>order replayed. res = Inr (order, replayed) \<longrightarrow> (\<exists>ord. order = Some ord \<and> o_MerchantID ord = m))"
proof (cases "validateCreateOrder m k req")
  case (Some e)
  with run assms CreateOrder_invalid show ?thesis by (metis Inl_Inr_False Pair_inject confined_refl)
next
  case valid: None
  show ?thesis
  proof (cases "key_ref (sv_store sv) m k")
    case (Some oid)
    with create_replay [OF assms(1) valid Some, of d corr] run assms(1-3) key_owner show ?thesis by auto
  next
    case nokey: None
    from CreateOrder_valid [OF valid, of S d corr sv] run have ins: "st_InsertOrder S m k
        (requested_order d m req sv) (requested_event d corr m req sv) (requested_audit d corr m req sv)
        (sv_store sv) = (res, sv_store sv')"
      by (auto simp: split_beta Let_def prod_eq_iff)
    have "owned (sv_store sv')" using owned_insert [OF assms(1-3) _ _ ins] assms(4) by simp
    moreover have "confined m (view (sv_store sv)) (view (sv_store sv'))"
      if "stored (requested_order d m req sv) (requested_event d corr m req sv) (requested_audit d corr m req sv)
        (view (sv_store sv)) (view (sv_store sv'))"
      using that by (rule confined_stored)
        (simp_all add: assms(4) requested_event_def requested_audit_def created_event_def create_audit_def)
    ultimately show ?thesis
      using create_fresh [OF assms(1) valid nokey assms(4) run] by (cases res) auto
  qed
qed

lemma cancel_isolated:
  assumes "inv (sv_store sv)" "owned (sv_store sv)"
    and "lg_orders (view (sv_store sv)) oid = Some order" "o_MerchantID order = m"
    and run: "Service_CancelOrderContext S d oid corr actor sv = (res, sv')"
  shows "inv (sv_store sv') \<and> owned (sv_store sv') \<and> confined m (view (sv_store sv)) (view (sv_store sv')) \<and>
    (\<forall>ord. res = Inr ord \<longrightarrow> o_MerchantID ord = m)"
proof (cases "ok res")
  case False
  then obtain e where res: "res = Inl e" by (cases res) auto
  have "owned (sv_store sv')"
    using run res assms(2) owned_update [OF assms(1,2)]
    by (auto simp: Service_CancelOrderContext_def Let_def split: option.splits sum.splits if_splits prod.splits)
  with cancel_effect [OF assms(1) run] res show ?thesis by simp
next
  case True
  from cancel_effect [OF assms(1) run] True assms(3) obtain mid where r: "inv (sv_store sv')"
    "recorded oid (moves_to StatusCancellationPending) [cancel_event mid oid corr (dr_clock d 0) actor order]
       (cancel_audit oid corr (dr_clock d 0) actor order) (view (sv_store sv)) (view (sv_store sv'))" by auto
  have conf: "confined m (view (sv_store sv)) (view (sv_store sv'))"
    using r(2) assms(3,4) by (rule confined_recorded) (simp_all add: cancel_event_def cancel_audit_def assms(4))
  from True obtain ord where ord: "res = Inr ord" by (cases res) auto
  have "\<exists>e a now. st_UpdateOrderStatus S oid StatusCancellationPending now e a (sv_store sv) = (Inr ord, sv_store sv')"
    using run ord by (auto simp: Service_CancelOrderContext_def Let_def split: option.splits sum.splits if_splits prod.splits)
      (intro exI, assumption)
  then obtain e a now where
    upd: "st_UpdateOrderStatus S oid StatusCancellationPending now e a (sv_store sv) = (Inr ord, sv_store sv')" by blast
  have "lg_orders (view (sv_store sv')) oid = Some ord" by (rule update_returns [OF assms(1) upd])
  with conf assms(3,4) have "o_MerchantID ord = m" unfolding confined_def by (metis option.inject)
  with r(1) conf owned_update [OF assms(1,2) upd] ord show ?thesis by auto
qed

lemma get_order_found:
  "inv (sv_store sv) \<Longrightarrow> Service_GetOrderContext S oid sv = Inr order \<Longrightarrow>
   lg_orders (view (sv_store sv)) oid = Some order"
  by (auto simp: Service_GetOrderContext_def get_order split: option.splits)

lemma isolated_unchanged:
  "hx_service x' = hx_service x \<Longrightarrow> list_all (body_of m) (rec_bodies (hx_rec x')) \<Longrightarrow> isolated inv owned view m x x'"
  by (simp add: isolated_def)

lemma isolated_refused:
  "failed rid cid n x' \<Longrightarrow> hx_service x' = hx_service x \<Longrightarrow> isolated inv owned view m x x'"
  by (rule isolated_unchanged) (auto simp: failed_def)

lemma createOrder_isolated:
  assumes "srv_store s = S" "blank n x" "admissible m" "inv (sv_store (hx_service x))" "owned (sv_store (hx_service x))"
    and key: "\<And>m'. mapget (srv_apiKeys s) (Header_Get r ''X-Api-Key'') = Some m' \<Longrightarrow> m' = m"
    and fresh: "lg_orders (view (sv_store (hx_service x))) (drawn_order_id (en_draws env) (hx_service x)) = None"
  shows "isolated inv owned view m x (Server_createOrder s codec env r rid cid x)" (is "isolated inv owned view m x ?x'")
proof -
  consider (refused) "failed rid cid n ?x'" "hx_service ?x' = hx_service x"
    | (passed) y req where "blank n y" "hx_service y = hx_service x" "?x' = finish_create s env r rid cid m req y"
    using createOrder_guarded [OF assms(2), of rid cid s codec env r] key unfolding guarded_def by blast
  then show ?thesis
  proof cases
    case refused
    then show ?thesis by (rule isolated_refused)
  next
    case passed
    obtain res sv where run: "Service_CreateOrderContext (srv_store s) (en_draws env) m
        (Header_Get r ''Idempotency-Key'') cid (toCommand req) (hx_service y) = (res, sv)" by fastforce
    note i = create_isolated [OF assms(4,5,3) fresh run [unfolded assms(1) passed(2)]]
    note f = finish_create_result [OF passed(1) run, where rid = rid, folded passed(3)]
    show ?thesis
    proof (cases res)
      case (Inl err)
      with f(1) f(2) [of err] i show ?thesis by (auto simp: isolated_def failed_def)
    next
      case (Inr p)
      with i obtain ord rep where "res = Inr (Some ord, rep)" "o_MerchantID ord = m" by (cases p) auto
      with f(1) f(3) [of ord rep] i show ?thesis by (auto simp: isolated_def served_def)
    qed
  qed
qed

lemma cancelOrder_isolated:
  assumes "srv_store s = S" "blank n x" "inv (sv_store (hx_service x))" "owned (sv_store (hx_service x))"
    and own: "\<And>act k. credential s codec env r = Some act \<Longrightarrow> may_access act k \<Longrightarrow> k = m"
  shows "isolated inv owned view m x (Server_cancelOrder s codec env r oid rid cid x)" (is "isolated inv owned view m x ?x'")
proof -
  consider (refused) "failed rid cid n ?x'" "hx_service ?x' = hx_service x"
    | (passed) y req order where "blank n y" "hx_service y = hx_service x"
        "Service_GetOrderContext (srv_store s) oid (hx_service x) = Inr order" "o_MerchantID order = m"
        "?x' = finish_cancel s env oid rid cid req y"
    using cancelOrder_guarded [OF assms(2), of rid cid s codec env r oid] own unfolding guarded_def by blast
  then show ?thesis
  proof cases
    case refused
    then show ?thesis by (rule isolated_refused)
  next
    case passed
    obtain res sv where run: "Service_CancelOrderContext (srv_store s) (en_draws env) oid cid
       \<lparr>aa_Type = xr_Type req, aa_ID = xr_ID req, aa_Reason = xr_Reason req\<rparr> (hx_service y) = (res, sv)" by fastforce
    note i = cancel_isolated [OF assms(3,4) get_order_found [OF assms(3) passed(3) [unfolded assms(1)]] passed(4)
      run [unfolded assms(1) passed(2)]]
    note f = finish_cancel_result [OF passed(1) run, where rid = rid, folded passed(5)]
    show ?thesis
    proof (cases res)
      case (Inl err)
      with f(1) f(2) [of err] i show ?thesis by (auto simp: isolated_def failed_def)
    next
      case (Inr ord)
      with f(1) f(3) [of ord] i show ?thesis by (auto simp: isolated_def served_def)
    qed
  qed
qed

lemma reads_isolated:
  assumes "guarded rid cid n x x' (\<lambda>y. \<exists>b. body_of m b \<and> \<not> is_error b \<and> x' = writeJSON 200 b y)"
  shows "isolated inv owned view m x x'"
  using assms unfolding guarded_def
proof (elim disjE conjE exE)
  fix y b assume "blank n y" "hx_service y = hx_service x" "body_of m b" "\<not> is_error b" "x' = writeJSON 200 b y"
  then show ?thesis using writeJSON_serves [of n y 200 b] by (intro isolated_unchanged) (auto simp: served_def)
qed (rule isolated_refused)

lemma dispatch_isolated:
  assumes "srv_store s = S" "blank n x" "inv (sv_store (hx_service x))" "owned (sv_store (hx_service x))"
    and cred: "credential s codec env r = Some act" "\<not> ac_Ops act" "ac_MerchantID act = m" and "admissible m"
    and fresh: "lg_orders (view (sv_store (hx_service x))) (drawn_order_id (en_draws env) (hx_service x)) = None"
  shows "isolated inv owned view m x (dispatch s codec env r rid cid x)"
proof -
  have own: "k = m" if "credential s codec env r = Some act'" "may_access act' k" for act' k
    using that cred by (auto simp: may_access_def)
  have key: "m' = m" if "mapget (srv_apiKeys s) (Header_Get r ''X-Api-Key'') = Some m'" for m'
    using cred that by (auto simp: credential_def Let_def merchant_actor_def ops_actor_def split: if_splits)
  from assms(2) show ?thesis
  proof (cases rule: dispatch_cases [where s = s and codec = codec and env = env and r = r and rid = rid and cid = cid])
    case inert
    then show ?thesis by (intro isolated_unchanged) (auto simp: failed_def served_def list_all_iff)
  next
    case create
    then show ?thesis using createOrder_isolated [OF assms(1,2) \<open>admissible m\<close> assms(3,4) key fresh] by simp
  next
    case (get oid)
    show ?thesis unfolding get
    proof (rule reads_isolated [OF guarded_mono [OF getOrder_guarded [OF assms(2)]]], elim exE conjE)
      fix y act' order
      assume "credential s codec env r = Some act'" "may_access act' (o_MerchantID order)"
        "Server_getOrder s codec env r oid rid cid x = writeJSON 200 (OrderBody order (meta_of rid cid)) y"
      with own show "\<exists>b. body_of m b \<and> \<not> is_error b \<and> Server_getOrder s codec env r oid rid cid x = writeJSON 200 b y"
        by (intro exI [of _ "OrderBody order (meta_of rid cid)"]) simp
    qed
  next
    case (cancel oid)
    then show ?thesis using cancelOrder_isolated [OF assms(1-4) own] by simp
  next
    case (shipment sid)
    show ?thesis unfolding shipment
    proof (rule reads_isolated [OF guarded_mono [OF getShipment_guarded [OF assms(2)]]], elim exE conjE)
      fix y act' shipment
      assume "credential s codec env r = Some act'" "may_access act' (sr_MerchantID shipment)"
        "Server_getShipment s codec env r sid rid cid x = writeJSON 200 (ShipmentBody shipment (meta_of rid cid)) y"
      with own show "\<exists>b. body_of m b \<and> \<not> is_error b \<and> Server_getShipment s codec env r sid rid cid x = writeJSON 200 b y"
        by (intro exI [of _ "ShipmentBody shipment (meta_of rid cid)"]) simp
    qed
  qed
qed

end

end
