(* ===== verification/Api_Properties.thy ===== *)
theory Api_Properties
  imports Api_Behaviour
begin

text \<open>
  The properties of the HTTP server over the in-memory store: separation of merchants,
  requests without a credential, the form of the answers, operations tokens and the
  cancellation endpoint.
\<close>

subsection \<open>Paths and guards\<close>

lemma HasPrefix_self [simp]: "HasPrefix (p @ s) p"
  by (simp add: HasPrefix_def)

lemma CutPrefix_self [simp]: "CutPrefix (p @ s) p = (s, True)"
  by (simp add: CutPrefix_def)

lemma orderRouteMatch_cancel:
  assumes "CHR ''/'' \<notin> set oid" "oid \<noteq> []"
  shows "orderRouteMatch (''/api/v1/orders/'' @ oid @ ''/cancel'') = Some (oid, ''cancel'')"
proof -
  have "Split (oid @ CHR ''/'' # ''cancel'') (CHR ''/'') = [oid, ''cancel'']"
    using Split_append [OF assms(1)] Split_single [of "CHR ''/''" "''cancel''"] by simp
  with assms(2) show ?thesis unfolding orderRouteMatch_def CutPrefix_self by simp
qed

lemma dispatch_cancel:
  assumes "rq_Method r = ''POST''" "rq_Path r = ''/api/v1/orders/'' @ oid @ ''/cancel''" "CHR ''/'' \<notin> set oid" "oid \<noteq> []"
  shows "dispatch s codec env r rid cid x = Server_cancelOrder s codec env r oid rid cid x"
proof -
  have "HasPrefix (rq_Path r) ''/api/v1/orders/''" unfolding assms(2) by (rule HasPrefix_self)
  moreover have "rq_Path r \<noteq> ''/api/v1/orders''" unfolding assms(2) by simp
  ultimately show ?thesis
    using assms orderRouteMatch_cancel [OF assms(3,4)] by (simp add: dispatch_def orderRoute_def)
qed

lemma refusal_status:
  assumes "blank n x"
  shows "rec_status (hx_rec (unauthorized env rid cid msg x)) = 401"
  using assms by (simp add: blank_def unauthorized_def writeError_def writeJSON_def set_header_def
      statusRecorder_Write_def WriteHeader_def Let_def)

lemma authenticate_refused:
  assumes "credential s codec env r = None" "blank n x"
  shows "\<exists>msg. authenticate s codec env r rid cid x = (None, unauthorized env rid cid msg x)"
  using assms by (auto simp: authenticate_def credential_def Let_def split: if_splits option.splits)

lemma unauthenticated_endpoints:
  assumes "credential s codec env r = None" "mapget (srv_apiKeys s) [] = None" "blank n x"
  shows "\<exists>msg. Server_createOrder s codec env r rid cid x = unauthorized env rid cid msg x"
    "\<exists>msg. Server_getOrder s codec env r oid rid cid x = unauthorized env rid cid msg x"
    "\<exists>msg. Server_cancelOrder s codec env r oid rid cid x = unauthorized env rid cid msg x"
    "\<exists>msg. Server_getShipment s codec env r sid rid cid x = unauthorized env rid cid msg x"
proof -
  have "mapget (srv_apiKeys s) (Header_Get r ''X-Api-Key'') = None"
    using assms(1,2) by (auto simp: credential_def Let_def split: if_splits)
  then show "\<exists>msg. Server_createOrder s codec env r rid cid x = unauthorized env rid cid msg x"
    by (auto simp: Server_createOrder_def authenticateMerchant_def Let_def)
qed (use authenticate_refused [OF assms(1,3), of rid cid] in
    \<open>auto simp: Server_getOrder_def Server_cancelOrder_def Server_getShipment_def\<close>)

text \<open>The in-memory store never answers an insertion with a nil order.\<close>

lemma InsertOrder_not_nil:
  assumes "ms_inv s"
  shows "fst (MemoryStore_InsertOrder m k order event audit s) \<noteq> Inr (None, b)"
proof (cases "ms_key_ref s m k")
  case (Some oid)
  from InsertOrder_replay [OF assms Some] show ?thesis by (metis fst_conv Inr_inject Pair_inject option.distinct(1))
next
  case None
  then show ?thesis using InsertOrder_duplicate InsertOrder_new [OF None]
    by (cases "ms_ext_ref s m (o_ExternalOrderID order)") (simp_all add: InsertOrder_duplicate)
qed

lemma createOrder_answered:
  assumes "srv_store s = MemoryStore_Store" "ms_inv (sv_store (hx_service x))" "blank n x"
  shows "failed rid cid n (Server_createOrder s codec env r rid cid x) \<or>
    (\<exists>b. served n b (Server_createOrder s codec env r rid cid x))"
proof -
  let ?x' = "Server_createOrder s codec env r rid cid x"
  consider (refused) "failed rid cid n ?x'"
    | (passed) m req y where "blank n y" "hx_service y = hx_service x" "?x' = finish_create s env r rid cid m req y"
    using createOrder_guarded [OF assms(3), of rid cid s codec env r] unfolding guarded_def by blast
  then show ?thesis
  proof cases
    case passed
    let ?k = "Header_Get r ''Idempotency-Key''"
    obtain res sv where run: "Service_CreateOrderContext (srv_store s) (en_draws env) m
        ?k cid (toCommand req) (hx_service y) = (res, sv)" by fastforce
    have "res \<noteq> Inr (None, b)" for b
    proof (cases "validateCreateOrder m ?k (toCommand req)")
      case (Some e)
      with run show ?thesis by (auto simp: CreateOrder_invalid [OF Some])
    next
      case None
      from CreateOrder_valid [OF None, of "srv_store s" "en_draws env" cid "hx_service y"] run
      have "\<exists>ord ev au. fst (MemoryStore_InsertOrder m ?k ord ev au (sv_store (hx_service x))) = res"
        by (auto simp: split_beta Let_def assms(1) MemoryStore_Store_def passed(2))
      with InsertOrder_not_nil [OF assms(2)] show ?thesis by blast
    qed
    then consider (err) e where "res = Inl e" | (ok) ord b where "res = Inr (Some ord, b)"
      by (metis not_None_eq obj_sumE prod.exhaust)
    then show ?thesis
      using finish_create_result(2,3) [OF passed(1) run, where rid = rid] unfolding passed(3) by cases blast+
  qed blast
qed

lemma cancelOrder_answered:
  assumes "blank n x"
  shows "failed rid cid n (Server_cancelOrder s codec env r oid rid cid x) \<or>
    (\<exists>b. served n b (Server_cancelOrder s codec env r oid rid cid x))"
proof -
  let ?x' = "Server_cancelOrder s codec env r oid rid cid x"
  consider (refused) "failed rid cid n ?x'"
    | (passed) req y where "blank n y" "?x' = finish_cancel s env oid rid cid req y"
    using cancelOrder_guarded [OF assms, of rid cid s codec env r oid] unfolding guarded_def by blast
  then show ?thesis
  proof cases
    case passed
    obtain res sv where run: "Service_CancelOrderContext (srv_store s) (en_draws env) oid cid
       \<lparr>aa_Type = xr_Type req, aa_ID = xr_ID req, aa_Reason = xr_Reason req\<rparr> (hx_service y) = (res, sv)" by fastforce
    show ?thesis using finish_cancel_result(2,3) [OF passed(1) run, where rid = rid] unfolding passed(2)
      by (cases res) blast+
  qed blast
qed

lemma dispatch_answered:
  assumes "srv_store s = MemoryStore_Store" "ms_inv (sv_store (hx_service x))" "blank n x"
  shows "failed rid cid n (dispatch s codec env r rid cid x) \<or> (\<exists>b. served n b (dispatch s codec env r rid cid x))"
  using assms(3)
proof (cases rule: dispatch_cases [where s = s and codec = codec and env = env and r = r and rid = rid and cid = cid])
  case create
  then show ?thesis using createOrder_answered [OF assms] by simp
next
  case (get oid)
  then show ?thesis using getOrder_guarded [OF assms(3), of rid cid s codec env r oid]
    unfolding guarded_def by (metis insertI1 is_error_simps(3) writeJSON_serves)
next
  case (cancel oid)
  then show ?thesis using cancelOrder_answered [OF assms(3)] by simp
next
  case (shipment sid)
  then show ?thesis using getShipment_guarded [OF assms(3), of rid cid s codec env r sid]
    unfolding guarded_def by (metis insertI1 is_error_simps(4) writeJSON_serves)
qed blast

subsection \<open>A sample server\<close>

definition sample_claims :: opsJWTClaims where
  "sample_claims = \<lparr>jc_Subject = ''ops-1'', jc_Issuer = ''idp'', jc_Audience = [''api''], jc_ExpiresAt = 100,
     jc_Role = ''operations'', jc_Roles = []\<rparr>"

definition sample_codec :: json_codec where
  "sample_codec = \<lparr>cd_create = \<lambda>_ _. (Inl OtherDecodeError, True),
     cd_cancel = \<lambda>_ _. (Inr \<lparr>xr_Reason = ''late'', xr_Type = ''operations'', xr_ID = ''alice''\<rparr>, True),
     cd_jwt = \<lparr>js_header = \<lambda>_. Inr [(''alg'', AStr ''HS256'')], js_claims = \<lambda>_. Inr sample_claims,
       js_string = \<lambda>_. Inr [], js_strings = \<lambda>_. Inr []\<rparr>\<rparr>"

definition sample_options :: "(MemoryStore, unit) Options" where
  "sample_options = \<lparr>op_RateLimiter = None, op_OpsJWTSecret = ''new'', op_OpsJWTPreviousSecrets = [''old''],
     op_OpsJWTIssuer = ''idp'', op_OpsJWTAudience = ''api'', op_QueueMetrics = None, op_OutboxBacklog = None,
     op_SagaMetrics = None, op_MetricsBearerToken = [], op_ReadinessChecks = [],
     op_APIKeys = [(''key-1'', ''m1'')], op_AllowLocalOpsToken = False, op_MaxRequestBodyBytes = 0\<rparr>"

definition sample_server :: "(MemoryStore, unit) Server" where
  "sample_server = NewServerWithOptions MemoryStore_Store sample_options"

definition sample_env :: env where
  "sample_env = \<lparr>en_now = 5, en_draws = sample_draws\<rparr>"

definition sample_hx :: "(MemoryStore, unit) hx" where
  "sample_hx = \<lparr>hx_service = \<lparr>sv_counter = 0, sv_store = sample_store\<rparr>, hx_limiter = (), hx_counter = 0,
     hx_requests = 0, hx_errors = 0, hx_actor = \<lparr>qs_ActorType = [], qs_ActorID = [], qs_MerchantID = []\<rparr>,
     hx_rec = fresh_recorder\<rparr>"

definition sample_cancel :: "string gomap \<Rightarrow> http_request" where
  "sample_cancel headers = \<lparr>rq_Method = ''POST'', rq_Path = ''/api/v1/orders/ord_1/cancel'', rq_Header = headers,
     rq_Body = []\<rparr>"

lemma sample_server_simps [simp]:
  "srv_store sample_server = MemoryStore_Store" "srv_apiKeys sample_server = [(''key-1'', ''m1'')]"
  "srv_localOpsToken sample_server = False"
  by (simp_all add: sample_server_def NewServerWithOptions_def sample_options_def)

lemma sample_store_scoped: "ms_scoped sample_store"
proof -
  have "ms_scoped NewMemoryStore" by (simp add: ms_scoped_def NewMemoryStore_def)
  from ms_scoped_inserted [OF this, of sample_order] show ?thesis
    by (simp add: sample_store_eq sample_order_def colon_free_def NewMemoryStore_def)
qed

lemma sample_fresh_id: "drawn_order_id sample_draws \<lparr>sv_counter = 0, sv_store = sample_store\<rparr> \<noteq> ''ord_1''"
  unfolding drawn_order_id_def sample_draws_def by code_simp

lemma sample_token_simps [simp]:
  "js_header (cd_jwt sample_codec) raw = Inr [(''alg'', AStr ''HS256'')]" "js_claims (cd_jwt sample_codec) raw = Inr sample_claims"
  "jc_Subject sample_claims = ''ops-1''" "jc_Issuer sample_claims = ''idp''" "jc_Audience sample_claims = [''api'']"
  "jc_ExpiresAt sample_claims = 100" "en_now sample_env = 5" "mapget [(''alg'', AStr ''HS256'')] ''alg'' = Some (AStr ''HS256'')"
  by (simp_all add: sample_codec_def sample_claims_def sample_env_def)

lemma sample_token_facts:
  "TrimSpace ''old'' = ''old''" "TrimSpace ''new'' = ''new''" "TrimSpace ''idp'' = ''idp''"
  "TrimSpace ''api'' = ''api''" "TrimSpace ''ops-1'' \<noteq> []" "hasOperationsRole sample_claims" "Unix_seconds 5 < 100"
  "jwtAudience_Contains [''api''] ''api''"
  by code_simp+

lemma sample_options_simps [simp]:
  "op_OpsJWTSecret sample_options = ''new''" "op_OpsJWTPreviousSecrets sample_options = [''old'']"
  "op_OpsJWTIssuer sample_options = ''idp''" "op_OpsJWTAudience sample_options = ''api''"
  by (simp_all add: sample_options_def)

definition sample_ops_request :: http_request where
  "sample_ops_request = \<lparr>rq_Method = ''GET'', rq_Path = ''/api/v1/orders/ord_1'',
      rq_Header = [(''Authorization'', ''Bearer '' @ signed_token ''old'' ''h'' ''c'')], rq_Body = []\<rparr>"

lemma sample_ops_headers:
  "Header_Get sample_ops_request ''X-Api-Key'' = []"
  "Header_Get sample_ops_request ''Authorization'' = ''Bearer '' @ signed_token ''old'' ''h'' ''c''"
  by (simp_all add: sample_ops_request_def Header_Get_def mapstr_def)

lemma sample_ops_credential:
  "credential sample_server sample_codec sample_env sample_ops_request = Some (ops_actor ''ops-1'')"
proof -
  have "validateOpsJWT (cd_jwt sample_codec) (signed_token ''old'' ''h'' ''c'') (srv_opsSecrets sample_server)
      (srv_opsIssuer sample_server) (srv_opsAudience sample_server) (en_now sample_env) = Some (jc_Subject sample_claims)"
    by (rule signed_token_validates [where hdr = "[(''alg'', AStr ''HS256'')]"]) (simp_all add: sample_token_facts sample_server_def NewServerWithOptions_def
        opsJWTSecrets_def)
  moreover have ne: "signed_token ''old'' ''h'' ''c'' \<noteq> []" unfolding signed_token_def Let_def by (simp del: RawURL_EncodeToString.simps)
  moreover have "bearerToken (''Bearer '' @ signed_token ''old'' ''h'' ''c'') = signed_token ''old'' ''h'' ''c''"
    by (rule bearerToken_Bearer [OF signed_token_visible ne])
  ultimately show ?thesis unfolding credential_def sample_ops_headers by (simp add: Let_def)
qed

subsection \<open>Properties\<close>

text \<open>
  C3. Merchants are separated. A request with the API key of a merchant whose id has no colon
  changes no order of another merchant, only appends events and audit logs of its own
  merchant, and shows in its answer only orders and shipments of that merchant, also when an
  idempotency key is replayed. The drawn order id is taken to be unused. The store keeps its
  invariants, so this holds request after request.
\<close>

theorem api_tenant_isolation:
  assumes "srv_store s = MemoryStore_Store" "ms_inv (sv_store (hx_service x))" "ms_scoped (sv_store (hx_service x))"
    and "Header_Get r ''X-Api-Key'' \<noteq> []" "mapget (srv_apiKeys s) (Header_Get r ''X-Api-Key'') = Some m" "colon_free m"
    and "mapget (orders (sv_store (hx_service x))) (drawn_order_id (en_draws env) (hx_service x)) = None"
  shows "isolated ms_inv ms_scoped ms_view m x (ServeHTTP s codec env r x)"
proof -
  obtain y where y: "blank (hx_errors x) y" "hx_service y = hx_service x"
    "ServeHTTP s codec env r x = dispatch s codec env r (request_id r x) (correlation_id r x) y"
    using ServeHTTP_dispatch by blast
  have "credential s codec env r = Some (merchant_actor m)" using assms(4,5) by (simp add: credential_def)
  then have "isolated ms_inv ms_scoped ms_view m y (dispatch s codec env r (request_id r x) (correlation_id r x) y)"
    using assms(1-3,6,7) y(1,2) by (intro ms.dispatch_isolated) (auto simp: merchant_actor_def)
  then show ?thesis using y(2,3) by (simp add: isolated_def)
qed

theorem api_tenant_isolation_witness:
  "isolated ms_inv ms_scoped ms_view ''m1'' sample_hx
     (ServeHTTP sample_server sample_codec sample_env (sample_cancel [(''X-Api-Key'', ''key-1'')]) sample_hx)"
  by (rule api_tenant_isolation)
    (simp_all add: sample_hx_def sample_env_def sample_store_inv sample_store_scoped sample_cancel_def Header_Get_def mapstr_def
      colon_free_def sample_fresh_id)

text \<open>
  C35. A request without a valid credential leaves the order service and its store as they
  are and shows no order or shipment; on any path under \<open>/api/\<close> it is answered with 401 or
  404. The empty string is taken not to be an API key.
\<close>

theorem api_unauthenticated_inert:
  fixes x :: "('s, 'l) hx"
  assumes "credential s codec env r = None" "mapget (srv_apiKeys s) [] = None"
  defines "x' \<equiv> ServeHTTP s codec env r x"
  shows "hx_service x' = hx_service x \<and> list_all (body_of m) (rec_bodies (hx_rec x')) \<and>
    (HasPrefix (rq_Path r) ''/api/'' \<longrightarrow> rec_status (hx_rec x') \<in> {401, 404})"
proof -
  let ?rid = "request_id r x" and ?cid = "correlation_id r x"
  obtain y where y: "blank (hx_errors x) y" "hx_service y = hx_service x" "x' = dispatch s codec env r ?rid ?cid y"
    unfolding x'_def using ServeHTTP_dispatch by blast
  have refused: ?thesis if "\<exists>msg. dispatch s codec env r ?rid ?cid y = unauthorized env ?rid ?cid msg y"
  proof -
    from that obtain msg where x': "x' = unauthorized env ?rid ?cid msg y" using y(3) by blast
    show ?thesis using y(2) refusal_status [OF y(1), of env ?rid ?cid msg] refusals_fail(1) [OF y(1), of ?rid ?cid env msg]
      unfolding x' by (auto simp: failed_def)
  qed
  note un = unauthenticated_endpoints [OF assms(1,2) y(1), where rid = ?rid and cid = ?cid]
  from y(1) show ?thesis
  proof (cases rule: dispatch_cases [where s = s and codec = codec and env = env and r = r and rid = ?rid and cid = ?cid])
    case inert
    then show ?thesis using y(2,3) by (auto simp: failed_def served_def list_all_iff)
  qed (use un refused in simp_all)
qed

theorem api_unauthenticated_inert_witness:
  "rec_status (hx_rec (ServeHTTP sample_server sample_codec sample_env (sample_cancel []) sample_hx)) \<in> {401, 404} \<and>
   hx_service (ServeHTTP sample_server sample_codec sample_env (sample_cancel []) sample_hx) = hx_service sample_hx"
proof -
  have b: "bearerToken [] = []" by code_simp
  have "credential sample_server sample_codec sample_env (sample_cancel []) = None"
    by (simp add: credential_def sample_cancel_def Header_Get_def mapstr_def b)
  moreover have "HasPrefix (rq_Path (sample_cancel [])) ''/api/''" by (simp add: sample_cancel_def HasPrefix_def)
  ultimately show ?thesis
    using api_unauthenticated_inert [of sample_server sample_codec sample_env "sample_cancel []" sample_hx] by simp
qed

text \<open>
  C36. Every request is answered exactly once. Either a status of 200 or 202 and no error
  object, with the error counter unchanged; or one error envelope that carries the request
  and correlation ids and a status and code of the error table, with the error counter one
  higher. No request panics.
\<close>

theorem api_answers_every_request:
  assumes "srv_store s = MemoryStore_Store" "ms_inv (sv_store (hx_service x))"
  shows "failed (request_id r x) (correlation_id r x) (hx_errors x) (ServeHTTP s codec env r x) \<or>
    (\<exists>bodies. served (hx_errors x) bodies (ServeHTTP s codec env r x))"
proof -
  obtain y where y: "blank (hx_errors x) y" "hx_service y = hx_service x"
    "ServeHTTP s codec env r x = dispatch s codec env r (request_id r x) (correlation_id r x) y"
    using ServeHTTP_dispatch by blast
  show ?thesis unfolding y(3) by (rule dispatch_answered) (use assms y in simp_all)
qed

theorem api_answers_every_request_witness:
  "failed ''req_000000000001'' ''req_000000000001'' 0
     (ServeHTTP sample_server sample_codec sample_env (sample_cancel []) sample_hx) \<or>
   (\<exists>bodies. served 0 bodies (ServeHTTP sample_server sample_codec sample_env (sample_cancel []) sample_hx))"
proof -
  have "request_id (sample_cancel []) sample_hx = ''req_000000000001''"
    "correlation_id (sample_cancel []) sample_hx = ''req_000000000001''"
    unfolding request_id_def correlation_id_def sample_cancel_def sample_hx_def by code_simp+
  with api_answers_every_request [of sample_server sample_hx "sample_cancel []" sample_codec sample_env]
  show ?thesis by (simp add: sample_hx_def sample_store_inv)
qed

text \<open>
  C15. Operations access is backed by a signature. When the built-in local token is off, a
  request that \<open>authenticate\<close> accepts as operations carries a bearer token of three parts whose last part
  is the HMAC of the first two under one of the configured secrets, whose header names
  HS256, and whose claims name the actor, are not expired, hold an operations role and match
  the configured issuer and audience. Without a configured secret there is no such access.
\<close>

theorem ops_access_signed:
  assumes "authenticate s codec env r rid cid x = (Some act, x')" "ac_Ops act" "\<not> srv_localOpsToken s"
  shows "\<exists>h p sg secret hdr claims.
    bearerToken (Header_Get r ''Authorization'') = h @ ''.'' @ p @ ''.'' @ sg \<and>
    secret \<in> set (srv_opsSecrets s) \<and> RawURL_DecodeString sg = Some (hmac_Sum secret (h @ ''.'' @ p)) \<and>
    decodeJWTPart (js_header (cd_jwt codec)) h = Some hdr \<and> mapget hdr ''alg'' = Some (AStr ''HS256'') \<and>
    decodeJWTPart (js_claims (cd_jwt codec)) p = Some claims \<and> act = ops_actor (jc_Subject claims) \<and>
    TrimSpace (jc_Subject claims) \<noteq> [] \<and> Unix_seconds (en_now env) < jc_ExpiresAt claims \<and>
    hasOperationsRole claims \<and> (srv_opsIssuer s = [] \<or> jc_Issuer claims = srv_opsIssuer s) \<and>
    (srv_opsAudience s = [] \<or> jwtAudience_Contains (jc_Audience claims) (srv_opsAudience s))"
proof -
  let ?t = "bearerToken (Header_Get r ''Authorization'')"
  from assms obtain sub where act: "act = ops_actor sub"
    "validateOpsJWT (cd_jwt codec) ?t (srv_opsSecrets s) (srv_opsIssuer s) (srv_opsAudience s) (en_now env) = Some sub"
    by (auto simp: authenticate_def Let_def merchant_actor_def split: if_splits option.splits)
  then obtain h p sg hdr claims got where v: "Split ?t (CHR ''.'') = [h, p, sg]"
    "decodeJWTPart (js_header (cd_jwt codec)) h = Some hdr" "mapget hdr ''alg'' = Some (AStr ''HS256'')"
    "RawURL_DecodeString sg = Some got" "\<exists>secret\<in>set (srv_opsSecrets s). got = hmac_Sum secret (h @ ''.'' @ p)"
    "decodeJWTPart (js_claims (cd_jwt codec)) p = Some claims" "sub = jc_Subject claims"
    "TrimSpace (jc_Subject claims) \<noteq> []" "Unix_seconds (en_now env) < jc_ExpiresAt claims" "hasOperationsRole claims"
    "srv_opsIssuer s = [] \<or> jc_Issuer claims = srv_opsIssuer s"
    "srv_opsAudience s = [] \<or> jwtAudience_Contains (jc_Audience claims) (srv_opsAudience s)"
    unfolding validateOpsJWT_iff by blast
  have "?t = h @ ''.'' @ p @ ''.'' @ sg" using Join_Split [of ?t "CHR ''.''"] unfolding v(1) by simp
  with act(1) v show ?thesis by blast
qed

theorem ops_access_signed_witness:
  "\<exists>x'. authenticate sample_server sample_codec sample_env sample_ops_request [] [] sample_hx = (Some (ops_actor ''ops-1''), x') \<and>
     (\<exists>h p sg secret. bearerToken (Header_Get sample_ops_request ''Authorization'') = h @ ''.'' @ p @ ''.'' @ sg \<and>
       secret \<in> set (srv_opsSecrets sample_server) \<and> RawURL_DecodeString sg = Some (hmac_Sum secret (h @ ''.'' @ p)))"
proof -
  obtain a x' where run: "authenticate sample_server sample_codec sample_env sample_ops_request [] [] sample_hx = (a, x')"
    by (rule prod.exhaust)
  have "blank 0 sample_hx" by (simp add: blank_def sample_hx_def fresh_recorder_def)
  from authenticate_credential [OF run this] have "a = Some (ops_actor ''ops-1'')" by (simp add: sample_ops_credential)
  note accepted = run [unfolded this]
  have "ac_Ops (ops_actor ''ops-1'')" by (simp add: ops_actor_def)
  from ops_access_signed [OF accepted this] accepted show ?thesis unfolding sample_server_simps by blast
qed

text \<open>
  Rotation of the operations secret: a server built from options accepts, as its subject,
  any well-formed token that was signed with the current secret or with one of the previous
  secrets, so tokens issued before a rotation stay valid until they expire.
\<close>

theorem ops_secret_rotation:
  assumes "configured \<in> set (op_OpsJWTSecret options # op_OpsJWTPreviousSecrets options)" "TrimSpace configured \<noteq> []"
    and "Header_Get r ''X-Api-Key'' = []"
    and "Header_Get r ''Authorization'' = ''Bearer '' @ signed_token (TrimSpace configured) rawHeader rawClaims"
    and "js_header (cd_jwt codec) rawHeader = Inr hdr" "mapget hdr ''alg'' = Some (AStr ''HS256'')"
    and "js_claims (cd_jwt codec) rawClaims = Inr claims" "TrimSpace (jc_Subject claims) \<noteq> []"
    and "Unix_seconds (en_now env) < jc_ExpiresAt claims" "hasOperationsRole claims"
    and "TrimSpace (op_OpsJWTIssuer options) \<in> {[], jc_Issuer claims}"
    and "TrimSpace (op_OpsJWTAudience options) = [] \<or>
      jwtAudience_Contains (jc_Audience claims) (TrimSpace (op_OpsJWTAudience options))"
  shows "credential (NewServerWithOptions store options) codec env r = Some (ops_actor (jc_Subject claims))"
proof -
  let ?t = "signed_token (TrimSpace configured) rawHeader rawClaims" and ?s = "NewServerWithOptions store options"
  have ne: "?t \<noteq> []" by (simp add: signed_token_def Let_def)
  have secret: "TrimSpace configured \<in> set (srv_opsSecrets ?s)"
    using assms(1,2) by (auto simp: NewServerWithOptions_def opsJWTSecrets_def)
  have "validateOpsJWT (cd_jwt codec) ?t (srv_opsSecrets ?s) (srv_opsIssuer ?s) (srv_opsAudience ?s) (en_now env) =
      Some (jc_Subject claims)"
    using secret assms(5-12) by (intro signed_token_validates) (auto simp: NewServerWithOptions_def)
  moreover have "bearerToken (Header_Get r ''Authorization'') = ?t"
    unfolding assms(4) by (rule bearerToken_Bearer [OF signed_token_visible ne])
  moreover have "srv_opsSecrets ?s \<noteq> []" using secret by auto
  ultimately show ?thesis using assms(3) ne by (simp add: credential_def Let_def)
qed

text \<open>
  The cancellation endpoint, from the path to the store: a POST to the cancel path of an
  order by its merchant, with a well-formed body and the order in a status that can be
  cancelled, answers 202 and moves the order to \<open>cancellation_pending\<close> with its terms kept,
  one \<open>order.cancel_requested\<close> event and one audit log. The actor in that audit log is the
  one the body names, whoever sent the request.
\<close>

theorem api_cancel_order:
  assumes "srv_store s = MemoryStore_Store" "ms_inv (sv_store (hx_service x))"
    and "rq_Method r = ''POST''" "rq_Path r = ''/api/v1/orders/'' @ oid @ ''/cancel''" "CHR ''/'' \<notin> set oid" "oid \<noteq> []"
    and "Header_Get r ''X-Api-Key'' \<noteq> []"
      "mapget (srv_apiKeys s) (Header_Get r ''X-Api-Key'') = Some (o_MerchantID order)"
    and "cd_cancel codec (srv_maxBodyBytes s) (rq_Body r) = (Inr req, True)"
      "TrimSpace (xr_Reason req) \<noteq> []" "TrimSpace (xr_Type req) \<noteq> []" "TrimSpace (xr_ID req) \<noteq> []"
    and "mapget (orders (sv_store (hx_service x))) oid = Some order"
      "CanTransitionOrderStatus (o_Status order) StatusCancellationPending"
  shows "\<exists>event audit. rec_status (hx_rec (ServeHTTP s codec env r x)) = 202 \<and>
    recorded oid (moves_to StatusCancellationPending) [event] audit (ms_view (sv_store (hx_service x)))
      (ms_view (sv_store (hx_service (ServeHTTP s codec env r x)))) \<and>
    e_EventType event = ''order.cancel_requested'' \<and> e_MerchantID event = o_MerchantID order \<and>
    a_ActorType audit = TrimSpace (xr_Type req) \<and> a_ActorID audit = TrimSpace (xr_ID req)"
proof -
  let ?rid = "request_id r x" and ?cid = "correlation_id r x"
    and ?a = "\<lparr>aa_Type = xr_Type req, aa_ID = xr_ID req, aa_Reason = xr_Reason req\<rparr>"
  obtain y where y: "blank (hx_errors x) y" "hx_service y = hx_service x"
    "ServeHTTP s codec env r x = dispatch s codec env r ?rid ?cid y"
    using ServeHTTP_dispatch by blast
  obtain act z where z: "authenticate s codec env r ?rid ?cid y = (Some act, z)" "blank (hx_errors x) z"
    "hx_service z = hx_service x" "ac_MerchantID act = o_MerchantID order"
    using assms(7,8) y(1,2) by (auto simp: authenticate_def Let_def merchant_actor_def)
  obtain res sv where run: "Service_CancelOrderContext MemoryStore_Store (en_draws env) oid ?cid ?a (hx_service x) = (res, sv)"
    by fastforce
  have eq: "ServeHTTP s codec env r x = finish_cancel s env oid ?rid ?cid req z"
    unfolding y(3) dispatch_cancel [OF assms(3-6)] Server_cancelOrder_def
    using z assms(1,9-13) by (simp add: decodeJSON_def Service_GetOrderContext_def finish_cancel_def
        MemoryStore_Store_def MemoryStore_GetOrder_def)
  have v: "validateCancelActor ?a = None" using assms(10-12) by (simp add: validateCancelActor_def)
  note out = ms.cancel_effect [OF assms(2) run, simplified v]
  have "ok res"
    using ms.cancel_succeeds [OF assms(2) v, where oid = oid and order = order and d = "en_draws env" and corr = ?cid]
      assms(13,14) run by simp
  then obtain ord where res: "res = Inr ord" by (cases res) auto
  have run': "Service_CancelOrderContext (srv_store s) (en_draws env) oid ?cid ?a (hx_service z) = (res, sv)"
    using run assms(1) z(3) by simp
  note fin = finish_cancel_result [OF z(2) run', where rid = ?rid, folded eq]
  have "rec_status (hx_rec (ServeHTTP s codec env r x)) = 202"
    unfolding eq using z(2,3) run res assms(1)
    by (simp add: finish_cancel_def blank_def writeJSON_def set_header_def statusRecorder_Write_def WriteHeader_def Let_def)
  moreover from out res fin(1) assms(13) obtain mid where "recorded oid (moves_to StatusCancellationPending)
      [cancel_event mid oid ?cid (dr_clock (en_draws env) 0) ?a order]
      (cancel_audit oid ?cid (dr_clock (en_draws env) 0) ?a order) (ms_view (sv_store (hx_service x)))
      (ms_view (sv_store (hx_service (ServeHTTP s codec env r x))))" by auto
  ultimately show ?thesis
    by (intro exI [of _ "cancel_event mid oid ?cid (dr_clock (en_draws env) 0) ?a order"]
        exI [of _ "cancel_audit oid ?cid (dr_clock (en_draws env) 0) ?a order"])
      (simp add: cancel_event_def cancel_audit_def)
qed

end
