(* ===== verification/Pg_Properties.thy ===== *)
theory Pg_Properties
  imports Pg_Reservation Pg_Leases Pg_Creation Api_Properties
begin

text \<open>
  What the program guarantees on the PostgreSQL store, also when the connection fails at any
  statement: calls are atomic and follow the order machine, stock is conserved, repeated creations
  make one order, merchants are separated, claimed events are leased, published events were
  handed to the broker, and consumed messages are handled once.
\<close>

lemmas pg_dispatch_isolated = tenant_store.dispatch_isolated [OF pg.tenant_store_axioms]

subsection \<open>A sample database\<close>

text \<open>A small encoding of events: each field with its characters marked, numbers as tallies.\<close>

fun mark_string :: "string \<Rightarrow> string" where
  "mark_string [] = ''.''"
| "mark_string (c # cs) = CHR ''x'' # c # mark_string cs"

fun unmark_string :: "string \<Rightarrow> string \<times> string" where
  "unmark_string (a # c # rest) =
     (if a = CHR ''x'' then (let (s, tail) = unmark_string rest in (c # s, tail)) else ([], c # rest))"
| "unmark_string rest = ([], [])"

lemma unmark_mark: "unmark_string (mark_string s @ rest) = (s, rest)"
  by (induction s) (cases rest; simp)+

definition tally :: "int \<Rightarrow> string" where
  "tally n = (if n < 0 then ''-'' else ''+'') @ replicate (nat \<bar>n\<bar>) (CHR ''1'')"

definition untally :: "string \<Rightarrow> int" where
  "untally s = (if take 1 s = ''-'' then - int (length s - 1) else int (length s - 1))"

lemma untally_tally [simp]: "untally (tally n) = n"
  by (simp add: tally_def untally_def)

fun unmark_all :: "nat \<Rightarrow> string \<Rightarrow> string list" where
  "unmark_all 0 s = []"
| "unmark_all (Suc n) s = (case unmark_string s of (x, rest) \<Rightarrow> x # unmark_all n rest)"

lemma unmark_all_marked: "unmark_all (length xs) (concat (map mark_string xs)) = xs"
  by (induction xs) (simp_all add: unmark_mark)

definition sample_fields_of :: "OutboxEvent \<Rightarrow> string list" where
  "sample_fields_of e = [e_MessageID e, e_EventType e, tally (e_SchemaVersion e), tally (e_OccurredAt e), e_Producer e,
     e_MerchantID e, e_OrderID e, e_CorrelationID e, e_CausationID e]"

definition sample_event_in :: "string \<Rightarrow> error + OutboxEvent" where
  "sample_event_in s = (case unmark_all 9 s of
     [mid, typ, version, at, producer, merchant, order, corr, cause] \<Rightarrow>
       Inr \<lparr>e_MessageID = mid, e_EventType = typ, e_SchemaVersion = untally version, e_OccurredAt = untally at,
         e_Producer = producer, e_MerchantID = merchant, e_OrderID = order, e_CorrelationID = corr,
         e_CausationID = cause, e_Payload = []\<rparr>
   | _ \<Rightarrow> Inl (ErrorString ''unexpected end of JSON input''))"

definition sample_pg :: pg_params where
  "sample_pg = \<lparr>text_ok = (\<lambda>s. CHR 0x00 \<notin> set s),
     event_out = (\<lambda>e. Inr (concat (map mark_string (sample_fields_of e)))), event_in = sample_event_in,
     details_out = (\<lambda>d. Inr ''{}''), details_in = (\<lambda>s. Inr []), jsonb = Inr,
     by_occurred_at = sort_key xb_occurred_at, returning = id\<rparr>"

lemma sample_pg_simps [simp]:
  "text_ok sample_pg s \<longleftrightarrow> CHR 0x00 \<notin> set s"
  "event_out sample_pg e = Inr (concat (map mark_string (sample_fields_of e)))" "event_in sample_pg = sample_event_in"
  "details_out sample_pg d = Inr ''{}''" "details_in sample_pg s = Inr []" "jsonb sample_pg s = Inr s"
  "by_occurred_at sample_pg = sort_key xb_occurred_at" "returning sample_pg = id"
  by (simp_all add: sample_pg_def)

lemma sample_event_in_out: "sample_event_in (concat (map mark_string (sample_fields_of e))) = Inr (e\<lparr>e_Payload := []\<rparr>)"
proof -
  have "unmark_all 9 (concat (map mark_string (sample_fields_of e))) = sample_fields_of e"
    using unmark_all_marked [of "sample_fields_of e"] by (simp add: sample_fields_of_def eval_nat_numeral)
  then show ?thesis by (simp add: sample_event_in_def sample_fields_of_def)
qed

lemma sample_json_ok: "json_ok sample_pg"
  unfolding json_ok_def
proof (intro allI impI)
  fix e payload document
  assume "event_out sample_pg e = Inr payload" "jsonb sample_pg payload = Inr document"
  then have d: "document = concat (map mark_string (sample_fields_of e))" by simp
  have "mark_string (e_MessageID e) \<noteq> []" by (cases "e_MessageID e") auto
  with d have "document \<noteq> []" by (simp add: sample_fields_of_def)
  then show "document \<noteq> [] \<and> (\<exists>e'. event_in sample_pg document = Inr e' \<and> same_envelope sample_pg e e')"
    by (simp add: d sample_event_in_out same_envelope_def)
qed

lemma sample_planner_ok: "planner_ok sample_pg"
  by (simp add: planner_ok_def)

text \<open>Merchant \<open>m1\<close> with a warehouse that holds five of \<open>sku-1\<close>, and its order for two of them.\<close>

definition empty_db :: database where
  "empty_db = \<lparr>merchants = [], orders_t = [], order_items = [], idempotency_keys = [], outbox_events = [],
     inbox_messages = [], audit_logs = [], stock_reservations = [], payment_authorizations = [], shipments = [],
     notification_events = [], compensation_events = [], warehouses = [], inventory_items = []\<rparr>"

definition sample_created :: OutboxEvent where
  "sample_created = WithEnvelopeDefaults (sample_event ''msg_1'' ''order.created'')"

definition sample_db :: database where
  "sample_db = empty_db\<lparr>merchants := [''m1''], orders_t := [stored_row ''m1'' sample_order],
     order_items := map (stored_item ''ord_1'') (o_Items sample_order),
     idempotency_keys := [stored_key ''m1'' ''key-000000001'' ''ord_1''],
     outbox_events := [row_of_event sample_created (concat (map mark_string (sample_fields_of sample_created)))],
     warehouses := [\<lparr>wh_id = ''wh_1'', wh_merchant_id = ''m1'', wh_status = ''active''\<rparr>],
     inventory_items := [\<lparr>iv_warehouse_id = ''wh_1'', iv_sku = ''sku-1'', iv_available_quantity = 5,
       iv_reserved_quantity = 0, iv_updated_at = 0\<rparr>]\<rparr>"

definition lost :: "bool \<Rightarrow> fault option" where
  "lost applied = Some (DriverError ''connection lost'', applied)"

definition sample_session :: "fault option list \<Rightarrow> pg" where
  "sample_session faults = \<lparr>pg_db = sample_db, pg_faults = faults\<rparr>"

lemma sample_session_simps [simp]: "pg_db (sample_session faults) = sample_db" "pg_faults (sample_session faults) = faults"
  by (simp_all add: sample_session_def)

lemma sample_db_simps [simp]:
  "merchants sample_db = [''m1'']" "orders_t sample_db = [stored_row ''m1'' sample_order]"
  "database.order_items sample_db = [stored_item ''ord_1'' sample_item]"
  "idempotency_keys sample_db = [stored_key ''m1'' ''key-000000001'' ''ord_1'']"
  "outbox_events sample_db = [row_of_event sample_created (concat (map mark_string (sample_fields_of sample_created)))]"
  "inbox_messages sample_db = []" "audit_logs sample_db = []" "stock_reservations sample_db = []" "shipments sample_db = []"
  "warehouses sample_db = [\<lparr>wh_id = ''wh_1'', wh_merchant_id = ''m1'', wh_status = ''active''\<rparr>]"
  "inventory_items sample_db = [\<lparr>iv_warehouse_id = ''wh_1'', iv_sku = ''sku-1'', iv_available_quantity = 5,
     iv_reserved_quantity = 0, iv_updated_at = 0\<rparr>]"
  by (simp_all add: sample_db_def empty_db_def sample_order_def)

lemma sample_order_id [simp]: "o_OrderID sample_order = ''ord_1''" "o_MerchantID sample_order = ''m1''"
  by (simp_all add: sample_order_def)

lemma sample_currency: "bpchar3 ''USD'' = ''USD''"
  by code_simp

lemma sample_row:
  "stored_row ''m1'' sample_order = (row_of_order ''m1'' sample_order)"
  by (simp add: stored_row_def row_of_order_def sample_order_def sample_currency)

lemma sample_row_fields [simp]:
  "ow_order_id (stored_row ''m1'' sample_order) = ''ord_1''" "ow_merchant_id (stored_row ''m1'' sample_order) = ''m1''"
  "ow_external_order_id (stored_row ''m1'' sample_order) = ''ext-1''"
  "ow_status (stored_row ''m1'' sample_order) = StatusPendingFulfillment"
  by (simp_all add: sample_row row_of_order_def) (simp_all add: sample_order_def)

lemma sample_checks: "list_all fst (order_checks sample_pg (stored_row ''m1'' sample_order))"
  unfolding sample_row by code_simp

lemma sample_wf: "wf_db sample_pg sample_db"
  using sample_checks by (simp add: wf_db_def order_ids_def stored_item_def row_of_item_def stored_key_def)

lemma sample_stock: "stock_ok sample_db"
  by (simp add: stock_ok_def reserved_in_def)

lemma sample_created_fields: "e_MessageID sample_created = ''msg_1''"
  by (simp add: sample_created_def sample_event_def)

lemma sample_scan:
  "scanOutboxEvent sample_pg (row_of_event sample_created (concat (map mark_string (sample_fields_of sample_created)))) = Inr e \<Longrightarrow>
   e_MessageID e = ''msg_1''"
proof -
  let ?payload = "concat (map mark_string (sample_fields_of sample_created))"
  assume scan: "scanOutboxEvent sample_pg (row_of_event sample_created ?payload) = Inr e"
  have same: "(row_of_event sample_created ?payload)\<lparr>xb_payload := ?payload\<rparr> = row_of_event sample_created ?payload"
    by (simp add: row_of_event_def)
  have "\<exists>e'. scanOutboxEvent sample_pg ((row_of_event sample_created ?payload)\<lparr>xb_payload := ?payload\<rparr>) = Inr (WithEnvelopeDefaults e') \<and>
      e_MessageID e' = e_MessageID sample_created"
    using scan_written [OF sample_json_ok, of sample_created ?payload ?payload]
    by (auto simp: sample_created_def sample_event_def)
  with scan same sample_created_fields show ?thesis by auto
qed

lemma sample_outbox: "outbox_ok sample_pg sample_db"
  using sample_scan by (auto simp: outbox_ok_def row_of_event_def [of sample_created] sample_created_fields)

lemma sample_outbox_session: "pg_outbox_ok sample_pg (sample_session faults)"
  by (simp add: pg_outbox_ok_def sample_planner_ok sample_outbox)

subsection \<open>Properties\<close>

text \<open>
  C1. Calls on the PostgreSQL store are atomic and follow the order machine, whatever faults the
  connection has: a call on a well-formed database leaves it well-formed and takes at most one
  step of the abstract order machine. It leaves the database of the same call over a working connection
  or, when it reports an error, possibly the database it found, and a success it reports is the success
  of that call.
\<close>

theorem pg_calls_atomic:
  assumes "wf_db p (pg_db s)" "call_ok (pg_view p) c s" "pg_exec p c s = (r, s')"
  shows "wf_db p (pg_db s') \<and> ledger_step (pg_view p s) (pg_view p s') \<and>
    (\<exists>r0 db. pg_exec p c (quiet (pg_db s)) = (r0, quiet db) \<and>
       (if ok r then r0 = r \<and> pg_db s' = db else pg_db s' = pg_db s \<or> pg_db s' = db))"
proof -
  obtain r0 s0 where calm: "pg_exec p c (quiet (pg_db s)) = (r0, s0)" by fastforce
  note a = atomicD [OF atomic_exec assms(3) calm]
  have "call_ok (pg_view p) c (quiet (pg_db s))" using assms(2) by (cases c) simp_all
  from pg.exec_call_step [OF _ this calm] assms(1)
  have s0: "wf_db p (pg_db s0)" "ledger_step (pg_view p s) (pg_view p s0)" by (simp_all add: step_spec_def pg_inv_def)
  have "wf_db p (pg_db s') \<and> ledger_step (pg_view p s) (pg_view p s')"
    using a(3)
  proof
    assume db: "pg_db s' = pg_db s"
    with assms(1) same_db(2) [OF db, of p] show ?thesis by (simp add: ledger_step.stutter)
  next
    assume db: "pg_db s' = pg_db s0"
    with s0 same_db(2) [OF db, of p] show ?thesis by simp
  qed
  moreover have "s0 = quiet (pg_db s0)" using a(1) by simp
  ultimately show ?thesis using a calm by (intro conjI exI [of _ r0] exI [of _ "pg_db s0"]) auto
qed

definition sample_reserve :: store_call where
  "sample_reserve = CInventoryReserved (sample_event ''msg_1'' ''order.created'')
     (sample_event ''msg_2'' ''inventory.reserved'') sample_audit"

theorem pg_calls_atomic_witness:
  "\<exists>r s'. pg_exec sample_pg sample_reserve (sample_session [None, None, lost True]) = (r, s') \<and>
     wf_db sample_pg (pg_db s') \<and> ledger_step (pg_view sample_pg (sample_session [])) (pg_view sample_pg s')"
proof -
  let ?s = "sample_session [None, None, lost True]"
  obtain r s' where e: "pg_exec sample_pg sample_reserve ?s = (r, s')" by (rule prod.exhaust)
  have "call_ok (pg_view sample_pg) sample_reserve ?s" by (simp add: sample_reserve_def)
  from pg_calls_atomic [OF _ this e] sample_wf
  have "wf_db sample_pg (pg_db s') \<and> ledger_step (pg_view sample_pg ?s) (pg_view sample_pg s')" by simp
  moreover have "pg_view sample_pg ?s = pg_view sample_pg (sample_session [])" by (simp add: pg_view_def)
  ultimately show ?thesis using e by auto
qed

text \<open>
  C2. Stock is never oversold and never lost: starting from consistent stock, after any sequence
  of calls on the store under any faults, every inventory row has a non-negative available quantity,
  its reserved quantity is the sum of the active reservations of its warehouse and SKU, and
  available and reserved quantity together are what they were at the start.
\<close>

theorem stock_conserved:
  assumes "stock_ok (pg_db s)"
  shows "stock_ok (pg_db (pg_run p cs s)) \<and> on_hand (pg_db (pg_run p cs s)) = on_hand (pg_db s)"
  using stock.run_keeps [where levels = "on_hand (pg_db s)" and s = s and p = p and cs = cs] assms by simp

theorem stock_conserved_witness:
  "on_hand (pg_db (pg_run sample_pg [sample_reserve, sample_reserve] (sample_session [None, lost False]))) = [((''wh_1'', ''sku-1''), 5)]"
  using stock_conserved [of "sample_session [None, lost False]" sample_pg "[sample_reserve, sample_reserve]"] sample_stock
  by (simp add: on_hand_def inventory_key_def del: run_calls.simps)

text \<open>
  C17. Stock follows the order. When a reservation is recorded, every item of the order (one per SKU)
  has an active reservation of its quantity; when a cancellation, or the compensation of a failed
  payment or shipment, is recorded, no reservation of the order is active any more.
\<close>

theorem stock_follows_order:
  "(pg_RecordInventoryReserved p source nxt audit s = (Inr (), s') \<and> distinct (map fst (wanted (e_OrderID source) (pg_db s))) \<longrightarrow>
      (\<forall>item\<in>set (wanted (e_OrderID source) (pg_db s)). reserved_for (e_OrderID source) item (stock_reservations (pg_db s')))) \<and>
   (pg_RecordOrderCancelled p source nxt audit s = (Inr (), s') \<longrightarrow>
      holds_nothing (e_OrderID source) (stock_reservations (pg_db s'))) \<and>
   (pg_RecordCompensation p source status audit s = (Inr (), s') \<and>
      e_EventType source \<in> {''payment.failed'', ''shipment.failed''} \<longrightarrow>
      holds_nothing (e_OrderID source) (stock_reservations (pg_db s')))"
  using reserved_all_items [of p source nxt audit s s'] cancelled_holds_nothing [of p source nxt audit s s']
    compensated_holds_nothing [of p source status audit s s']
  by (auto simp: all_reserved_def)

lemma sample_reserved:
  "ok (fst (pg_RecordInventoryReserved sample_pg (sample_event ''msg_1'' ''order.created'')
     (sample_event ''msg_2'' ''inventory.reserved'') sample_audit (sample_session [])))"
  by code_simp

theorem stock_follows_order_witness:
  "\<exists>s'. pg_RecordInventoryReserved sample_pg (sample_event ''msg_1'' ''order.created'')
       (sample_event ''msg_2'' ''inventory.reserved'') sample_audit (sample_session []) = (Inr (), s') \<and>
     reserved_for ''ord_1'' (''sku-1'', 2) (stock_reservations (pg_db s'))"
proof -
  let ?source = "sample_event ''msg_1'' ''order.created''" and ?next = "sample_event ''msg_2'' ''inventory.reserved''"
  obtain s' where run: "pg_RecordInventoryReserved sample_pg ?source ?next sample_audit (sample_session []) = (Inr (), s')"
    using sample_reserved by (cases "pg_RecordInventoryReserved sample_pg ?source ?next sample_audit (sample_session [])") (auto simp: ok_def split: sum.splits)
  have "e_OrderID ?source = ''ord_1''" "wanted ''ord_1'' (pg_db (sample_session [])) = [(''sku-1'', 2)]"
    by (simp_all add: sample_event_def wanted_def stored_item_def row_of_item_def sample_item_def)
  with run stock_follows_order [of sample_pg ?source ?next sample_audit "sample_session []" s'] show ?thesis by auto
qed

text \<open>
  C5. Creation on the PostgreSQL store happens at most once under retries: from a database without
  the idempotency key, however often a client repeats a creation under that key, and at whatever
  statement each attempt loses its connection, either every attempt reports an error and
  the database is as before, or exactly one order is stored with its key, event and audit log, every attempt that
  reports success answers with that order, at most one of them as new, and a further valid attempt over a
  working connection answers with it.
\<close>

theorem pg_creation_at_most_once:
  assumes "wf_db p (pg_db (sv_store sv))" "pg_key_ref (sv_store sv) m k = None" "attempts p m k ts sv = (rs, sv')"
  shows "pg_db (sv_store sv') = pg_db (sv_store sv) \<and> (\<forall>r\<in>set rs. \<not> ok r) \<or>
    (\<exists>order event audit. stored order event audit (pg_view p (sv_store sv)) (pg_view p (sv_store sv')) \<and>
       pg_key_ref (sv_store sv') m k = Some (o_OrderID order) \<and> list_all (answers_for (o_OrderID order)) rs \<and> new_orders rs \<le> 1 \<and>
       (\<forall>d corr req. validateCreateOrder m k req = None \<longrightarrow>
          (\<exists>old sv''. Service_CreateOrderContext (pg_Store p) d m k corr req (over_connection [] sv') = (Inr (Some old, True), sv'') \<and>
             o_OrderID old = o_OrderID order)))"
  using attempts_once [OF assms]
proof (elim disjE exE conjE)
  fix order event audit
  assume o: "wf_db p (pg_db (sv_store sv'))" "stored order event audit (pg_view p (sv_store sv)) (pg_view p (sv_store sv'))"
    "pg_key_ref (sv_store sv') m k = Some (o_OrderID order)" "list_all (answers_for (o_OrderID order)) rs" "new_orders rs \<le> 1"
  have "\<exists>old sv''. Service_CreateOrderContext (pg_Store p) d m k corr req (over_connection [] sv') = (Inr (Some old, True), sv'') \<and>
      o_OrderID old = o_OrderID order" if "validateCreateOrder m k req = None" for d corr req
    using attempt_replayed [OF o(1,3) that, of d corr] by blast
  with o(2-5) show ?thesis by blast
qed blast

definition sample_attempt :: "fault option list \<Rightarrow> attempt" where
  "sample_attempt faults = \<lparr>try_draws = sample_draws, try_correlation = ''corr'', try_command = sample_cmd 2 500, try_faults = faults\<rparr>"

theorem pg_creation_at_most_once_witness:
  "\<exists>rs sv'. attempts sample_pg ''m1'' ''key-000000002'' [sample_attempt [None, lost True], sample_attempt []]
       \<lparr>sv_counter = 0, sv_store = sample_session []\<rparr> = (rs, sv') \<and>
     ((\<forall>r\<in>set rs. \<not> ok r) \<or> (\<exists>oid. list_all (answers_for oid) rs \<and> new_orders rs \<le> 1))"
proof -
  let ?sv = "\<lparr>sv_counter = 0, sv_store = sample_session []\<rparr>"
  obtain rs sv' where run: "attempts sample_pg ''m1'' ''key-000000002'' [sample_attempt [None, lost True], sample_attempt []] ?sv = (rs, sv')"
    by (rule prod.exhaust)
  have "wf_db sample_pg (pg_db (sv_store ?sv))" "pg_key_ref (sv_store ?sv) ''m1'' ''key-000000002'' = None"
    using sample_wf by (simp_all add: pg_key_ref_def stored_key_def)
  from pg_creation_at_most_once [OF this run] run show ?thesis by blast
qed

text \<open>
  C37. Two creations that race are kept apart by the constraints: when another transaction has
  committed the same idempotency key, or an order of the merchant with the same external id,
  after the look-up of the key, the insertion reports an error and leaves the other's database as it is.
\<close>

theorem racing_creation_refused:
  assumes "pg_key_ref s m k \<noteq> None \<or> pg_ext_ref s m (o_ExternalOrderID order) \<noteq> None"
    and "transaction b c (insert_new_order p m k order event audit) s = (r, s')"
  shows "\<not> ok r \<and> pg_db s' = pg_db s"
proof -
  have "key_taken m k (pg_db s) \<or> external_taken m (o_ExternalOrderID order) (pg_db s)"
    using assms(1) by (auto simp: pg_key_ref_def pg_ext_ref_def key_taken_def external_taken_def find_None_iff list_ex_iff)
  then show ?thesis
    using transaction_void [OF insert_over_key _ assms(2)] transaction_void [OF insert_over_external _ assms(2)] by blast
qed

theorem racing_creation_refused_witness:
  "\<exists>r s'. transaction ''begin insert order'' (\<lambda>_. ''commit insert order'') (insert_new_order sample_pg ''m1'' ''key-000000001''
       (sample_order\<lparr>o_OrderID := ''ord_2'', o_ExternalOrderID := ''ext-2''\<rparr>) sample_created sample_audit) (sample_session []) = (r, s') \<and>
     \<not> ok r \<and> pg_db s' = sample_db"
proof -
  let ?o = "sample_order\<lparr>o_OrderID := ''ord_2'', o_ExternalOrderID := ''ext-2''\<rparr>"
  obtain r s' where run: "transaction ''begin insert order'' (\<lambda>_. ''commit insert order'')
      (insert_new_order sample_pg ''m1'' ''key-000000001'' ?o sample_created sample_audit) (sample_session []) = (r, s')"
    by (rule prod.exhaust)
  have "pg_key_ref (sample_session []) ''m1'' ''key-000000001'' \<noteq> None" by (simp add: pg_key_ref_def stored_key_def)
  with racing_creation_refused [OF _ run] run show ?thesis by auto
qed

text \<open>
  C16. On the PostgreSQL store merchants are separated without any condition on their ids: a
  request with the API key of a merchant, over a working connection, changes no order of another
  merchant, only appends events and audit logs of its own merchant, and shows only orders and
  shipments of that merchant. The drawn order id is taken to be unused.
\<close>

theorem pg_tenant_isolation:
  assumes "srv_store s = pg_Store p" "pg_inv p (sv_store (hx_service x))" "pg_owned (sv_store (hx_service x))"
    and "Header_Get r ''X-Api-Key'' \<noteq> []" "mapget (srv_apiKeys s) (Header_Get r ''X-Api-Key'') = Some m"
    and "lg_orders (pg_view p (sv_store (hx_service x))) (drawn_order_id (en_draws env) (hx_service x)) = None"
  shows "isolated (pg_inv p) pg_owned (pg_view p) m x (ServeHTTP s codec env r x)"
proof -
  obtain y where y: "blank (hx_errors x) y" "hx_service y = hx_service x"
    "ServeHTTP s codec env r x = dispatch s codec env r (request_id r x) (correlation_id r x) y"
    using ServeHTTP_dispatch by blast
  have "credential s codec env r = Some (merchant_actor m)" using assms(4,5) by (simp add: credential_def)
  then have "isolated (pg_inv p) pg_owned (pg_view p) m y (dispatch s codec env r (request_id r x) (correlation_id r x) y)"
    using assms(1-3,6) y(1,2) by (intro pg_dispatch_isolated) (auto simp: merchant_actor_def)
  then show ?thesis using y(2,3) by (simp add: isolated_def)
qed

definition sample_pg_options :: "(pg, unit) Options" where
  "sample_pg_options = \<lparr>op_RateLimiter = None, op_OpsJWTSecret = ''new'', op_OpsJWTPreviousSecrets = [],
     op_OpsJWTIssuer = ''idp'', op_OpsJWTAudience = ''api'', op_QueueMetrics = None, op_OutboxBacklog = None,
     op_SagaMetrics = None, op_MetricsBearerToken = [], op_ReadinessChecks = [],
     op_APIKeys = [(''key-1'', ''m1'')], op_AllowLocalOpsToken = False, op_MaxRequestBodyBytes = 0\<rparr>"

definition sample_pg_server :: "(pg, unit) Server" where
  "sample_pg_server = NewServerWithOptions (pg_Store sample_pg) sample_pg_options"

definition sample_pg_hx :: "(pg, unit) hx" where
  "sample_pg_hx = \<lparr>hx_service = \<lparr>sv_counter = 0, sv_store = sample_session []\<rparr>, hx_limiter = (), hx_counter = 0,
     hx_requests = 0, hx_errors = 0, hx_actor = \<lparr>qs_ActorType = [], qs_ActorID = [], qs_MerchantID = []\<rparr>,
     hx_rec = fresh_recorder\<rparr>"

lemma sample_pg_view: "lg_orders (pg_view sample_pg (sample_session [])) oid = None \<longleftrightarrow> oid \<noteq> ''ord_1''"
  by (auto simp: pg_view_def db_view_def order_at_def)

theorem pg_tenant_isolation_witness:
  "isolated (pg_inv sample_pg) pg_owned (pg_view sample_pg) ''m1'' sample_pg_hx
     (ServeHTTP sample_pg_server sample_codec sample_env (sample_cancel [(''X-Api-Key'', ''key-1'')]) sample_pg_hx)"
proof (rule pg_tenant_isolation)
  have "drawn_order_id sample_draws \<lparr>sv_counter = 0, sv_store = sample_session []\<rparr> \<noteq> ''ord_1''"
    unfolding drawn_order_id_def sample_draws_def by code_simp
  then show "lg_orders (pg_view sample_pg (sv_store (hx_service sample_pg_hx)))
      (drawn_order_id (en_draws sample_env) (hx_service sample_pg_hx)) = None"
    by (simp add: sample_pg_hx_def sample_env_def sample_pg_view)
  show "pg_owned (sv_store (hx_service sample_pg_hx))"
    by (simp add: sample_pg_hx_def pg_owned_def order_at_def stored_key_def order_of_rows_def)
qed (simp_all add: sample_pg_server_def NewServerWithOptions_def sample_pg_options_def sample_pg_hx_def pg_inv_def sample_wf
    sample_cancel_def Header_Get_def mapstr_def)

text \<open>
  C6. The relay publishes the outbox of the PostgreSQL store at least once, whatever the broker, the
  clock and the database connection do: a message is marked as published only after it was handed
  to the broker, only unmarked messages of the outbox are marked, and no event is lost or changed. Of the planner
  it is assumed that a query returns its rows.
\<close>

theorem pg_relay_at_least_once:
  assumes "rl_Source r = pg_Outbox p" "rl_Publisher r = RabbitPublisher_Publish marshal inject"
    and "planner_ok p" "outbox_ok p (pg_db s)" "Relay_RunOnce r wall limit s ch = (res, s', ch')"
  shows "\<exists>ids. pg_published s' = pg_published s \<union> ids \<and> ids \<subseteq> e_MessageID ` set (pg_events p s) \<and>
    ids \<inter> pg_published s = {} \<and> ids \<subseteq> rabbit_sent ch' \<and> rabbit_sent ch \<subseteq> rabbit_sent ch' \<and>
    outbox_ok p (pg_db s') \<and> pg_events p s' = pg_events p s"
proof -
  have "pg_outbox_ok p s" using assms(3,4) by (simp add: pg_outbox_ok_def)
  from pg_rabbit.run_once [OF assms(1,2) this assms(5)] show ?thesis unfolding pg_outbox_ok_def by blast
qed

definition sample_pg_relay :: "(pg, amqp_channel) Relay" where
  "sample_pg_relay = \<lparr>rl_Source = pg_Outbox sample_pg, rl_Publisher = RabbitPublisher_Publish sample_marshal id, rl_Clock = None\<rparr>"

theorem pg_relay_at_least_once_witness:
  "\<exists>res s' ch'. Relay_RunOnce sample_pg_relay (\<lambda>_. 5) 10 (sample_session [None, lost True]) sample_channel = (res, s', ch') \<and>
     pg_published s' \<subseteq> rabbit_sent ch' \<and> pg_events sample_pg s' = pg_events sample_pg (sample_session [])"
proof -
  let ?s = "sample_session [None, lost True]"
  obtain res s' ch' where run: "Relay_RunOnce sample_pg_relay (\<lambda>_. 5) 10 ?s sample_channel = (res, s', ch')"
    by (metis prod.exhaust)
  have "pg_published ?s = {}" by (simp add: pg_published_def row_of_event_def [of sample_created])
  moreover have "pg_events sample_pg ?s = pg_events sample_pg (sample_session [])" by (simp add: pg_events_def)
  ultimately have "pg_published s' \<subseteq> rabbit_sent ch' \<and> pg_events sample_pg s' = pg_events sample_pg (sample_session [])"
    using pg_relay_at_least_once [OF _ _ sample_planner_ok _ run, of sample_marshal id] sample_outbox
    by (auto simp: sample_pg_relay_def)
  with run show ?thesis by blast
qed

text \<open>
  C38. An event survives the outbox table: a successful insertion appends one row, and that row
  is read back, as the relay reads it, as an event with the same ids, type, schema version and (unless it is the
  zero time) time, with the producer when it is valid text, and with its envelope complete. Of
  \<open>encoding/json\<close> and the JSONB column it is assumed that a stored document decodes.
\<close>

theorem outbox_row_round_trip:
  assumes "json_ok p" "insertOutboxEvent p event s = (Inr (), s')"
  shows "\<exists>row e. outbox_events (pg_db s') = outbox_events (pg_db s) @ [row] \<and> xb_published_at row = None \<and>
    xb_claimed_until row = None \<and> scanOutboxEvent p row = Inr e \<and> WithEnvelopeDefaults e = e \<and>
    e_MessageID e = e_MessageID event \<and> e_EventType e = e_EventType event \<and> e_OrderID e = e_OrderID event \<and>
    e_MerchantID e = e_MerchantID event \<and> e_CorrelationID e = e_CorrelationID event \<and>
    e_CausationID e = e_CausationID (WithEnvelopeDefaults event) \<and>
    e_SchemaVersion e = e_SchemaVersion (WithEnvelopeDefaults event) \<and>
    (\<not> IsZero (e_OccurredAt event) \<longrightarrow> e_OccurredAt e = e_OccurredAt event) \<and>
    (text_ok p (e_Producer (WithEnvelopeDefaults event)) \<longrightarrow> e_Producer e = e_Producer (WithEnvelopeDefaults event))"
proof -
  let ?e = "WithEnvelopeDefaults event"
  from insert_event_row [OF assms(2)] obtain payload document where out: "event_out p ?e = Inr payload" "jsonb p payload = Inr document"
    and texts: "list_all (text_ok p) [e_MessageID ?e, e_CorrelationID ?e, e_CausationID ?e, e_EventType ?e, e_OrderID ?e, e_MerchantID ?e]"
    and rows: "outbox_events (pg_db s') = outbox_events (pg_db s) @ [(row_of_event ?e payload)\<lparr>xb_payload := document\<rparr>]" by blast
  obtain e' where e': "scanOutboxEvent p ((row_of_event ?e payload)\<lparr>xb_payload := document\<rparr>) = Inr (WithEnvelopeDefaults e')"
    "e_MessageID e' = e_MessageID ?e" "e_CorrelationID e' = e_CorrelationID ?e" "e_CausationID e' = e_CausationID ?e"
    "e_EventType e' = e_EventType ?e" "e_OrderID e' = e_OrderID ?e" "e_MerchantID e' = e_MerchantID ?e"
    "\<not> IsZero (e_OccurredAt ?e) \<longrightarrow> e_OccurredAt e' = e_OccurredAt ?e" "e_SchemaVersion e' = e_SchemaVersion ?e"
    "text_ok p (e_Producer ?e) \<longrightarrow> e_Producer e' = e_Producer ?e"
    using scan_written [OF assms(1) out texts] by blast
  have kept: "e_CausationID (WithEnvelopeDefaults e') = e_CausationID ?e" "e_SchemaVersion (WithEnvelopeDefaults e') = e_SchemaVersion ?e"
    "text_ok p (e_Producer ?e) \<longrightarrow> e_Producer (WithEnvelopeDefaults e') = e_Producer ?e"
    using e'(2,4,9,10) by (auto simp: EventSchemaVersion_def)
  have free: "xb_published_at ((row_of_event ?e payload)\<lparr>xb_payload := document\<rparr>) = None"
    "xb_claimed_until ((row_of_event ?e payload)\<lparr>xb_payload := document\<rparr>) = None" by (simp_all add: row_of_event_def)
  show ?thesis
    by (rule exI [of _ "(row_of_event ?e payload)\<lparr>xb_payload := document\<rparr>"], rule exI [of _ "WithEnvelopeDefaults e'"])
      (intro conjI rows free e'(1) WithEnvelopeDefaults_idem kept, use e' in simp_all)
qed

theorem outbox_row_round_trip_witness:
  "\<exists>s' row e. insertOutboxEvent sample_pg (sample_event ''msg_2'' ''inventory.reserved'') (sample_session []) = (Inr (), s') \<and>
     outbox_events (pg_db s') = outbox_events sample_db @ [row] \<and> scanOutboxEvent sample_pg row = Inr e \<and>
     e_MessageID e = ''msg_2'' \<and> e_EventType e = ''inventory.reserved''"
proof -
  let ?event = "sample_event ''msg_2'' ''inventory.reserved''"
  have "ok (fst (insertOutboxEvent sample_pg ?event (sample_session [])))" by code_simp
  then obtain s' where run: "insertOutboxEvent sample_pg ?event (sample_session []) = (Inr (), s')"
    by (cases "insertOutboxEvent sample_pg ?event (sample_session [])") (auto simp: ok_def split: sum.splits)
  have "e_MessageID ?event = ''msg_2''" "e_EventType ?event = ''inventory.reserved''" by (simp_all add: sample_event_def)
  with outbox_row_round_trip [OF sample_json_ok run] run show ?thesis by (auto simp del: sample_db_simps)
qed

text \<open>
  C8. Outbox rows are leased: a message handed out at time \<open>now\<close> is not handed out again before
  thirty seconds have passed, whatever calls on the store come in between and whatever faults they meet. A claim that may
  take all rows hands out every row that is neither published nor under a lease.
\<close>

theorem pg_leases_exclude_and_expire:
  assumes "json_ok p" "planner_ok p" "outbox_ok p (pg_db s)"
    and "pg_PendingOutboxEvents p now limit s = (Inr es, s1)" "e \<in> set es"
    and "pg_PendingOutboxEvents p now' limit' (pg_run p cs s1) = (Inr es', s2)"
  shows "(now' < now + 30 * Second \<longrightarrow> e_MessageID e \<notin> e_MessageID ` set es') \<and>
    (int (length (outbox_events (pg_db (pg_run p cs s1)))) \<le> limit' \<longrightarrow>
      (\<forall>r\<in>set (outbox_events (pg_db (pg_run p cs s1))). xb_published_at r = None \<and>
         (\<forall>until. xb_claimed_until r = Some until \<longrightarrow> until \<le> now') \<longrightarrow> xb_message_id r \<in> e_MessageID ` set es'))"
proof -
  have free: "xb_published_at r = None \<and> (\<forall>until. xb_claimed_until r = Some until \<longrightarrow> until \<le> now') \<longleftrightarrow> claimable now' r" for r
    by (auto simp: claimable_def split: option.splits)
  have ok: "pg_outbox_ok p s" using assms(2,3) by (simp add: pg_outbox_ok_def)
  have "outbox_inv p (pg_db s1)" using pg_pending_contract [OF ok assms(4)] assms(1) by (simp add: pg_outbox_ok_def)
  then have ok': "pg_outbox_ok p (pg_run p cs s1)" using outbox.run_keeps [of p s1 cs] assms(2) by (simp add: pg_outbox_ok_def)
  have lease: "lease_ok (e_MessageID e) (now + 30 * Second) (pg_db (pg_run p cs s1))"
    using lease.run_keeps [OF claimed_held [OF ok assms(4,5)]] by simp
  have "e_MessageID e \<notin> e_MessageID ` set es'" if "now' < now + 30 * Second"
  proof
    assume "e_MessageID e \<in> e_MessageID ` set es'"
    then obtain e' where e': "e' \<in> set es'" "e_MessageID e' = e_MessageID e" by auto
    from pg_pending_handed [OF ok' assms(6) e'(1)] obtain r where "r \<in> set (outbox_events (pg_db (pg_run p cs s1)))" "claimable now' r"
      "e_MessageID e' = xb_message_id r" by blast
    with held_not_claimable [OF lease _ _ that] e'(2) show False by simp
  qed
  with claim_takes_all [OF ok' assms(6)] show ?thesis unfolding free by blast
qed

theorem pg_leases_exclude_and_expire_witness:
  "\<exists>es s1 es' s2. pg_PendingOutboxEvents sample_pg 100 10 (sample_session []) = (Inr es, s1) \<and>
     pg_PendingOutboxEvents sample_pg 200 10 s1 = (Inr es', s2) \<and> e_MessageID ` set es = {''msg_1''} \<and>
     ''msg_1'' \<notin> e_MessageID ` set es'"
proof -
  let ?first = "pg_PendingOutboxEvents sample_pg 100 10 (sample_session [])"
  have first: "map_sum id (map e_MessageID) (fst ?first) = Inr [''msg_1'']" by code_simp
  have second: "ok (fst (pg_PendingOutboxEvents sample_pg 200 10 (snd ?first)))" by code_simp
  obtain es s1 where 1: "?first = (Inr es, s1)" "map e_MessageID es = [''msg_1'']"
    using first by (cases ?first; cases "fst ?first") auto
  then obtain e where e: "e \<in> set es" "e_MessageID e = ''msg_1''" by (auto simp: map_eq_Cons_conv)
  obtain es' s2 where 2: "pg_PendingOutboxEvents sample_pg 200 10 s1 = (Inr es', s2)"
    using second 1(1) by (cases "pg_PendingOutboxEvents sample_pg 200 10 s1") (auto simp: ok_def split: sum.splits)
  have "pg_PendingOutboxEvents sample_pg 200 10 (pg_run sample_pg [] s1) = (Inr es', s2)" using 2 by simp
  from pg_leases_exclude_and_expire [OF sample_json_ok sample_planner_ok _ 1(1) e(1) this] sample_outbox e(2)
  have "''msg_1'' \<notin> e_MessageID ` set es'" by simp
  moreover have "e_MessageID ` set es = {''msg_1''}" using arg_cong [OF 1(2), of set] by simp
  ultimately show ?thesis using 1(1) 2 by blast
qed

text \<open>
  C18. With its inbox in PostgreSQL, a consumer applies a message once: after a delivery
  was handled, a redelivery of the same message leaves the state of the handler as it is, whatever the
  broker does with either delivery and whatever faults the database connection has.
\<close>

theorem pg_redelivery_applied_once:
  assumes "cn_Inbox c = Some (PersistentInbox (Some (pg_Recorder p)))" "cn_Handler c = Some h"
    and "decodeDelivery unmarshal d = Inr e" "decodeDelivery unmarshal d' = Inr e'" "e_MessageID e' = e_MessageID e"
    and "ib_Record (PersistentInbox (Some (pg_Recorder p))) (consumerName c) e (w_inbox w) = (Inr True, i)" "h e (w_store w) = (Inr (), st)"
    and "ProcessDelivery unmarshal broker c d w = (errs, w1)" "ProcessDelivery unmarshal broker' c d' w1 = (errs', w2)"
  shows "w_store w1 = st \<and> w_store w2 = st"
  using pg.redelivery_keeps_store [OF assms] .

definition sample_pg_consumer :: "(pg, nat) Consumer" where
  "sample_pg_consumer = \<lparr>cn_Queue = InventoryReserveQueue, cn_ConsumerName = [],
     cn_Inbox = Some (PersistentInbox (Some (pg_Recorder sample_pg))), cn_Handler = Some counting, cn_Retry = True, cn_MaxRetries = 0\<rparr>"

theorem pg_redelivery_applied_once_witness:
  "\<exists>errs w1 errs' w2.
     ProcessDelivery sample_unmarshal healthy sample_pg_consumer sample_delivery
       \<lparr>w_inbox = sample_session [None, lost True], w_store = 0, w_calls = []\<rparr> = (errs, w1) \<and>
     ProcessDelivery sample_unmarshal healthy sample_pg_consumer sample_delivery w1 = (errs', w2) \<and> w_store w2 = 1"
proof -
  let ?w = "\<lparr>w_inbox = sample_session [None, lost True], w_store = 0, w_calls = []\<rparr> :: (pg, nat) world"
  let ?e = "WithEnvelopeDefaults (backfill sample_delivery sample_message)" and ?I = "PersistentInbox (Some (pg_Recorder sample_pg))"
  have "fst (ib_Record ?I (consumerName sample_pg_consumer) ?e (w_inbox ?w)) = Inr True" by code_simp
  then obtain i where rec: "ib_Record ?I (consumerName sample_pg_consumer) ?e (w_inbox ?w) = (Inr True, i)"
    by (cases "ib_Record ?I (consumerName sample_pg_consumer) ?e (w_inbox ?w)") auto
  obtain errs w1 where 1: "ProcessDelivery sample_unmarshal healthy sample_pg_consumer sample_delivery ?w = (errs, w1)" by (rule prod.exhaust)
  obtain errs' w2 where 2: "ProcessDelivery sample_unmarshal healthy sample_pg_consumer sample_delivery w1 = (errs', w2)" by (rule prod.exhaust)
  have "w_store w2 = 1"
    using pg_redelivery_applied_once [OF _ _ sample_decodes sample_decodes _ rec _ 1 2, of counting 1]
    by (simp add: sample_pg_consumer_def)
  with 1 2 show ?thesis by blast
qed

end
