(* ===== verification/Migrations.thy ===== *)
theory Migrations
  imports Pg_Session "HOL-Library.List_Lexorder" "HOL-Library.Char_ord"
begin

text \<open>
  The migration runner of \<open>internal/postgres/migrations.go\<close>. The SQL of a migration acts on the schema and
  data of a database of any type \<open>'d\<close> through the parameter \<open>sql\<close>; the runner's own table \<open>schema_migrations\<close>
  and its advisory lock are modelled. As in \<open>Pg_Session\<close>, every statement consumes one entry of a
  fault script, and a statement that fails may have been applied.
\<close>

subsection \<open>The runner\<close>

text \<open>\<open>sort.Strings\<close> orders by bytes, which is the lexicographic order on lists of characters.\<close>

definition HasSuffix :: "string \<Rightarrow> string \<Rightarrow> bool" where
  "HasSuffix s suffix \<longleftrightarrow> length suffix \<le> length s \<and> drop (length s - length suffix) s = suffix"

definition TrimSuffix :: "string \<Rightarrow> string \<Rightarrow> string" where
  "TrimSuffix s suffix = (if HasSuffix s suffix then take (length s - length suffix) s else s)"

record 'd migration_db =
  mg_data :: 'd
  mg_versions :: "string list option"
  mg_locked :: bool

record 'd migration_session =
  ms_db :: "'d migration_db"
  ms_faults :: "fault option list"

record migration_files =
  mf_ReadDir :: "error + (string \<times> bool) list"
  mf_ReadFile :: "string \<Rightarrow> error + string"

definition exec :: "('d migration_db \<Rightarrow> pg_error + 'a \<times> 'd migration_db) \<Rightarrow> ('d migration_session, pg_error, 'a) op" where
  "exec f s =
     (case ms_faults s of
        Some (err, applied) # rest \<Rightarrow>
          (Inl err, s\<lparr>ms_db := (case f (ms_db s) of Inr (_, db) \<Rightarrow> if applied then db else ms_db s | Inl _ \<Rightarrow> ms_db s),
             ms_faults := rest\<rparr>)
      | _ \<Rightarrow>
        (case f (ms_db s) of
           Inl err \<Rightarrow> (Inl err, s\<lparr>ms_faults := tl (ms_faults s)\<rparr>)
         | Inr (x, db) \<Rightarrow> (Inr x, s\<lparr>ms_db := db, ms_faults := tl (ms_faults s)\<rparr>)))"

definition exec_as :: "string \<Rightarrow> ('d migration_db \<Rightarrow> pg_error + 'a \<times> 'd migration_db) \<Rightarrow> ('d migration_session, error, 'a) op" where
  "exec_as message f s = (case exec f s of (Inl err, s) \<Rightarrow> (Inl (wrap_error message (pg_message err)), s) | (Inr x, s) \<Rightarrow> (Inr x, s))"

definition no_schema_migrations :: pg_error where
  "no_schema_migrations = PgError ''42P01'' ''relation \"schema_migrations\" does not exist''"

definition ensureSchemaMigrations :: "('d migration_session, error, unit) op" where
  "ensureSchemaMigrations = exec_as ''ensure schema_migrations'' (\<lambda>db. Inr ((), db\<lparr>mg_versions :=
     Some (case mg_versions db of None \<Rightarrow> [] | Some versions \<Rightarrow> versions)\<rparr>))"

definition migrationApplied :: "string \<Rightarrow> ('d migration_session, error, bool) op" where
  "migrationApplied version = exec_as (''check migration '' @ version) (\<lambda>db.
     case mg_versions db of None \<Rightarrow> Inl no_schema_migrations | Some versions \<Rightarrow> Inr (version \<in> set versions, db))"

definition record_version :: "string \<Rightarrow> 'd migration_db \<Rightarrow> pg_error + unit \<times> 'd migration_db" where
  "record_version version db =
     (case mg_versions db of
        None \<Rightarrow> Inl no_schema_migrations
      | Some versions \<Rightarrow> Inr ((), db\<lparr>mg_versions := Some (if version \<in> set versions then versions else versions @ [version])\<rparr>))"

definition apply_body :: "(string \<Rightarrow> 'd \<Rightarrow> pg_error + 'd) \<Rightarrow> string \<Rightarrow> 'd migration_db \<Rightarrow> pg_error + unit \<times> 'd migration_db" where
  "apply_body sql body db = (case sql body (mg_data db) of Inl err \<Rightarrow> Inl err | Inr d \<Rightarrow> Inr ((), db\<lparr>mg_data := d\<rparr>))"

definition migrate_one :: "migration_files \<Rightarrow> (string \<Rightarrow> 'd \<Rightarrow> pg_error + 'd) \<Rightarrow> string \<Rightarrow> ('d migration_session, error, unit) op" where
  "migrate_one files sql name =
     (let version = TrimSuffix name ''.sql'' in
      bind_op (migrationApplied version) (\<lambda>applied.
      if applied then ret_op () else
      bind_op (lift_error (map_sum (wrap_error (''read migration '' @ name)) id (mf_ReadFile files (''migrations/'' @ name)))) (\<lambda>body.
      bind_op (exec_as (''apply migration '' @ name) (apply_body sql body)) (\<lambda>_.
      exec_as (''record migration '' @ name) (record_version version)))))"

definition migration_names :: "(string \<times> bool) list \<Rightarrow> string list" where
  "migration_names entries = sort (map fst (filter (\<lambda>(name, dir). \<not> (dir \<or> \<not> HasSuffix name ''.sql'')) entries))"

definition migrate_all :: "migration_files \<Rightarrow> (string \<Rightarrow> 'd \<Rightarrow> pg_error + 'd) \<Rightarrow> ('d migration_session, error, unit) op" where
  "migrate_all files sql =
     bind_op ensureSchemaMigrations (\<lambda>_.
     bind_op (lift_error (map_sum (wrap_error ''read migrations'') id (mf_ReadDir files))) (\<lambda>entries.
     bind_op (fold_op (migrate_one files sql) (migration_names entries)) (\<lambda>_. ret_op ())))"

text \<open>The deferred unlock replaces the result only of a run that succeeded.\<close>

definition runMigrations :: "migration_files \<Rightarrow> (string \<Rightarrow> 'd \<Rightarrow> pg_error + 'd) \<Rightarrow> ('d migration_session, error, unit) op" where
  "runMigrations files sql s =
     (case exec_as ''acquire migration lock'' (\<lambda>db. Inr ((), db\<lparr>mg_locked := True\<rparr>)) s of
        (Inl err, s) \<Rightarrow> (Inl err, s)
      | (Inr _, s) \<Rightarrow>
        (case migrate_all files sql s of (r, s) \<Rightarrow>
         (case exec_as ''release migration lock'' (\<lambda>db. Inr ((), db\<lparr>mg_locked := False\<rparr>)) s of
            (Inl err, s) \<Rightarrow> (if ok r then Inl err else r, s)
          | (Inr _, s) \<Rightarrow> (r, s))))"

definition RunMigrations :: "error option \<Rightarrow> migration_files \<Rightarrow> (string \<Rightarrow> 'd \<Rightarrow> pg_error + 'd) \<Rightarrow> ('d migration_session, error, unit) op" where
  "RunMigrations conn files sql s =
     (case conn of Some err \<Rightarrow> (Inl (wrap_error ''open migration connection'' err), s) | None \<Rightarrow> runMigrations files sql s)"

subsection \<open>What a run does\<close>

text \<open>Applying the bodies of the named migrations one after the other.\<close>

fun run_bodies :: "migration_files \<Rightarrow> (string \<Rightarrow> 'd \<Rightarrow> pg_error + 'd) \<Rightarrow> string list \<Rightarrow> 'd \<Rightarrow> 'd option" where
  "run_bodies files sql [] d = Some d"
| "run_bodies files sql (name # names) d =
     (case mf_ReadFile files (''migrations/'' @ name) of
        Inl _ \<Rightarrow> None
      | Inr body \<Rightarrow> (case sql body d of Inl _ \<Rightarrow> None | Inr d' \<Rightarrow> run_bodies files sql names d'))"

abbreviation version_of :: "string \<Rightarrow> string" where
  "version_of name \<equiv> TrimSuffix name ''.sql''"

definition pending :: "string list \<Rightarrow> string list \<Rightarrow> string list" where
  "pending versions names = filter (\<lambda>name. version_of name \<notin> set versions) names"

text \<open>The first \<open>k\<close> of the migrations to do are recorded and the first \<open>j\<close> of them are applied.\<close>

definition progress :: "migration_files \<Rightarrow> (string \<Rightarrow> 'd \<Rightarrow> pg_error + 'd) \<Rightarrow> string list \<Rightarrow> string list
    \<Rightarrow> nat \<Rightarrow> nat \<Rightarrow> 'd migration_db \<Rightarrow> 'd migration_db \<Rightarrow> bool" where
  "progress files sql versions todo k j db db' \<longleftrightarrow>
     k \<le> j \<and> j \<le> Suc k \<and> j \<le> length todo \<and>
     mg_versions db' = Some (versions @ map version_of (take k todo)) \<and>
     run_bodies files sql (take j todo) (mg_data db) = Some (mg_data db')"

lemma progress_none: "mg_versions db = Some versions \<Longrightarrow> progress files sql versions todo 0 0 db db"
  by (simp add: progress_def)

lemma progress_lock: "progress files sql versions todo k j db db' \<Longrightarrow> progress files sql versions todo k j (db\<lparr>mg_locked := b\<rparr>) (db'\<lparr>mg_locked := c\<rparr>)"
  by (simp add: progress_def)

lemma exec_as_cases:
  assumes "exec_as message f s = (r, s')"
  obtains (kept) e where "r = Inl e" "ms_db s' = ms_db s"
  | (applied) e x where "f (ms_db s) = Inr (x, ms_db s')" "r = Inl e"
  | (ran) x where "f (ms_db s) = Inr (x, ms_db s')" "r = Inr x"
proof -
  obtain q s1 where q: "exec f s = (q, s1)" by fastforce
  have "(\<exists>e. q = Inl e \<and> ms_db s1 = ms_db s) \<or> (\<exists>e x. f (ms_db s) = Inr (x, ms_db s1) \<and> q = Inl e) \<or>
      (\<exists>x. f (ms_db s) = Inr (x, ms_db s1) \<and> q = Inr x)"
  proof (cases "f (ms_db s)")
    case (Inl err)
    with q show ?thesis by (auto simp: exec_def split: list.splits option.splits)
  next
    case (Inr y)
    with q show ?thesis by (cases y) (auto simp: exec_def split: list.splits option.splits if_splits)
  qed
  with assms q that show thesis by (cases q) (auto simp: exec_as_def)
qed

lemma version_of_inj: "HasSuffix a ''.sql'' \<Longrightarrow> HasSuffix b ''.sql'' \<Longrightarrow> version_of a = version_of b \<Longrightarrow> a = b"
  by (metis HasSuffix_def TrimSuffix_def append_take_drop_id)

lemma apply_body_eq: "apply_body sql body db = Inr (u, db') \<longleftrightarrow> (\<exists>d. sql body (mg_data db) = Inr d \<and> db' = db\<lparr>mg_data := d\<rparr>)"
  by (auto simp: apply_body_def split: sum.splits)

lemma record_version_eq: "mg_versions db = Some versions \<Longrightarrow> record_version v db = Inr (u, db') \<longleftrightarrow>
    db' = db\<lparr>mg_versions := Some (if v \<in> set versions then versions else versions @ [v])\<rparr>"
  by (auto simp: record_version_def)

text \<open>One migration that is not yet recorded.\<close>

lemma migrate_one_pending:
  assumes "mg_versions (ms_db s) = Some versions" "version_of name \<notin> set versions" "migrate_one files sql name s = (r, s')"
  shows "\<exists>k j. progress files sql versions [name] k j (ms_db s) (ms_db s') \<and> (ok r \<longrightarrow> k = 1)"
proof -
  let ?P = "\<lambda>k j s'. progress files sql versions [name] k j (ms_db s) (ms_db s')"
  obtain r1 s1 where check: "migrationApplied (version_of name) s = (r1, s1)" by fastforce
  have s1: "ms_db s1 = ms_db s" "ok r1 \<Longrightarrow> r1 = Inr False"
    using check assms(1,2) unfolding migrationApplied_def by (auto elim!: exec_as_cases)
  have none: "?P 0 0 s1" using s1(1) progress_none [OF assms(1)] by simp
  show ?thesis
  proof (cases "r1 = Inr False \<and> ok (mf_ReadFile files (''migrations/'' @ name))")
    case False
    with s1(2) consider e where "r1 = Inl e" | e where "r1 = Inr False" "mf_ReadFile files (''migrations/'' @ name) = Inl e"
      by (cases r1; cases "mf_ReadFile files (''migrations/'' @ name)") auto
    then have "\<not> ok r \<and> s' = s1"
      using assms(3) check by cases (auto simp: migrate_one_def Let_def bind_op_def lift_error_def)
    with none show ?thesis by auto
  next
    case True
    then obtain body where body: "mf_ReadFile files (''migrations/'' @ name) = Inr body" and r1: "r1 = Inr False" by (auto simp: ok_iff)
    obtain r2 s2 where app: "exec_as (''apply migration '' @ name) (apply_body sql body) s1 = (r2, s2)" by fastforce
    have rest: "(r, s') = (case r2 of Inl e \<Rightarrow> (Inl e, s2) | Inr _ \<Rightarrow> exec_as (''record migration '' @ name) (record_version (version_of name)) s2)"
      using assms(3) check r1 body app by (cases r2) (auto simp: migrate_one_def Let_def bind_op_def lift_error_def)
    have one: "?P 0 1 t" if "apply_body sql body (ms_db s) = Inr (u, ms_db t)" for u t
      using that assms(1) body by (auto simp: progress_def apply_body_eq)
    from app show ?thesis
    proof (cases rule: exec_as_cases)
      case (kept e)
      with rest none s1(1) show ?thesis by (auto simp: progress_def)
    next
      case (applied e u)
      with rest one [of u s2] s1(1) show ?thesis by auto
    next
      case (ran u)
      then have P: "?P 0 1 s2" using one [of u s2] s1(1) by simp
      then have v2: "mg_versions (ms_db s2) = Some versions" by (simp add: progress_def)
      have both: "?P 1 1 s'" if "record_version (version_of name) (ms_db s2) = Inr (w, ms_db s')" for w
        using that P v2 assms(2) by (simp add: progress_def record_version_eq [OF v2])
      from rest ran have "exec_as (''record migration '' @ name) (record_version (version_of name)) s2 = (r, s')" by simp
      then show ?thesis
      proof (cases rule: exec_as_cases)
        case (kept e)
        with P show ?thesis by (auto intro!: exI [of _ 0] exI [of _ 1] simp: progress_def)
      next
        case (applied e w)
        with both show ?thesis by blast
      next
        case (ran w)
        with both show ?thesis by blast
      qed
    qed
  qed
qed

text \<open>Following one migration by others.\<close>

lemma run_bodies_append:
  "run_bodies files sql (xs @ ys) d = (case run_bodies files sql xs d of None \<Rightarrow> None | Some d' \<Rightarrow> run_bodies files sql ys d')"
  by (induction xs arbitrary: d) (simp_all split: sum.splits)

lemma progress_Cons:
  assumes "progress files sql versions [name] 1 1 db db1" "progress files sql (versions @ [version_of name]) todo k j db1 db2"
  shows "progress files sql versions (name # todo) (Suc k) (Suc j) db db2"
  using assms by (auto simp: progress_def split: sum.splits)

lemma progress_first:
  assumes "progress files sql versions [name] k j db db'"
  shows "progress files sql versions (name # todo) k j db db'"
  using assms by (cases j; cases k) (auto simp: progress_def)

lemma progress_same_db: "progress files sql versions todo k j db db1 \<Longrightarrow> mg_data db = mg_data db0 \<Longrightarrow> progress files sql versions todo k j db0 db1"
  by (simp add: progress_def)

lemma migrate_one_done:
  assumes "mg_versions (ms_db s) = Some versions" "version_of name \<in> set versions" "migrate_one files sql name s = (r, s')"
  shows "ms_db s' = ms_db s"
proof -
  obtain r1 s1 where check: "migrationApplied (version_of name) s = (r1, s1)" by fastforce
  have "ms_db s1 = ms_db s \<and> (ok r1 \<longrightarrow> r1 = Inr True)"
    using check assms(1,2) unfolding migrationApplied_def by (auto elim!: exec_as_cases)
  with assms(3) check show ?thesis by (cases r1) (auto simp: migrate_one_def Let_def bind_op_def ret_op_def)
qed

text \<open>The loop over the sorted names.\<close>

lemma migrate_loop:
  assumes "mg_versions (ms_db s) = Some versions" "distinct names" "\<forall>n\<in>set names. HasSuffix n ''.sql''"
    and "fold_op (migrate_one files sql) names s = (r, s')"
  shows "\<exists>k j. progress files sql versions (pending versions names) k j (ms_db s) (ms_db s') \<and>
    (ok r \<longrightarrow> k = length (pending versions names))"
  using assms
proof (induction names arbitrary: s versions r s')
  case Nil
  then show ?case by (auto simp: pending_def ret_op_def progress_def)
next
  case (Cons name names)
  obtain r1 s1 where one: "migrate_one files sql name s = (r1, s1)" by fastforce
  have rest: "fold_op (migrate_one files sql) names s1 = (r2, s2) \<Longrightarrow> ok r1 \<Longrightarrow> s' = s2 \<and> ok r = ok r2" for r2 s2
    using Cons.prems(4) one by (cases r1; cases r2) (auto simp: bind_op_def ret_op_def)
  have stop: "\<not> ok r1 \<Longrightarrow> s' = s1 \<and> \<not> ok r" using Cons.prems(4) one by (cases r1) (auto simp: bind_op_def)
  obtain r2 s2 where loop: "fold_op (migrate_one files sql) names s1 = (r2, s2)" by fastforce
  show ?case
  proof (cases "version_of name \<in> set versions")
    case True
    with migrate_one_done [OF Cons.prems(1) True one] have db: "ms_db s1 = ms_db s" by simp
    have todo: "pending versions (name # names) = pending versions names" using True by (simp add: pending_def)
    show ?thesis
    proof (cases "ok r1")
      case True
      with Cons.IH [OF _ _ _ loop, of versions] Cons.prems(1-3) db rest [OF loop] todo show ?thesis by auto
    next
      case False
      then show ?thesis using stop db progress_none [OF Cons.prems(1)] by (intro exI [of _ 0]) simp
    qed
  next
    case False
    have todo: "pending versions (name # names) = name # pending (versions @ [version_of name]) names"
      using False Cons.prems(2,3) version_of_inj [of _ name] by (auto simp: pending_def intro!: filter_cong)
    from migrate_one_pending [OF Cons.prems(1) False one] obtain k j where p: "progress files sql versions [name] k j (ms_db s) (ms_db s1)"
      "ok r1 \<Longrightarrow> k = 1" by blast
    show ?thesis
    proof (cases "ok r1")
      case True
      with p have p1: "progress files sql versions [name] 1 1 (ms_db s) (ms_db s1)" by (auto simp: progress_def)
      then have v1: "mg_versions (ms_db s1) = Some (versions @ [version_of name])" by (simp add: progress_def)
      from Cons.IH [OF v1 _ _ loop] Cons.prems(2,3) obtain k' j' where
        "progress files sql (versions @ [version_of name]) (pending (versions @ [version_of name]) names) k' j' (ms_db s1) (ms_db s2)"
        "ok r2 \<longrightarrow> k' = length (pending (versions @ [version_of name]) names)" by auto
      with progress_Cons [OF p1, of "pending (versions @ [version_of name]) names" k' j' "ms_db s2"] rest [OF loop True] todo
      show ?thesis by (intro exI [of _ "Suc k'"] exI [of _ "Suc j'"]) auto
    next
      case False
      with stop p(1) todo progress_first [OF p(1)] show ?thesis by auto
    qed
  qed
qed

subsection \<open>Whole runs\<close>

text \<open>The recorded versions, none before the first run.\<close>

definition versions_of :: "'d migration_db \<Rightarrow> string list" where
  "versions_of db = (case mg_versions db of None \<Rightarrow> [] | Some versions \<Rightarrow> versions)"

definition advanced :: "migration_files \<Rightarrow> (string \<Rightarrow> 'd \<Rightarrow> pg_error + 'd) \<Rightarrow> string list \<Rightarrow> nat \<Rightarrow> nat
    \<Rightarrow> 'd migration_db \<Rightarrow> 'd migration_db \<Rightarrow> bool" where
  "advanced files sql todo k j db db' \<longleftrightarrow> k \<le> j \<and> j \<le> Suc k \<and> j \<le> length todo \<and>
     versions_of db' = versions_of db @ map version_of (take k todo) \<and>
     run_bodies files sql (take j todo) (mg_data db) = Some (mg_data db')"

lemma advanced_none: "versions_of db' = versions_of db \<Longrightarrow> mg_data db' = mg_data db \<Longrightarrow> advanced files sql todo 0 0 db db'"
  by (simp add: advanced_def)

lemma progress_advanced:
  "progress files sql (versions_of db0) todo k j db db' \<Longrightarrow> mg_data db = mg_data db0 \<Longrightarrow> advanced files sql todo k j db0 db'"
  by (auto simp: progress_def advanced_def versions_of_def)

lemma migration_names_props:
  assumes "distinct (map fst entries)"
  shows "distinct (migration_names entries)" "\<forall>n\<in>set (migration_names entries). HasSuffix n ''.sql''"
  using distinct_map_filter [OF assms] by (auto simp: migration_names_def)

lemma migrate_all_advances:
  assumes "mf_ReadDir files = Inr entries" "distinct (map fst entries)" "migrate_all files sql s = (r, s')"
  defines "todo \<equiv> pending (versions_of (ms_db s)) (migration_names entries)"
  shows "\<exists>k j. advanced files sql todo k j (ms_db s) (ms_db s') \<and> (ok r \<longrightarrow> k = length todo \<and> mg_versions (ms_db s') \<noteq> None)"
proof -
  obtain r1 s1 where ens: "ensureSchemaMigrations s = (r1, s1)" by fastforce
  have s1: "versions_of (ms_db s1) = versions_of (ms_db s)" "mg_data (ms_db s1) = mg_data (ms_db s)"
    "ok r1 \<Longrightarrow> mg_versions (ms_db s1) = Some (versions_of (ms_db s))"
    using ens unfolding ensureSchemaMigrations_def
    by (auto elim!: exec_as_cases simp: versions_of_def dest!: sym [of "migration_db.mg_versions_update _ _"] split: option.splits)
  obtain r2 s2 where loop: "fold_op (migrate_one files sql) (migration_names entries) s1 = (r2, s2)" by fastforce
  show ?thesis
  proof (cases "ok r1")
    case True
    then have "s' = s2" "ok r = ok r2"
      using assms(1,3) ens loop by (cases r1; cases r2; auto simp: migrate_all_def bind_op_def lift_error_def ret_op_def)+
    moreover from migrate_loop [OF s1(3) [OF True] migration_names_props [OF assms(2)] loop] obtain k j where
      "progress files sql (versions_of (ms_db s)) todo k j (ms_db s1) (ms_db s2)" "ok r2 \<longrightarrow> k = length todo"
      by (auto simp: todo_def)
    ultimately show ?thesis using progress_advanced s1(2) by (metis option.distinct(1) progress_def)
  next
    case False
    then have "s' = s1" "\<not> ok r" using assms(3) ens by (cases r1; auto simp: migrate_all_def bind_op_def)+
    then show ?thesis using s1(1,2) by (intro exI [of _ 0]) (simp add: advanced_none)
  qed
qed

lemma advanced_locked: "advanced files sql todo k j (db\<lparr>mg_locked := b\<rparr>) db' = advanced files sql todo k j db db'"
  "advanced files sql todo k j db (db'\<lparr>mg_locked := b\<rparr>) = advanced files sql todo k j db db'"
  by (simp_all add: advanced_def versions_of_def)

lemma exec_lock:
  assumes "exec_as message (\<lambda>db. Inr ((), db\<lparr>mg_locked := b\<rparr>)) s = (r, s')"
  shows "(\<exists>c. ms_db s' = (ms_db s)\<lparr>mg_locked := c\<rparr>) \<and> (ok r \<longrightarrow> \<not> b \<longrightarrow> \<not> mg_locked (ms_db s'))"
  using assms
proof (cases rule: exec_as_cases)
  case (kept e)
  then show ?thesis by (intro conjI exI [of _ "mg_locked (ms_db s)"]) simp_all
next
  case (applied e x)
  then show ?thesis by (intro conjI exI [of _ b]) simp_all
next
  case (ran x)
  then have "ms_db s' = (ms_db s)\<lparr>mg_locked := b\<rparr>" by simp
  then show ?thesis by (intro conjI exI [of _ b]) simp_all
qed

lemma run_advances:
  assumes "mf_ReadDir files = Inr entries" "distinct (map fst entries)" "runMigrations files sql s = (r, s')"
  defines "todo \<equiv> pending (versions_of (ms_db s)) (migration_names entries)"
  shows "\<exists>k j. advanced files sql todo k j (ms_db s) (ms_db s') \<and>
    (ok r \<longrightarrow> k = length todo \<and> mg_versions (ms_db s') \<noteq> None \<and> \<not> mg_locked (ms_db s'))"
proof -
  obtain r1 s1 where lock: "exec_as ''acquire migration lock'' (\<lambda>db. Inr ((), db\<lparr>mg_locked := True\<rparr>)) s = (r1, s1)" by fastforce
  obtain r2 s2 where all: "migrate_all files sql s1 = (r2, s2)" by fastforce
  obtain r3 s3 where unlock: "exec_as ''release migration lock'' (\<lambda>db. Inr ((), db\<lparr>mg_locked := False\<rparr>)) s2 = (r3, s3)" by fastforce
  from exec_lock [OF lock] exec_lock [OF unlock] obtain b c where b: "ms_db s1 = (ms_db s)\<lparr>mg_locked := b\<rparr>"
    and c: "ms_db s3 = (ms_db s2)\<lparr>mg_locked := c\<rparr>" and open_: "ok r3 \<Longrightarrow> \<not> mg_locked (ms_db s3)" by auto
  show ?thesis
  proof (cases "ok r1")
    case True
    then have "s' = s3" "ok r \<longrightarrow> ok r2 \<and> ok r3"
      using assms(3) lock all unlock by (cases r1; cases r2; cases r3; auto simp: runMigrations_def split: if_splits)+
    with migrate_all_advances [OF assms(1,2) all] b c open_ show ?thesis
      by (auto simp: todo_def advanced_locked versions_of_def)
  next
    case False
    then have "s' = s1" "\<not> ok r" using assms(3) lock by (cases r1; auto simp: runMigrations_def)+
    then show ?thesis using b by (intro exI [of _ 0]) (simp add: advanced_none versions_of_def)
  qed
qed

lemma calm_simps:
  "exec_as message f (s\<lparr>ms_faults := []\<rparr>) =
     (case f (ms_db s) of Inl err \<Rightarrow> (Inl (wrap_error message (pg_message err)), s\<lparr>ms_faults := []\<rparr>)
      | Inr (x, db) \<Rightarrow> (Inr x, s\<lparr>ms_db := db, ms_faults := []\<rparr>))"
  by (simp add: exec_as_def exec_def split: sum.splits prod.splits)

lemma migrate_loop_done:
  assumes "mg_versions (ms_db s) = Some versions" "\<forall>n\<in>set names. version_of n \<in> set versions"
  shows "\<exists>us. fold_op (migrate_one files sql) names (s\<lparr>ms_faults := []\<rparr>) = (Inr us, s\<lparr>ms_faults := []\<rparr>)"
  using assms(2)
proof (induction names)
  case (Cons name names)
  then have "migrate_one files sql name (s\<lparr>ms_faults := []\<rparr>) = (Inr (), s\<lparr>ms_faults := []\<rparr>)"
    using assms(1) by (simp add: migrate_one_def Let_def bind_op_def migrationApplied_def calm_simps ret_op_def)
  with Cons show ?case by (auto simp: bind_op_def ret_op_def)
qed (simp add: ret_op_def)

lemma run_again:
  assumes "mf_ReadDir files = Inr entries" "mg_versions (ms_db s) = Some versions" "\<not> mg_locked (ms_db s)"
    and "\<forall>n\<in>set (migration_names entries). version_of n \<in> set versions"
  shows "runMigrations files sql (s\<lparr>ms_faults := []\<rparr>) = (Inr (), s\<lparr>ms_faults := []\<rparr>)"
proof -
  let ?s = "s\<lparr>ms_db := (ms_db s)\<lparr>mg_locked := True\<rparr>\<rparr>"
  have same: "(ms_db s)\<lparr>mg_locked := b, mg_versions := Some versions\<rparr> = (ms_db s)\<lparr>mg_locked := b\<rparr>" for b
    using assms(2) by (cases "ms_db s") simp
  have unlocked: "(ms_db s)\<lparr>mg_locked := False\<rparr> = ms_db s" using assms(3) by (cases "ms_db s") simp
  from migrate_loop_done [of ?s versions "migration_names entries" files sql] assms(2,4) obtain us where
    loop: "fold_op (migrate_one files sql) (migration_names entries) (?s\<lparr>ms_faults := []\<rparr>) = (Inr us, ?s\<lparr>ms_faults := []\<rparr>)" by auto
  have "migrate_all files sql (?s\<lparr>ms_faults := []\<rparr>) = (Inr (), ?s\<lparr>ms_faults := []\<rparr>)"
    using assms(1,2) loop by (simp add: migrate_all_def bind_op_def ensureSchemaMigrations_def calm_simps lift_error_def ret_op_def [of "()"] same)
  then show ?thesis using unlocked by (simp add: runMigrations_def calm_simps)
qed

subsection \<open>Properties\<close>

text \<open>
  C19. Migrations are applied in the order of their names and, on success, exactly once. Whatever faults
  the connection has, a run applies a prefix of the migrations that were not yet recorded and records
  them in the same order; at most one, the last applied, is not recorded. When the run reports success all of them are
  applied and recorded and the lock is released, and another run over a working connection succeeds and
  changes nothing. The names in the embedded directory are distinct.
\<close>

theorem migrations_in_order_once:
  fixes s :: "'d migration_session"
  assumes "mf_ReadDir files = Inr entries" "distinct (map fst entries)" "runMigrations files sql s = (r, s')"
  defines "todo \<equiv> pending (versions_of (ms_db s)) (migration_names entries)"
  shows "(\<exists>k j. k \<le> j \<and> j \<le> Suc k \<and> j \<le> length todo \<and>
      versions_of (ms_db s') = versions_of (ms_db s) @ map version_of (take k todo) \<and>
      run_bodies files sql (take j todo) (mg_data (ms_db s)) = Some (mg_data (ms_db s')) \<and> (ok r \<longrightarrow> k = length todo)) \<and>
    sorted todo \<and>
    (ok r \<longrightarrow> \<not> mg_locked (ms_db s') \<and> runMigrations files sql (s'\<lparr>ms_faults := []\<rparr>) = (Inr (), s'\<lparr>ms_faults := []\<rparr>))"
proof -
  from run_advances [OF assms(1-3)] obtain k j where adv: "advanced files sql todo k j (ms_db s) (ms_db s')"
    and fin: "ok r \<longrightarrow> k = length todo \<and> mg_versions (ms_db s') \<noteq> None \<and> \<not> mg_locked (ms_db s')" by (auto simp: todo_def)
  have "sorted todo" by (simp add: todo_def pending_def migration_names_def sorted_filter [where f = id, simplified])
  moreover have "runMigrations files sql (s'\<lparr>ms_faults := []\<rparr>) = (Inr (), s'\<lparr>ms_faults := []\<rparr>)" if "ok r"
  proof -
    from fin that obtain versions where v: "mg_versions (ms_db s') = Some versions" by auto
    with adv fin that have "versions = versions_of (ms_db s) @ map version_of todo" by (auto simp: advanced_def versions_of_def)
    then have "\<forall>n\<in>set (migration_names entries). version_of n \<in> set versions" by (auto simp: todo_def pending_def)
    with run_again [OF assms(1) v] fin that show ?thesis by blast
  qed
  ultimately show ?thesis using adv fin by (auto simp: advanced_def)
qed

text \<open>Two migrations and a connection that is lost after the second was applied.\<close>

definition sample_files :: migration_files where
  "sample_files = \<lparr>mf_ReadDir = Inr [(''002_b.sql'', False), (''001_a.sql'', False), (''readme.md'', False)],
     mf_ReadFile = (\<lambda>path. Inr path)\<rparr>"

definition sample_sql :: "string \<Rightarrow> string list \<Rightarrow> pg_error + string list" where
  "sample_sql body log = Inr (log @ [body])"

definition sample_migration :: "fault option list \<Rightarrow> string list migration_session" where
  "sample_migration faults = \<lparr>ms_db = \<lparr>mg_data = [], mg_versions = None, mg_locked = False\<rparr>, ms_faults = faults\<rparr>"

theorem migrations_in_order_once_witness:
  "\<exists>s'. runMigrations sample_files sample_sql (sample_migration []) = (Inr (), s') \<and>
     mg_data (ms_db s') = [''migrations/001_a.sql'', ''migrations/002_b.sql''] \<and>
     runMigrations sample_files sample_sql (s'\<lparr>ms_faults := []\<rparr>) = (Inr (), s'\<lparr>ms_faults := []\<rparr>)"
proof -
  let ?run = "runMigrations sample_files sample_sql (sample_migration [])"
  have run: "fst ?run = Inr ()" "mg_data (ms_db (snd ?run)) = [''migrations/001_a.sql'', ''migrations/002_b.sql'']" by code_simp+
  have "?run = (Inr (), snd ?run)" using run(1) by (cases ?run) simp
  from migrations_in_order_once [OF _ _ this] run(2) \<open>?run = (Inr (), snd ?run)\<close>
  show ?thesis by (auto simp: sample_files_def)
qed

text \<open>
  A migration is not applied and recorded in one transaction: when the connection is lost after
  its SQL was applied and before it is recorded, the next run applies it again.
\<close>

theorem migration_applied_again:
  "(let (r, s) = runMigrations sample_files sample_sql (sample_migration ([None, None, None, None, Some (DriverError ''connection lost'', False)]));
        (r', s') = runMigrations sample_files sample_sql (s\<lparr>ms_faults := []\<rparr>)
    in \<not> ok r \<and> ok r' \<and> mg_data (ms_db s') = [''migrations/001_a.sql'', ''migrations/001_a.sql'', ''migrations/002_b.sql''])"
  by code_simp

end
