(* ===== verification/Broker_Setup.thy ===== *)
theory Broker_Setup
  imports Consumer Pg_Session Http_Api
begin

text \<open>
  How the processes set up their connection to RabbitMQ: the declaration of the topology, the constructors
  and closers of publisher, consumer and queue inspector (\<open>internal/messaging\<close>), the reading of queue
  depths, and the loops of the processes that retry a connection. The broker is an argument: \<open>am_answers\<close>
  says of each call, by its number, whether it is refused and with which error. The state keeps what the broker has accepted (the
  declared exchanges, queues and bindings) and the connections and channels the process has obtained and not yet given to \<open>Close\<close>.
\<close>

subsection \<open>Calls\<close>

record queue_args =
  qa_ttl :: "int option"
  qa_dlx :: "string option"

record broker_state =
  bk_exchanges :: "string list"
  bk_queues :: "queue_args gomap"
  bk_bindings :: "(string \<times> string \<times> string) list"

record amqp =
  am_calls :: nat
  am_answers :: "nat \<Rightarrow> error option"
  am_connections :: nat
  am_channels :: nat
  am_broker :: broker_state

type_synonym 'a amqp_op = "(amqp, error, 'a) op"

definition amqp_call :: "(amqp \<Rightarrow> amqp) \<Rightarrow> unit amqp_op" where
  "amqp_call effect s =
     (case am_answers s (am_calls s) of
        Some err \<Rightarrow> (Inl err, s\<lparr>am_calls := am_calls s + 1\<rparr>)
      | None \<Rightarrow> (Inr (), effect (s\<lparr>am_calls := am_calls s + 1\<rparr>)))"

definition on_broker :: "(broker_state \<Rightarrow> broker_state) \<Rightarrow> amqp \<Rightarrow> amqp" where
  "on_broker f s = s\<lparr>am_broker := f (am_broker s)\<rparr>"

definition amqp_wrapped :: "string \<Rightarrow> 'a amqp_op \<Rightarrow> 'a amqp_op" where
  "amqp_wrapped message m s = (case m s of (Inl err, s) \<Rightarrow> (Inl (wrap_error message err), s) | (Inr x, s) \<Rightarrow> (Inr x, s))"

definition Dial :: "unit amqp_op" where
  "Dial = amqp_call (\<lambda>s. s\<lparr>am_connections := am_connections s + 1\<rparr>)"

definition Channel :: "unit amqp_op" where
  "Channel = amqp_call (\<lambda>s. s\<lparr>am_channels := am_channels s + 1\<rparr>)"

text \<open>\<open>Close\<close> gives the channel or connection up, whatever it answers.\<close>

definition close_channel :: "unit amqp_op" where
  "close_channel s = (case amqp_call id s of (r, s) \<Rightarrow> (r, s\<lparr>am_channels := am_channels s - 1\<rparr>))"

definition close_connection :: "unit amqp_op" where
  "close_connection s = (case amqp_call id s of (r, s) \<Rightarrow> (r, s\<lparr>am_connections := am_connections s - 1\<rparr>))"

definition ExchangeDeclare :: "string \<Rightarrow> unit amqp_op" where
  "ExchangeDeclare name = amqp_call (on_broker (\<lambda>b. b\<lparr>bk_exchanges := List.insert name (bk_exchanges b)\<rparr>))"

definition QueueDeclare :: "string \<Rightarrow> queue_args \<Rightarrow> unit amqp_op" where
  "QueueDeclare name args = amqp_call (on_broker (\<lambda>b. b\<lparr>bk_queues :=
     (if mapget (bk_queues b) name = None then mapset name args (bk_queues b) else bk_queues b)\<rparr>))"

definition QueueBind :: "string \<Rightarrow> string \<Rightarrow> string \<Rightarrow> unit amqp_op" where
  "QueueBind queue key exchange = amqp_call (on_broker (\<lambda>b. b\<lparr>bk_bindings := List.insert (queue, key, exchange) (bk_bindings b)\<rparr>))"

subsection \<open>The topology\<close>

definition work_args :: queue_args where
  "work_args = \<lparr>qa_ttl = None, qa_dlx = Some DLXExchange\<rparr>"

definition retry_args :: "QueueTopology \<Rightarrow> queue_args" where
  "retry_args t = \<lparr>qa_ttl = Some (int32 (qt_RetryTTL t div 1000000)), qa_dlx = Some DomainExchange\<rparr>"

definition dlq_args :: queue_args where
  "dlq_args = \<lparr>qa_ttl = None, qa_dlx = None\<rparr>"

definition bind_key :: "QueueTopology \<Rightarrow> string \<Rightarrow> unit amqp_op" where
  "bind_key t key =
     bind_op (amqp_wrapped (''bind queue '' @ qt_Queue t @ '' to '' @ key) (QueueBind (qt_Queue t) key DomainExchange)) (\<lambda>_.
     bind_op (amqp_wrapped (''bind retry queue '' @ qt_RetryQueue t @ '' to '' @ key) (QueueBind (qt_RetryQueue t) key RetryExchange)) (\<lambda>_.
     amqp_wrapped (''bind dlq '' @ qt_DLQ t @ '' to '' @ key) (QueueBind (qt_DLQ t) key DLXExchange)))"

definition declare_queues :: "QueueTopology \<Rightarrow> unit amqp_op" where
  "declare_queues t =
     bind_op (amqp_wrapped (''declare queue '' @ qt_Queue t) (QueueDeclare (qt_Queue t) work_args)) (\<lambda>_.
     bind_op (amqp_wrapped (''declare retry queue '' @ qt_RetryQueue t) (QueueDeclare (qt_RetryQueue t) (retry_args t))) (\<lambda>_.
     bind_op (amqp_wrapped (''declare dlq '' @ qt_DLQ t) (QueueDeclare (qt_DLQ t) dlq_args)) (\<lambda>_.
     bind_op (fold_op (bind_key t) (qt_RoutingKeys t)) (\<lambda>_. ret_op ()))))"

definition DeclareTopology :: "unit amqp_op" where
  "DeclareTopology =
     bind_op (fold_op (\<lambda>exchange. amqp_wrapped (''declare exchange '' @ exchange) (ExchangeDeclare exchange))
        [DomainExchange, RetryExchange, DLXExchange]) (\<lambda>_.
     bind_op (fold_op declare_queues QueueTopologies) (\<lambda>_. ret_op ()))"

subsection \<open>Publisher, consumer and inspector\<close>

definition abandon :: "error \<Rightarrow> 'a amqp_op" where
  "abandon err s = (Inl err, snd (close_connection (snd (close_channel s))))"

text \<open>Dial, open a channel and declare the topology, as all three constructors begin.\<close>

definition or_abandon :: "unit amqp_op \<Rightarrow> 'a amqp_op \<Rightarrow> 'a amqp_op" where
  "or_abandon m k s = (case m s of (Inl err, s) \<Rightarrow> abandon err s | (Inr _, s) \<Rightarrow> k s)"

definition open_channel :: "unit amqp_op \<Rightarrow> unit amqp_op" where
  "open_channel k =
     bind_op (amqp_wrapped ''dial rabbitmq'' Dial) (\<lambda>_ s.
     case Channel s of
       (Inl err, s) \<Rightarrow> (Inl (wrap_error ''open rabbitmq channel'' err), snd (close_connection s))
     | (Inr _, s) \<Rightarrow> or_abandon DeclareTopology k s)"

definition NewRabbitPublisher :: "unit amqp_op" where
  "NewRabbitPublisher = open_channel
     (or_abandon (amqp_wrapped ''enable rabbitmq publisher confirms'' (amqp_call id)) (ret_op ()))"

definition NewRabbitConsumer :: "unit amqp_op" where
  "NewRabbitConsumer = open_channel
     (or_abandon (amqp_wrapped ''configure consumer qos'' (amqp_call id))
       (or_abandon (amqp_wrapped ''enable rabbitmq retry publisher confirms'' (amqp_call id)) (ret_op ())))"

definition NewQueueInspector :: "string list \<Rightarrow> string list amqp_op" where
  "NewQueueInspector queues = bind_op (open_channel (ret_op ()))
     (\<lambda>_. ret_op (if queues = [] then QueueNames else queues))"

definition amqp_Close :: "unit amqp_op" where
  "amqp_Close s =
     (case close_channel s of (channelErr, s) \<Rightarrow>
      case close_connection s of (connErr, s) \<Rightarrow> (if ok channelErr then connErr else channelErr, s))"

definition Deliveries :: "string \<Rightarrow> string \<Rightarrow> string amqp_op" where
  "Deliveries queue name =
     (if queue = [] then raise_op (ErrorString ''queue is required'')
      else bind_op (amqp_wrapped (''consume queue '' @ queue) (amqp_call id))
        (\<lambda>_. ret_op (if name = [] then queue else name)))"

text \<open>\<open>ctx\<close> is the state of the context before each queue, \<open>inspect\<close> the passive declaration.\<close>

fun QueueDepths :: "(nat \<Rightarrow> error option) \<Rightarrow> (string \<Rightarrow> error + QueueDepth) \<Rightarrow> string list \<Rightarrow> error + QueueDepth list" where
  "QueueDepths ctx inspect [] = Inr []"
| "QueueDepths ctx inspect (queue # queues) =
     (case ctx 0 of
        Some err \<Rightarrow> Inl err
      | None \<Rightarrow>
        (case inspect queue of
           Inl err \<Rightarrow> Inl (wrap_error (''inspect queue '' @ queue) err)
         | Inr depth \<Rightarrow> map_sum id ((#) depth) (QueueDepths (\<lambda>i. ctx (i + 1)) inspect queues)))"

definition UnavailableQueueMetrics :: "error option \<Rightarrow> error + QueueDepth list" where
  "UnavailableQueueMetrics err =
     (case err of Some e \<Rightarrow> Inl e | None \<Rightarrow> Inl (ErrorString ''rabbitmq queue metrics unavailable''))"

subsection \<open>Retrying a connection\<close>

datatype wake = ContextDone error | DeadlinePassed | Tick

text \<open>
  A \<open>select\<close> over channels that become ready at known times: it waits until one of them is ready
  and takes any of those that are.
\<close>

definition go_select :: "nat \<Rightarrow> time \<Rightarrow> (time \<times> 'a) list \<Rightarrow> time \<times> 'a" where
  "go_select choice now channels =
     (let at = max now (Min (set (map fst channels)));
          ready = filter (\<lambda>(t, _). t \<le> at) channels
      in (at, snd (ready ! (choice mod length ready))))"

text \<open>
  The loop that dials until it succeeds or its select takes another channel than the pause. The
  n-th attempt takes \<open>took n\<close> nanoseconds, \<open>choice n\<close> decides between channels of the select that are
  ready at once, and \<open>channels now\<close> are the channels of a select entered at \<open>now\<close>. With its answer the
  loop reports the number of the last attempt and the time it returns.
\<close>

partial_function (option) connect_loop :: "(nat \<Rightarrow> nat) \<Rightarrow> (nat \<Rightarrow> nat) \<Rightarrow> (time \<Rightarrow> (time \<times> wake) list) \<Rightarrow> 'c amqp_op
    \<Rightarrow> nat \<Rightarrow> time \<Rightarrow> amqp \<Rightarrow> (nat \<times> time \<times> (error + 'c) \<times> amqp) option" where
  [code]: "connect_loop took choice channels dial n started s =
     (case dial s of
        (Inr c, s) \<Rightarrow> Some (n, started + int (took n), Inr c, s)
      | (Inl err, s) \<Rightarrow>
          (let now = started + int (took n) in
           case go_select (choice n) now (channels now) of
             (at, ContextDone e) \<Rightarrow> Some (n, at, Inl e, s)
           | (at, DeadlinePassed) \<Rightarrow> Some (n, at, Inl err, s)
           | (at, Tick) \<Rightarrow> connect_loop took choice channels dial (n + 1) at s))"

text \<open>The context of the process is done at a time and with an error, or never.\<close>

definition context_channel :: "(time \<times> error) option \<Rightarrow> (time \<times> wake) list" where
  "context_channel ctx = (case ctx of None \<Rightarrow> [] | Some (t, e) \<Rightarrow> [(t, ContextDone e)])"

definition newRabbitConsumerWithRetry :: "(nat \<Rightarrow> nat) \<Rightarrow> (nat \<Rightarrow> nat) \<Rightarrow> (time \<times> error) option \<Rightarrow> time \<Rightarrow> amqp
    \<Rightarrow> (nat \<times> time \<times> (error + unit) \<times> amqp) option" where
  "newRabbitConsumerWithRetry took choice ctx start s =
     (let deadline = start + 60 * Second in
      connect_loop took choice
        (\<lambda>now. context_channel ctx @ [(deadline, DeadlinePassed), (now + 2 * Second, Tick)]) NewRabbitConsumer 0 start s)"

definition newRabbitPublisherWithRetry :: "(nat \<Rightarrow> nat) \<Rightarrow> (nat \<Rightarrow> nat) \<Rightarrow> (time \<times> error) option \<Rightarrow> time \<Rightarrow> amqp
    \<Rightarrow> (nat \<times> time \<times> (error + unit) \<times> amqp) option" where
  "newRabbitPublisherWithRetry took choice ctx start s =
     (let deadline = start + 60 * Second in
      connect_loop took choice
        (\<lambda>now. context_channel ctx @ [(deadline, DeadlinePassed), (now + 2 * Second, Tick)]) NewRabbitPublisher 0 start s)"

text \<open>The API has no timer of its own: its context ends at \<open>done_at\<close>, and it then reports the last error.\<close>

definition newQueueInspectorWithRetry :: "(nat \<Rightarrow> nat) \<Rightarrow> (nat \<Rightarrow> nat) \<Rightarrow> time \<Rightarrow> time \<Rightarrow> amqp
    \<Rightarrow> (nat \<times> time \<times> (error + string list) \<times> amqp) option" where
  "newQueueInspectorWithRetry took choice done_at start s =
     connect_loop took choice (\<lambda>now. [(done_at, DeadlinePassed), (now + 2 * Second, Tick)]) (NewQueueInspector []) 0 start s"

subsection \<open>What the calls do\<close>

text \<open>
  \<open>does m eff\<close>: \<open>m\<close> opens and closes nothing, and when it succeeds it changed the broker by \<open>eff\<close>.
\<close>

definition does :: "'a amqp_op \<Rightarrow> (broker_state \<Rightarrow> broker_state) \<Rightarrow> bool" where
  "does m eff \<longleftrightarrow> (\<forall>s r s'. m s = (r, s') \<longrightarrow> am_connections s' = am_connections s \<and> am_channels s' = am_channels s \<and>
     (ok r \<longrightarrow> am_broker s' = eff (am_broker s)))"

lemma doesD:
  assumes "does m eff" "m s = (r, s')"
  shows "am_connections s' = am_connections s" "am_channels s' = am_channels s" "ok r \<Longrightarrow> am_broker s' = eff (am_broker s)"
  using assms by (auto simp: does_def)

lemma does_call: "does (amqp_call (on_broker f)) f"
  by (auto simp: does_def amqp_call_def on_broker_def split: option.splits)

lemma does_wrapped: "does m eff \<Longrightarrow> does (amqp_wrapped message m) eff"
  by (auto simp: does_def amqp_wrapped_def split: prod.splits sum.splits)

lemma does_ret: "does (ret_op x) id"
  by (simp add: does_def ret_op_def)

lemma does_bind:
  assumes "does m f" "\<And>x. does (k x) g"
  shows "does (bind_op m k) (g \<circ> f)"
  unfolding does_def
proof (intro allI impI)
  fix s r s'
  assume run: "bind_op m k s = (r, s')"
  obtain q s1 where q: "m s = (q, s1)" by (rule prod.exhaust)
  note m = doesD [OF assms(1) q]
  show "am_connections s' = am_connections s \<and> am_channels s' = am_channels s \<and> (ok r \<longrightarrow> am_broker s' = (g \<circ> f) (am_broker s))"
  proof (cases q)
    case (Inl e)
    with run q m show ?thesis by (auto simp: bind_op_def)
  next
    case (Inr x)
    with run q have "k x s1 = (r, s')" by (simp add: bind_op_def)
    from doesD [OF assms(2) this] m Inr show ?thesis by auto
  qed
qed

lemma does_fold: "(\<And>x. does (f x) (g x)) \<Longrightarrow> does (fold_op f xs) (fold g xs)"
proof (induction xs)
  case (Cons x xs)
  have "does (fold_op f (x # xs)) ((id \<circ> fold g xs) \<circ> g x)"
    unfolding fold_op.simps by (intro does_bind does_ret Cons)
  then show ?case by (simp add: comp_def)
qed (simp add: does_ret)

definition with_exchange :: "string \<Rightarrow> broker_state \<Rightarrow> broker_state" where
  "with_exchange name b = b\<lparr>bk_exchanges := List.insert name (bk_exchanges b)\<rparr>"

definition with_queue :: "string \<Rightarrow> queue_args \<Rightarrow> broker_state \<Rightarrow> broker_state" where
  "with_queue name args b = b\<lparr>bk_queues :=
     (if mapget (bk_queues b) name = None then mapset name args (bk_queues b) else bk_queues b)\<rparr>"

definition with_binding :: "string \<Rightarrow> string \<Rightarrow> string \<Rightarrow> broker_state \<Rightarrow> broker_state" where
  "with_binding queue key exchange b = b\<lparr>bk_bindings := List.insert (queue, key, exchange) (bk_bindings b)\<rparr>"

definition with_key :: "QueueTopology \<Rightarrow> string \<Rightarrow> broker_state \<Rightarrow> broker_state" where
  "with_key t key = with_binding (qt_DLQ t) key DLXExchange \<circ> with_binding (qt_RetryQueue t) key RetryExchange \<circ>
     with_binding (qt_Queue t) key DomainExchange"

definition with_topology :: "QueueTopology \<Rightarrow> broker_state \<Rightarrow> broker_state" where
  "with_topology t = fold (with_key t) (qt_RoutingKeys t) \<circ> with_queue (qt_DLQ t) dlq_args \<circ>
     with_queue (qt_RetryQueue t) (retry_args t) \<circ> with_queue (qt_Queue t) work_args"

definition with_all :: "broker_state \<Rightarrow> broker_state" where
  "with_all = fold with_topology QueueTopologies \<circ> fold with_exchange [DomainExchange, RetryExchange, DLXExchange]"

lemma does_declares:
  "does (ExchangeDeclare name) (with_exchange name)" "does (QueueDeclare name args) (with_queue name args)"
  "does (QueueBind queue key exchange) (with_binding queue key exchange)"
  unfolding ExchangeDeclare_def QueueDeclare_def QueueBind_def with_exchange_def [abs_def] with_queue_def [abs_def]
    with_binding_def [abs_def] by (rule does_call)+

lemma does_bind_key: "does (bind_key t key) (with_key t key)"
  unfolding bind_key_def with_key_def by (intro does_bind does_wrapped does_declares)

lemma does_queues: "does (declare_queues t) (with_topology t)"
proof -
  have "does (declare_queues t) (((((id \<circ> fold (with_key t) (qt_RoutingKeys t)) \<circ> with_queue (qt_DLQ t) dlq_args) \<circ>
      with_queue (qt_RetryQueue t) (retry_args t))) \<circ> with_queue (qt_Queue t) work_args)"
    unfolding declare_queues_def by (intro does_bind does_wrapped does_declares does_fold does_bind_key does_ret)
  then show ?thesis by (simp add: with_topology_def)
qed

lemma does_DeclareTopology: "does DeclareTopology with_all"
proof -
  have "does DeclareTopology ((id \<circ> fold with_topology QueueTopologies) \<circ> fold with_exchange [DomainExchange, RetryExchange, DLXExchange])"
    unfolding DeclareTopology_def by (intro does_bind does_fold does_wrapped does_declares does_queues does_ret)
  then show ?thesis by (simp add: with_all_def)
qed

text \<open>A broker that refuses nothing.\<close>

definition calm :: "'a amqp_op \<Rightarrow> bool" where
  "calm m \<longleftrightarrow> (\<forall>s r s'. am_answers s = (\<lambda>_. None) \<longrightarrow> m s = (r, s') \<longrightarrow> ok r \<and> am_answers s' = (\<lambda>_. None))"

lemma calm_call: "calm (amqp_call (on_broker f))"
  by (auto simp: calm_def amqp_call_def on_broker_def)

lemma calm_declares: "calm (ExchangeDeclare name)" "calm (QueueDeclare name args)" "calm (QueueBind queue key exchange)"
  unfolding ExchangeDeclare_def QueueDeclare_def QueueBind_def by (rule calm_call)+

lemma calmE:
  assumes "calm m" "am_answers s = (\<lambda>_. None)"
  obtains x s' where "m s = (Inr x, s')" "am_answers s' = (\<lambda>_. None)"
proof -
  obtain r s' where run: "m s = (r, s')" by (rule prod.exhaust)
  with assms have r: "ok r" "am_answers s' = (\<lambda>_. None)" unfolding calm_def by blast+
  then obtain x where "r = Inr x" by (cases r) auto
  with that run r(2) show thesis by blast
qed

lemma calmI: "(\<And>s. am_answers s = (\<lambda>_. None) \<Longrightarrow> \<exists>x s'. m s = (Inr x, s') \<and> am_answers s' = (\<lambda>_. None)) \<Longrightarrow> calm m"
  unfolding calm_def by (metis (no_types) prod.inject ok_simps(1))

lemma calm_wrapped: "calm m \<Longrightarrow> calm (amqp_wrapped message m)"
  by (rule calmI, erule (1) calmE) (simp add: amqp_wrapped_def)

lemma calm_ret: "calm (ret_op x)"
  by (simp add: calm_def ret_op_def)

lemma calm_bind: "calm m \<Longrightarrow> (\<And>x. calm (k x)) \<Longrightarrow> calm (bind_op m k)"
  by (rule calmI, erule (1) calmE) (simp add: bind_op_def, meson calmE)

lemma calm_fold: "(\<And>x. calm (f x)) \<Longrightarrow> calm (fold_op f xs)"
  by (induction xs) (auto intro: calm_ret calm_bind)

lemma calm_topology: "am_answers s = (\<lambda>_. None) \<Longrightarrow> ok (fst (DeclareTopology s))"
proof -
  have "calm DeclareTopology"
    unfolding DeclareTopology_def declare_queues_def [abs_def] bind_key_def [abs_def]
    by (intro calm_bind calm_fold calm_wrapped calm_declares calm_ret)
  then show "am_answers s = (\<lambda>_. None) \<Longrightarrow> ok (fst (DeclareTopology s))"
    by (rule calmE) (assumption, simp)
qed

subsection \<open>The declared topology\<close>

definition declared_queues :: "(string \<times> queue_args) list" where
  "declared_queues = concat (map (\<lambda>t. [(qt_Queue t, work_args), (qt_RetryQueue t, retry_args t), (qt_DLQ t, dlq_args)]) QueueTopologies)"

definition key_bindings :: "QueueTopology \<Rightarrow> string \<Rightarrow> (string \<times> string \<times> string) set" where
  "key_bindings t key = {(qt_Queue t, key, DomainExchange), (qt_RetryQueue t, key, RetryExchange), (qt_DLQ t, key, DLXExchange)}"

definition topology_bindings :: "(string \<times> string \<times> string) set" where
  "topology_bindings = (\<Union>t\<in>set QueueTopologies. \<Union>key\<in>set (qt_RoutingKeys t). key_bindings t key)"

lemma with_exchange_parts [simp]:
  "bk_queues (with_exchange e b) = bk_queues b" "bk_bindings (with_exchange e b) = bk_bindings b"
  by (simp_all add: with_exchange_def)

lemma with_key_parts:
  "bk_queues (with_key t key b) = bk_queues b" "set (bk_bindings (with_key t key b)) = set (bk_bindings b) \<union> key_bindings t key"
  "distinct (bk_bindings b) \<Longrightarrow> distinct (bk_bindings (with_key t key b))"
  by (auto simp: with_key_def with_binding_def key_bindings_def)

lemma fold_keys_parts:
  "bk_queues (fold (with_key t) keys b) = bk_queues b"
  "set (bk_bindings (fold (with_key t) keys b)) = set (bk_bindings b) \<union> (\<Union>key\<in>set keys. key_bindings t key)"
  "distinct (bk_bindings b) \<Longrightarrow> distinct (bk_bindings (fold (with_key t) keys b))"
  by (induction keys arbitrary: b) (auto simp: with_key_parts)

definition or_else :: "'a option \<Rightarrow> 'a option \<Rightarrow> 'a option" where
  "or_else x y = (case x of None \<Rightarrow> y | Some v \<Rightarrow> Some v)"

lemma with_queue_parts:
  "mapget (bk_queues (with_queue name args b)) q = or_else (mapget (bk_queues b) q) (if name = q then Some args else None)"
  "bk_bindings (with_queue name args b) = bk_bindings b"
  by (auto simp: with_queue_def or_else_def split: option.splits)

lemma with_topology_parts:
  "mapget (bk_queues (with_topology t b)) q = or_else (mapget (bk_queues b) q)
     (map_of [(qt_Queue t, work_args), (qt_RetryQueue t, retry_args t), (qt_DLQ t, dlq_args)] q)"
  "set (bk_bindings (with_topology t b)) = set (bk_bindings b) \<union> (\<Union>key\<in>set (qt_RoutingKeys t). key_bindings t key)"
  "distinct (bk_bindings b) \<Longrightarrow> distinct (bk_bindings (with_topology t b))"
  by (auto simp: with_topology_def fold_keys_parts with_queue_parts or_else_def split: option.splits)

lemma fold_topology_parts:
  "mapget (bk_queues (fold with_topology ts b)) q = or_else (mapget (bk_queues b) q)
     (map_of (concat (map (\<lambda>t. [(qt_Queue t, work_args), (qt_RetryQueue t, retry_args t), (qt_DLQ t, dlq_args)]) ts)) q)"
  "set (bk_bindings (fold with_topology ts b)) = set (bk_bindings b) \<union> (\<Union>t\<in>set ts. \<Union>key\<in>set (qt_RoutingKeys t). key_bindings t key)"
  "distinct (bk_bindings b) \<Longrightarrow> distinct (bk_bindings (fold with_topology ts b))"
proof (induction ts arbitrary: b)
  case (Cons t ts)
  {
    case 1
    show ?case by (simp add: Cons.IH(1) with_topology_parts or_else_def split: option.splits)
  next
    case 2
    show ?case by (auto simp: Cons.IH(2) with_topology_parts)
  next
    case 3
    then show ?case by (simp add: Cons.IH(3) with_topology_parts)
  }
qed (simp_all add: or_else_def split: option.splits)

lemma with_all_parts:
  "mapget (bk_queues (with_all b)) q = or_else (mapget (bk_queues b) q) (map_of declared_queues q)"
  "set (bk_bindings (with_all b)) = set (bk_bindings b) \<union> topology_bindings"
  "distinct (bk_bindings b) \<Longrightarrow> distinct (bk_bindings (with_all b))"
  by (simp_all add: with_all_def fold_topology_parts declared_queues_def topology_bindings_def)

text \<open>
  A broker before the declaration: it may be empty, or hold part of the topology from an earlier
  declaration (the broker refuses to declare a queue again with other arguments).
\<close>

definition part_declared :: "broker_state \<Rightarrow> bool" where
  "part_declared b \<longleftrightarrow> (\<forall>(q, args)\<in>set declared_queues. mapget (bk_queues b) q = None \<or> mapget (bk_queues b) q = Some args) \<and>
     set (bk_bindings b) \<subseteq> topology_bindings \<and> distinct (bk_bindings b)"

text \<open>
  Where the broker puts a message: the queues bound to the exchange with the routing key (no binding
  key of the topology has a wildcard); and for a message that is rejected from a queue, or whose time in it has
  passed, the queues bound to the dead-letter exchange of that queue. Dead-lettering keeps the routing key.
\<close>

definition routed :: "broker_state \<Rightarrow> string \<Rightarrow> string \<Rightarrow> string list" where
  "routed b exchange key = map fst (filter (\<lambda>(_, k, e). e = exchange \<and> k = key) (bk_bindings b))"

definition dead_lettered :: "broker_state \<Rightarrow> string \<Rightarrow> string \<Rightarrow> string list" where
  "dead_lettered b queue key =
     (case mapget (bk_queues b) queue of
        None \<Rightarrow> []
      | Some args \<Rightarrow> (case qa_dlx args of None \<Rightarrow> [] | Some exchange \<Rightarrow> routed b exchange key))"

text \<open>How many copies of a message published to the retry exchange come back to a work queue.\<close>

definition retry_copies :: "broker_state \<Rightarrow> string \<Rightarrow> string \<Rightarrow> nat" where
  "retry_copies b key queue = length (filter (\<lambda>rq. queue \<in> set (dead_lettered b rq key)) (routed b RetryExchange key))"

definition bound_to :: "string \<Rightarrow> QueueTopology list" where
  "bound_to key = filter (\<lambda>t. key \<in> set (qt_RoutingKeys t)) QueueTopologies"

lemma topology_names:
  "distinct (map qt_RetryQueue QueueTopologies)" "distinct (map fst declared_queues)"
  "DomainExchange \<noteq> RetryExchange" "DomainExchange \<noteq> DLXExchange" "RetryExchange \<noteq> DLXExchange"
  by code_simp+

lemma routed_set: "set (routed b exchange key) = {q. (q, key, exchange) \<in> set (bk_bindings b)}"
  by (force simp: routed_def)

lemma routed_distinct:
  assumes "distinct (bk_bindings b)"
  shows "distinct (routed b exchange key)"
proof -
  have "distinct (filter (\<lambda>(_, k, e). e = exchange \<and> k = key) (bk_bindings b))" using assms by simp
  moreover have "inj_on fst (set (filter (\<lambda>(_, k, e). e = exchange \<and> k = key) (bk_bindings b)))" by (auto simp: inj_on_def)
  ultimately show ?thesis by (simp add: routed_def distinct_map)
qed

lemma declared_bindings:
  assumes "part_declared b"
  shows "set (bk_bindings (with_all b)) = topology_bindings" "distinct (bk_bindings (with_all b))"
    "(q, args) \<in> set declared_queues \<Longrightarrow> mapget (bk_queues (with_all b)) q = Some args"
proof -
  show "set (bk_bindings (with_all b)) = topology_bindings" "distinct (bk_bindings (with_all b))"
    using assms by (auto simp: part_declared_def with_all_parts)
  show "mapget (bk_queues (with_all b)) q = Some args" if "(q, args) \<in> set declared_queues"
  proof -
    have "map_of declared_queues q = Some args" using that topology_names(2) by (simp only: map_of_eq_Some_iff)
    with assms that show ?thesis by (auto simp: part_declared_def with_all_parts or_else_def split: option.splits)
  qed
qed

lemma declared_routes:
  assumes "part_declared b"
  shows "set (routed (with_all b) DomainExchange key) = qt_Queue ` set (bound_to key)"
    "set (routed (with_all b) RetryExchange key) = qt_RetryQueue ` set (bound_to key)"
    "set (routed (with_all b) DLXExchange key) = qt_DLQ ` set (bound_to key)"
  using declared_bindings(1) [OF assms] topology_names(3-5)
  by (auto simp: routed_set topology_bindings_def key_bindings_def bound_to_def)

lemma declared_queue_args:
  assumes "part_declared b" "t \<in> set QueueTopologies"
  shows "mapget (bk_queues (with_all b)) (qt_Queue t) = Some work_args"
    "mapget (bk_queues (with_all b)) (qt_RetryQueue t) = Some (retry_args t)"
    "mapget (bk_queues (with_all b)) (qt_DLQ t) = Some dlq_args"
  using assms(2) by (auto intro!: declared_bindings(3) [OF assms(1)] simp: declared_queues_def)

lemma declared_dead_letters:
  assumes "part_declared b" "t \<in> set QueueTopologies"
  shows "set (dead_lettered (with_all b) (qt_Queue t) key) = qt_DLQ ` set (bound_to key)"
    "set (dead_lettered (with_all b) (qt_RetryQueue t) key) = qt_Queue ` set (bound_to key)"
  using declared_queue_args [OF assms] declared_routes [OF assms(1)]
  by (simp_all add: dead_lettered_def work_args_def retry_args_def)

lemma declared_copies:
  assumes "part_declared b" "t \<in> set (bound_to key)"
  shows "retry_copies (with_all b) key (qt_Queue t) = length (bound_to key)"
proof -
  have all: "qt_Queue t \<in> set (dead_lettered (with_all b) rq key)" if "rq \<in> set (routed (with_all b) RetryExchange key)" for rq
  proof -
    from that declared_routes(2) [OF assms(1)] obtain t' where t': "t' \<in> set (bound_to key)" "rq = qt_RetryQueue t'" by auto
    then have "t' \<in> set QueueTopologies" by (simp add: bound_to_def)
    from declared_dead_letters(2) [OF assms(1) this] t'(2) assms(2) show ?thesis by simp
  qed
  then have "retry_copies (with_all b) key (qt_Queue t) = length (routed (with_all b) RetryExchange key)"
    by (simp add: retry_copies_def filter_id_conv [THEN iffD2])
  also have "\<dots> = card (qt_RetryQueue ` set (bound_to key))"
    using distinct_card [OF routed_distinct [OF declared_bindings(2) [OF assms(1)]]] declared_routes(2) [OF assms(1)] by metis
  also have "\<dots> = length (bound_to key)"
  proof -
    have "distinct (map qt_RetryQueue (bound_to key))" unfolding bound_to_def using topology_names(1) by (rule distinct_map_filter)
    from distinct_card [OF this] show ?thesis by simp
  qed
  finally show ?thesis .
qed

subsection \<open>Connections\<close>

text \<open>A constructor leaves one more connection and channel open if it succeeds, and none otherwise.\<close>

definition opened :: "bool \<Rightarrow> amqp \<Rightarrow> amqp \<Rightarrow> bool" where
  "opened success s s' \<longleftrightarrow> am_connections s' = am_connections s + (if success then 1 else 0) \<and>
     am_channels s' = am_channels s + (if success then 1 else 0)"

text \<open>Between: an operation on an open channel that keeps it on success and closes everything on failure.\<close>

definition keeps_or_closes :: "'a amqp_op \<Rightarrow> bool" where
  "keeps_or_closes m \<longleftrightarrow> (\<forall>s r s'. m s = (r, s') \<longrightarrow>
     (if ok r then am_connections s' = am_connections s \<and> am_channels s' = am_channels s
      else am_connections s' = am_connections s - 1 \<and> am_channels s' = am_channels s - 1))"

lemma does_plain: "does (amqp_call id) id"
  by (auto simp: does_def amqp_call_def split: option.splits)

lemma close_counts:
  "close_channel s = (r, s') \<Longrightarrow> am_connections s' = am_connections s \<and> am_channels s' = am_channels s - 1"
  "close_connection s = (r, s') \<Longrightarrow> am_connections s' = am_connections s - 1 \<and> am_channels s' = am_channels s"
  by (auto simp: close_channel_def close_connection_def amqp_call_def split: option.splits)

lemma abandon_counts:
  assumes "abandon err s = (r, s')"
  shows "\<not> ok r \<and> am_connections s' = am_connections s - 1 \<and> am_channels s' = am_channels s - 1"
proof -
  obtain r1 s1 where 1: "close_channel s = (r1, s1)" by (rule prod.exhaust)
  obtain r2 s2 where 2: "close_connection s1 = (r2, s2)" by (rule prod.exhaust)
  from close_counts(1) [OF 1] close_counts(2) [OF 2] 1 2 assms show ?thesis by (auto simp: abandon_def)
qed

lemma keeps_ret: "keeps_or_closes (ret_op x)"
  by (simp add: keeps_or_closes_def ret_op_def)

lemma keeps_or_abandon:
  assumes "does m f" "keeps_or_closes k"
  shows "keeps_or_closes (or_abandon m k)"
  unfolding keeps_or_closes_def
proof (intro allI impI)
  fix s r s'
  assume run: "or_abandon m k s = (r, s')"
  obtain q s1 where q: "m s = (q, s1)" by (rule prod.exhaust)
  note m = doesD(1,2) [OF assms(1) q]
  show "if ok r then am_connections s' = am_connections s \<and> am_channels s' = am_channels s
      else am_connections s' = am_connections s - 1 \<and> am_channels s' = am_channels s - 1"
  proof (cases q)
    case (Inl err)
    with run q have "abandon err s1 = (r, s')" by (simp add: or_abandon_def)
    from abandon_counts [OF this] m show ?thesis by simp
  next
    case (Inr x)
    with run q have "k s1 = (r, s')" by (simp add: or_abandon_def)
    with assms(2) m show ?thesis unfolding keeps_or_closes_def by metis
  qed
qed

lemma open_channel_opens:
  assumes "keeps_or_closes k" "open_channel k s = (r, s')"
  shows "opened (ok r) s s'"
proof -
  obtain r1 s1 where dial: "Dial s = (r1, s1)" by (rule prod.exhaust)
  have s1: "am_connections s1 = am_connections s + (if ok r1 then 1 else 0)" "am_channels s1 = am_channels s"
    using dial by (auto simp: Dial_def amqp_call_def split: option.splits)
  obtain r2 s2 where chan: "Channel s1 = (r2, s2)" by (rule prod.exhaust)
  have s2: "am_connections s2 = am_connections s1" "am_channels s2 = am_channels s1 + (if ok r2 then 1 else 0)"
    using chan by (auto simp: Channel_def amqp_call_def split: option.splits)
  obtain r3 s3 where closed: "close_connection s2 = (r3, s3)" by (rule prod.exhaust)
  consider (nodial) e where "r1 = Inl e" | (nochannel) e where "r1 = Inr ()" "r2 = Inl e" | (both) "r1 = Inr ()" "r2 = Inr ()"
    by (cases r1; cases r2) auto
  then show ?thesis
  proof cases
    case nodial
    with assms(2) dial s1 show ?thesis by (auto simp: open_channel_def bind_op_def amqp_wrapped_def opened_def)
  next
    case nochannel
    with assms(2) dial chan closed s1 s2 close_counts(2) [OF closed] show ?thesis
      by (auto simp: open_channel_def bind_op_def amqp_wrapped_def opened_def)
  next
    case both
    with assms(2) dial chan have "or_abandon DeclareTopology k s2 = (r, s')" by (simp add: open_channel_def bind_op_def amqp_wrapped_def)
    with keeps_or_abandon [OF does_DeclareTopology assms(1)] s1 s2 both show ?thesis
      unfolding keeps_or_closes_def opened_def by (auto split: if_splits)
  qed
qed

lemma constructors_open:
  "NewRabbitPublisher s = (r, s') \<Longrightarrow> opened (ok r) s s'"
  "NewRabbitConsumer s = (r, s') \<Longrightarrow> opened (ok r) s s'"
  unfolding NewRabbitPublisher_def NewRabbitConsumer_def
  by (erule open_channel_opens [OF keeps_or_abandon [OF does_wrapped [OF does_plain] keeps_ret]],
      erule open_channel_opens [OF keeps_or_abandon [OF does_wrapped [OF does_plain]
        keeps_or_abandon [OF does_wrapped [OF does_plain] keeps_ret]]])

lemma inspector_opens:
  assumes "NewQueueInspector queues s = (r, s')"
  shows "opened (ok r) s s'"
proof -
  obtain q s1 where q: "open_channel (ret_op ()) s = (q, s1)" by (rule prod.exhaust)
  from open_channel_opens [OF keeps_ret q] assms q show ?thesis
    by (cases q) (auto simp: NewQueueInspector_def bind_op_def ret_op_def)
qed

lemma close_closes:
  assumes "amqp_Close s = (r, s')"
  shows "am_connections s' = am_connections s - 1" "am_channels s' = am_channels s - 1"
proof -
  obtain r1 s1 where 1: "close_channel s = (r1, s1)" by (rule prod.exhaust)
  obtain r2 s2 where 2: "close_connection s1 = (r2, s2)" by (rule prod.exhaust)
  from close_counts(1) [OF 1] close_counts(2) [OF 2] 1 2 assms
  show "am_connections s' = am_connections s - 1" "am_channels s' = am_channels s - 1" by (auto simp: amqp_Close_def split: if_splits)
qed

subsection \<open>Depths and retries\<close>

text \<open>Depths are those of the queues in order; the first queue that cannot be read decides the error.\<close>

lemma QueueDepths_all:
  "(\<And>i. ctx i = None) \<Longrightarrow> (\<And>q. q \<in> set queues \<Longrightarrow> inspect q = Inr (depth q)) \<Longrightarrow> QueueDepths ctx inspect queues = Inr (map depth queues)"
  by (induction queues arbitrary: ctx) auto

lemma QueueDepths_error:
  assumes "\<And>i. ctx i = None" "\<And>q. q \<in> set before \<Longrightarrow> ok (inspect q)" "inspect queue = Inl err"
  shows "QueueDepths ctx inspect (before @ queue # rest) = Inl (wrap_error (''inspect queue '' @ queue) err)"
  using assms(1,2)
proof (induction before arbitrary: ctx)
  case Nil
  then show ?case using assms(3) by simp
next
  case (Cons q before)
  from Cons.prems(2) [of q] obtain d where "inspect q = Inr d" by (auto simp: ok_iff)
  with Cons show ?case by simp
qed

text \<open>What a select does, and what the loop does with it.\<close>

lemma go_select_takes:
  assumes "go_select choice now channels = (at, x)" "channels \<noteq> []"
  shows "now \<le> at" "\<exists>t. (t, x) \<in> set channels \<and> t \<le> at" "(t, y) \<in> set channels \<Longrightarrow> at \<le> max now t"
proof -
  let ?m = "Min (set (map fst channels))" and ?ready = "filter (\<lambda>(t, _). t \<le> at) channels"
  have at: "at = max now ?m" and x: "x = snd (?ready ! (choice mod length ?ready))"
    using assms(1) by (auto simp: go_select_def Let_def)
  show "now \<le> at" by (simp add: at)
  have "?m \<in> fst ` set channels" using assms(2) Min_in [of "fst ` set channels"] by simp
  then have "\<exists>x\<in>set channels. fst x \<le> at" unfolding at by force
  then have "?ready \<noteq> []" by (auto simp: filter_empty_conv case_prod_unfold)
  then have "?ready ! (choice mod length ?ready) \<in> set ?ready" by (intro nth_mem) simp
  moreover obtain u where "?ready ! (choice mod length ?ready) = (u, x)" using x by (metis prod.collapse)
  ultimately show "\<exists>t. (t, x) \<in> set channels \<and> t \<le> at" by auto
  have "?m \<le> t" if "(t, y) \<in> set channels" for t y using that by (auto intro!: Min_le rev_image_eqI)
  then show "(t, y) \<in> set channels \<Longrightarrow> at \<le> max now t" by (fastforce simp: at)
qed

text \<open>
  \<open>returns_by\<close>: the loop, entered with attempt \<open>n\<close>, returns; the last attempt began by \<open>until\<close>, no connection
  leaked, and an error is reported only after \<open>until\<close> or for a context that is done.
\<close>

definition returns_by :: "time \<Rightarrow> (time \<times> error) option \<Rightarrow> (nat \<Rightarrow> nat) \<Rightarrow> time \<Rightarrow> amqp
    \<Rightarrow> (nat \<times> time \<times> (error + 'c) \<times> amqp) option \<Rightarrow> bool" where
  "returns_by until ctx took start s run \<longleftrightarrow> (\<exists>k at r s'. run = Some (k, at, r, s') \<and>
     start + int k * (2 * Second) \<le> until \<and> at \<le> until + int (took k) \<and> opened (ok r) s s' \<and>
     (\<forall>e. r = Inl e \<longrightarrow> until \<le> at \<or> (\<exists>t. ctx = Some (t, e) \<and> t \<le> at)))"

lemma connect_returns:
  assumes dial: "\<And>s r s'. dial s = (r, s') \<Longrightarrow> opened (ok r) s s'"
    and "start + int n * (2 * Second) \<le> began" "began \<le> until"
  shows "returns_by until ctx took start s (connect_loop took choice
    (\<lambda>now. context_channel ctx @ [(until, DeadlinePassed), (now + 2 * Second, Tick)]) dial n began s)"
  using assms(2,3)
proof (induction "nat (until - began)" arbitrary: n began s rule: less_induct)
  case less
  let ?ch = "\<lambda>now. context_channel ctx @ [(until, DeadlinePassed), (now + 2 * Second, Tick)]"
  let ?now = "began + int (took n)"
  obtain r s1 where run: "dial s = (r, s1)" by (rule prod.exhaust)
  note o1 = dial [OF run]
  have enough: "start + int n * (2 * Second) \<le> until" using less.prems by simp
  show ?case
  proof (cases r)
    case (Inr c)
    with run o1 less.prems enough show ?thesis by (subst connect_loop.simps) (simp add: returns_by_def)
  next
    case (Inl err)
    obtain at w where sel: "go_select (choice n) ?now (?ch ?now) = (at, w)" by (rule prod.exhaust)
    note takes = go_select_takes [OF sel]
    have at: "?now \<le> at" "at \<le> max ?now until" using takes(1) takes(3) [of until DeadlinePassed] by simp_all
    obtain t where t: "(t, w) \<in> set (?ch ?now)" "t \<le> at" using takes(2) by auto
    have s1: "am_connections s1 = am_connections s" "am_channels s1 = am_channels s" using o1 Inl by (simp_all add: opened_def)
    have bound: "at \<le> until + int (took n)" using at(2) less.prems(2) by simp
    show ?thesis
    proof (cases w)
      case (ContextDone e)
      with t have "ctx = Some (t, e)" by (auto simp: context_channel_def split: option.splits)
      with run Inl sel ContextDone t(2) bound enough o1 show ?thesis
        by (subst connect_loop.simps) (auto simp: returns_by_def Let_def)
    next
      case DeadlinePassed
      with t have "until \<le> at" by (auto simp: context_channel_def split: option.splits)
      with run Inl sel DeadlinePassed bound enough o1 show ?thesis
        by (subst connect_loop.simps) (auto simp: returns_by_def Let_def)
    next
      case Tick
      with t have "?now + 2 * Second \<le> at" by (auto simp: context_channel_def split: option.splits)
      then have next_at: "began + 2 * Second \<le> at" "at \<le> until" using at(2) by simp_all
      have "nat (until - at) < nat (until - began)"
        using next_at by simp
      then have "returns_by until ctx took start s1 (connect_loop took choice ?ch dial (n + 1) at s1)"
        using next_at less.prems by (intro less.hyps) (simp_all add: algebra_simps)
      moreover have "connect_loop took choice ?ch dial n began s = connect_loop took choice ?ch dial (n + 1) at s1"
        using run Inl sel Tick by (subst connect_loop.simps) (simp add: Let_def)
      ultimately show ?thesis using s1 by (simp add: returns_by_def opened_def)
    qed
  qed
qed

subsection \<open>Properties\<close>

text \<open>
  C20. A successful declaration of the topology, on an empty broker or one that holds part of it,
  gives every work queue of the catalogue: with its retry queue and dead-letter queue declared with the
  arguments of the source, reached by each of its routing keys, and such that a rejected message
  goes to its dead-letter queue and a message that waited in its retry queue comes back to it.
  What a retry reaches depends on who shares the key: each work queue bound to the key gets one copy per
  queue bound to it, and a rejected message reaches the dead-letter queues of all of them.
\<close>

theorem topology_declared:
  assumes "part_declared (am_broker s)" "DeclareTopology s = (Inr (), s')" "t \<in> set QueueTopologies" "key \<in> set (qt_RoutingKeys t)"
  defines "b \<equiv> am_broker s'"
  shows "mapget (bk_queues b) (qt_Queue t) = Some \<lparr>qa_ttl = None, qa_dlx = Some DLXExchange\<rparr> \<and>
    mapget (bk_queues b) (qt_RetryQueue t) = Some \<lparr>qa_ttl = Some (int32 (qt_RetryTTL t div 1000000)), qa_dlx = Some DomainExchange\<rparr> \<and>
    mapget (bk_queues b) (qt_DLQ t) = Some \<lparr>qa_ttl = None, qa_dlx = None\<rparr> \<and>
    set (routed b DomainExchange key) = qt_Queue ` set (bound_to key) \<and>
    set (routed b RetryExchange key) = qt_RetryQueue ` set (bound_to key) \<and>
    set (dead_lettered b (qt_Queue t) key) = qt_DLQ ` set (bound_to key) \<and>
    retry_copies b key (qt_Queue t) = length (bound_to key) \<and> t \<in> set (bound_to key)"
proof -
  have b: "b = with_all (am_broker s)" using doesD(3) [OF does_DeclareTopology assms(2)] by (simp add: b_def)
  have "t \<in> set (bound_to key)" using assms(3,4) by (simp add: bound_to_def)
  with declared_copies [OF assms(1) this] declared_queue_args [OF assms(1,3)] declared_routes [OF assms(1), of key]
    declared_dead_letters [OF assms(1,3), of key] show ?thesis
    by (simp add: b work_args_def retry_args_def dlq_args_def)
qed

definition sample_amqp :: amqp where
  "sample_amqp = \<lparr>am_calls = 0, am_answers = (\<lambda>_. None), am_connections = 0, am_channels = 0,
     am_broker = \<lparr>bk_exchanges = [], bk_queues = [], bk_bindings = []\<rparr>\<rparr>"

text \<open>The retry of a failed notification on \<open>payment.failed\<close> comes back twice, and its rejection fills two dead-letter queues.\<close>

theorem topology_declared_witness:
  "\<exists>s'. DeclareTopology sample_amqp = (Inr (), s') \<and>
     retry_copies (am_broker s') ''payment.failed'' NotificationsEmailQueue = 2 \<and>
     set (dead_lettered (am_broker s') NotificationsEmailQueue ''payment.failed'') = {''orders.compensate.dlq'', ''notifications.email.dlq''}"
proof -
  have "ok (fst (DeclareTopology sample_amqp))" by (rule calm_topology) (simp add: sample_amqp_def)
  then obtain s' where run: "DeclareTopology sample_amqp = (Inr (), s')"
    by (cases "DeclareTopology sample_amqp") (auto simp: ok_def split: sum.splits)
  have part: "part_declared (am_broker sample_amqp)" by (auto simp: part_declared_def sample_amqp_def)
  let ?t = "QueueTopologies ! 6"
  have t: "?t \<in> set QueueTopologies" "''payment.failed'' \<in> set (qt_RoutingKeys ?t)" "qt_Queue ?t = NotificationsEmailQueue"
    "qt_DLQ ` set (bound_to ''payment.failed'') = {''orders.compensate.dlq'', ''notifications.email.dlq''}" "length (bound_to ''payment.failed'') = 2"
    by code_simp+
  note declared = topology_declared [OF part run t(1,2), unfolded t(3-5)]
  have "retry_copies (am_broker s') ''payment.failed'' NotificationsEmailQueue = 2" using declared by (elim conjE)
  moreover have "set (dead_lettered (am_broker s') NotificationsEmailQueue ''payment.failed'') = {''orders.compensate.dlq'', ''notifications.email.dlq''}"
    using declared by (elim conjE)
  ultimately show ?thesis using run by (intro exI conjI)
qed

text \<open>
  C39. No connection leaks: the constructors of the publisher, the consumer and the queue inspector leave
  one more connection and channel open when they succeed and none when they fail, at whichever call the broker
  refuses; closing one leaves one connection and one channel less, also when a close reports an error.
\<close>

theorem connections_not_leaked:
  "(NewRabbitPublisher s = (r, s') \<longrightarrow> opened (ok r) s s') \<and> (NewRabbitConsumer s = (r, s') \<longrightarrow> opened (ok r) s s') \<and>
   (NewQueueInspector queues s = (r2, s') \<longrightarrow> opened (ok r2) s s') \<and>
   (amqp_Close s = (r, s') \<longrightarrow> am_connections s' = am_connections s - 1 \<and> am_channels s' = am_channels s - 1)"
  using constructors_open [of s r s'] inspector_opens [of queues s r2 s'] close_closes [of s r s'] by blast

theorem connections_not_leaked_witness:
  "\<exists>r s'. NewRabbitConsumer (sample_amqp\<lparr>am_answers := (\<lambda>n. if n = 3 then Some (ErrorString ''channel closed'') else None)\<rparr>) = (r, s') \<and>
     \<not> ok r \<and> am_connections s' = 0 \<and> am_channels s' = 0"
proof -
  let ?s = "sample_amqp\<lparr>am_answers := (\<lambda>n. if n = 3 then Some (ErrorString ''channel closed'') else None)\<rparr>"
  obtain r s' where run: "NewRabbitConsumer ?s = (r, s')" by (rule prod.exhaust)
  have "\<not> ok (fst (NewRabbitConsumer ?s))" by code_simp
  with connections_not_leaked [of ?s r s'] run show ?thesis by (auto simp: opened_def sample_amqp_def)
qed

text \<open>
  C40. The connection loops of the worker, the relay and the API return, whatever the broker answers, however long
  each attempt takes and whichever ready channel a select takes. They make at most 31 attempts, two seconds apart,
  and begin none later than sixty seconds after the start. They give up with an error only when those sixty seconds
  have passed or, in the worker and the relay, with the error of the context when that is done. When they succeed they
  hold one more connection and channel than before, and no more than before when they fail. The context of the API ends after
  sixty seconds, as its \<open>main\<close> makes it.
\<close>

theorem connection_retry_returns:
  "(\<exists>k at r s'. newRabbitConsumerWithRetry took choice ctx start s = Some (k, at, r, s') \<and> k \<le> 30 \<and>
      at \<le> start + 60 * Second + int (took k) \<and> opened (ok r) s s' \<and>
      (\<forall>e. r = Inl e \<longrightarrow> start + 60 * Second \<le> at \<or> (\<exists>t. ctx = Some (t, e) \<and> t \<le> at))) \<and>
   (\<exists>k at r s'. newRabbitPublisherWithRetry took choice ctx start s = Some (k, at, r, s') \<and> k \<le> 30 \<and>
      at \<le> start + 60 * Second + int (took k) \<and> opened (ok r) s s' \<and>
      (\<forall>e. r = Inl e \<longrightarrow> start + 60 * Second \<le> at \<or> (\<exists>t. ctx = Some (t, e) \<and> t \<le> at))) \<and>
   (\<exists>k at r s'. newQueueInspectorWithRetry took choice (start + 60 * Second) start s = Some (k, at, r, s') \<and> k \<le> 30 \<and>
      at \<le> start + 60 * Second + int (took k) \<and> opened (ok r) s s' \<and> (\<not> ok r \<longrightarrow> start + 60 * Second \<le> at))"
proof -
  let ?until = "start + 60 * Second"
  have "returns_by ?until ctx took start s (newRabbitConsumerWithRetry took choice ctx start s)"
    "returns_by ?until ctx took start s (newRabbitPublisherWithRetry took choice ctx start s)"
    unfolding newRabbitConsumerWithRetry_def newRabbitPublisherWithRetry_def Let_def
    by (rule connect_returns, erule constructors_open, simp, simp)+
  moreover have "returns_by ?until None took start s (newQueueInspectorWithRetry took choice ?until start s)"
    using connect_returns [OF inspector_opens, where ctx = None and n = 0 and began = start and start = start and until = ?until]
    by (simp add: newQueueInspectorWithRetry_def context_channel_def)
  ultimately show ?thesis by (auto simp: returns_by_def not_ok_iff)
qed

text \<open>A broker that refuses every call: the worker gives up after sixty seconds with nothing open.\<close>

theorem connection_retry_returns_witness:
  "\<exists>k at e s'. newRabbitConsumerWithRetry (\<lambda>_. 0) (\<lambda>_. 0) None 0
       (sample_amqp\<lparr>am_answers := \<lambda>_. Some (ErrorString ''refused'')\<rparr>) = Some (k, at, Inl e, s') \<and>
     k \<le> 30 \<and> at = 60 * Second \<and> am_connections s' = 0"
proof -
  let ?s = "sample_amqp\<lparr>am_answers := \<lambda>_. Some (ErrorString ''refused'')\<rparr>"
  obtain k at r s' where run: "newRabbitConsumerWithRetry (\<lambda>_. 0) (\<lambda>_. 0) None 0 ?s = Some (k, at, r, s')"
    and k: "k \<le> 30" "at \<le> 60 * Second" "opened (ok r) ?s s'" "\<And>e. r = Inl e \<Longrightarrow> 60 * Second \<le> at"
    using connection_retry_returns [of "\<lambda>_. 0" "\<lambda>_. 0" None 0 ?s] by auto
  have "\<not> ok (fst (snd (snd (the (newRabbitConsumerWithRetry (\<lambda>_. 0) (\<lambda>_. 0) None 0 ?s)))))" by code_simp
  then obtain e where e: "r = Inl e" unfolding run by (auto simp: not_ok_iff)
  with k(2) k(4) [OF e] have "at = 60 * Second" by simp
  with run k(1,3) e show ?thesis by (simp add: opened_def sample_amqp_def)
qed

end
