(* ===== verification/Spec2Isabelle.thy ===== *)
theory Spec2Isabelle
  imports Saga Relay Webhook Pg_Properties Migrations Broker_Setup
begin

text \<open>
  FulfillHub: a verification development for the Go commerce platform under \<open>src/\<close>.

  \<^bold>\<open>The program.\<close> An HTTP API accepts orders of merchants and cancellation requests. Orders
  live in a store (in memory or PostgreSQL) that keeps, with every change, one event in an
  outbox and one entry in an audit trail. A relay publishes the outbox to RabbitMQ. Workers
  consume the events, reserve stock, authorize payments, create shipments, complete,
  compensate and cancel orders through the same store; an inbox makes them skip messages
  they have seen, failed messages are retried and then dead-lettered, and a tool replays
  dead letters. Around them stand rate limiters, webhook verification and operations tokens.

  \<^bold>\<open>Conventions.\<close> A Go struct is a record with prefixed fields, a map an association list read
  by \<open>map_of\<close>, a string its bytes, an \<open>int64\<close> whose overflow matters a 64-bit word, a time a
  number of nanoseconds. An operation on a state \<open>'s\<close> has type \<open>('s, error, 'a) op\<close>: it
  returns \<open>Inl\<close> an error or \<open>Inr\<close> a value, and the next state. Interfaces are records of
  methods; what their clients rely on are locales, interpreted on the implementations.
  Clocks, random bytes, answers of the broker, of Redis, of the providers and of
  \<open>encoding/json\<close> are arguments of the definitions that use them.

  \<^bold>\<open>Theories and sources.\<close>
  \<^item> \<open>Prelude\<close>, \<open>Go_Lib\<close>: shared lemmas; the parts of \<open>strings\<close>, \<open>strconv\<close>, \<open>time\<close> and
    \<open>encoding/hex\<close> that the program uses, with their round trips. \<open>Sha256\<close>: SHA-256 and HMAC.
  \<^item> \<open>Order_Model\<close>, \<open>State_Machine\<close>: \<open>internal/commerce/model.go\<close>, \<open>state_machine.go\<close>. The status
    machine is acyclic with chains of at most five steps.
  \<^item> \<open>Store_Interface\<close>: the store interfaces and the contracts \<open>order_store\<close>, \<open>projector\<close>,
    \<open>tenant_store\<close> and \<open>outbox_source\<close> over an abstract ledger of orders, events and audit logs.
  \<^item> \<open>Memory_Store\<close>, \<open>Store_Lifecycle\<close>: \<open>internal/commerce/store.go\<close>; every method, the contracts
    discharged, and the refinement of the abstract order machine by any sequence of calls.
  \<^item> \<open>Order_Service\<close>: \<open>internal/commerce/service.go\<close>; validation against a declarative
    specification, exact totals and their overflow, creation, idempotent retry, cancellation.
  \<^item> \<open>Providers\<close>, \<open>Topology\<close>, \<open>Fulfillment\<close>, \<open>Saga\<close>: \<open>internal/providers\<close>,
    \<open>internal/messaging/topology.go\<close>, \<open>internal/fulfillment\<close>; the handlers of all queues over any
    projector, their composition to the completed order, the bound on event chains,
    cancellation and compensation.
  \<^item> \<open>Inbox\<close>, \<open>Consumer\<close>, \<open>Publisher\<close>, \<open>Relay\<close>: \<open>internal/messaging\<close> and the loop of
    \<open>cmd/fulfillhub-outbox-relay\<close>; settlement of deliveries, retry and dead letters, publication
    with confirms, replay, and at-least-once relaying.
  \<^item> \<open>Rate_Limit\<close>, \<open>Webhook\<close>: \<open>internal/ratelimit\<close>, \<open>internal/providers/webhook.go\<close>.
  \<^item> \<open>Jwt\<close>, \<open>Http_Api\<close>, \<open>Api_Behaviour\<close>, \<open>Api_Properties\<close>: \<open>internal/api/server.go\<close>; base64url and
    operations tokens, every route and endpoint, readiness and metrics, the form of all answers,
    separation of merchants, requests without credentials.

  \<^item> \<open>Pg_Tables\<close>, \<open>Pg_Session\<close>, \<open>Pg_Store\<close>: \<open>internal/postgres\<close>; the tables with their keys, checks and foreign
    keys, statements, queries and transactions over a connection that may fail at any point, and every
    method of the store as its sequence of statements.
  \<^item> \<open>Pg_Atomic\<close>, \<open>Pg_Ledger\<close>, \<open>Pg_Methods\<close>, \<open>Pg_Contract\<close>, \<open>Pg_Invariants\<close>: a program logic for
    transactions, atomicity of every method under faults, and the contracts of \<open>Store_Interface\<close> for the
    tables. \<open>Pg_Stock\<close>, \<open>Pg_Reservation\<close>: conservation of stock and its reservations. \<open>Pg_Messaging\<close>, \<open>Pg_Leases\<close>: outbox and
    inbox tables and the leases. \<open>Pg_Creation\<close>: repeated and racing creations. \<open>Pg_Properties\<close>: what they come to.
  \<^item> \<open>Migrations\<close>: \<open>internal/postgres/migrations.go\<close>; order, recording and repetition of migrations.
  \<^item> \<open>Broker_Setup\<close>: topology declaration, constructors and closers of \<open>internal/messaging\<close>, queue
    metrics, the timed connection loops of the processes in \<open>cmd/\<close>.

  \<^bold>\<open>Bounds.\<close> No definition uses fuel except \<open>relay_until_pause\<close>, whose bound on runs is part of
  what is proved: one run per pending message and one more empties the outbox. The wait for a
  broker's answer, the relay and the connection loops return \<open>None\<close> when they never end; that the connection
  loops do return, after at most 31 attempts, is proved.

  \<^bold>\<open>Simplifications.\<close> Transactions on PostgreSQL run one after another: races on creation are covered by the
  constraints (\<open>racing_creation_refused\<close>), row locks are not modelled as waiting. Queries do not check that
  their text parameters are valid in the encoding of the database, so an ill-encoded id is not found where the server
  would report an error. The two reads of the store interface, \<open>GetOrder\<close> and \<open>GetShipment\<close>, see a fault of the
  connection but leave it in place for the next call. Timers fire when they are due.

  \<^bold>\<open>Not modelled.\<close> Tracing and logging, which have no influence on the results; the network under
  AMQP, Redis and SQL connections, whose answers and faults are arguments; Unicode tables beyond ASCII and
  the white space of \<open>TrimSpace\<close> (an argument where they matter); the SQL text of migrations other
  than the tables it defines; command lines and environment variables of the processes in \<open>cmd/\<close>.
\<close>

end
